(* ===== verification/Core_Error.thy ===== *)
theory Core_Error
  imports Prelude
begin

text \<open>
  The error type of the workspace (crates/mizan-core/src/error.rs), the public code and
  message of an error, and the two functions that turn it into an HTTP status: \<open>from_app_error\<close>
  of crates/mizan-api/src/utils.rs and \<open>app_error_status_code\<close> of
  crates/mizan-api/src/gateway.rs. A wrapped foreign error is kept as the text it displays.
\<close>

datatype app_error =
    Config str str
  | InvalidConfig str str
  | Infrastructure str
  | Io str
  | NotFound str
  | Unauthorized
  | Forbidden
  | LimitExceeded str
  | InsufficientCredit
  | Provider str

type_synonym 'a app_result = "app_error + 'a"

text \<open>The \<open>#[error(...)]\<close> texts.\<close>

fun error_to_string :: "app_error \<Rightarrow> str" where
  "error_to_string (Config key source) = lit ''configuration error for '' @ key @ lit '': '' @ source"
| "error_to_string (InvalidConfig key message) =
     lit ''invalid configuration for '' @ key @ lit '': '' @ message"
| "error_to_string (Infrastructure m) = lit ''infrastructure error: '' @ m"
| "error_to_string (Io m) = lit ''io error: '' @ m"
| "error_to_string (NotFound m) = lit ''not found: '' @ m"
| "error_to_string Unauthorized = lit ''unauthorized''"
| "error_to_string Forbidden = lit ''forbidden''"
| "error_to_string (LimitExceeded m) = lit ''limit exceeded: '' @ m"
| "error_to_string InsufficientCredit = lit ''insufficient credit''"
| "error_to_string (Provider m) = lit ''upstream provider error: '' @ m"

fun public_code :: "app_error \<Rightarrow> str" where
  "public_code (Config _ _) = lit ''configuration_error''"
| "public_code (InvalidConfig _ _) = lit ''invalid_configuration''"
| "public_code (Infrastructure _) = lit ''infrastructure_error''"
| "public_code (Io _) = lit ''io_error''"
| "public_code (NotFound _) = lit ''not_found''"
| "public_code Unauthorized = lit ''unauthorized''"
| "public_code Forbidden = lit ''forbidden''"
| "public_code (LimitExceeded _) = lit ''limit_exceeded''"
| "public_code InsufficientCredit = lit ''insufficient_credit''"
| "public_code (Provider _) = lit ''provider_error''"

record error_envelope =
  env_code :: str
  env_message :: str

definition envelope_of :: "app_error \<Rightarrow> error_envelope" where
  "envelope_of e = \<lparr>env_code = public_code e, env_message = error_to_string e\<rparr>"

type_synonym status = nat

text \<open>\<open>match error { ..., _ => INTERNAL_SERVER_ERROR }\<close>.\<close>

definition from_app_error :: "app_error \<Rightarrow> status \<times> error_envelope" where
  "from_app_error e =
     ((case e of
         InvalidConfig _ _ \<Rightarrow> 400
       | NotFound _ \<Rightarrow> 404
       | Unauthorized \<Rightarrow> 401
       | Forbidden \<Rightarrow> 403
       | Provider _ \<Rightarrow> 502
       | LimitExceeded _ \<Rightarrow> 429
       | InsufficientCredit \<Rightarrow> 402
       | _ \<Rightarrow> 500), envelope_of e)"

fun app_error_status_code :: "app_error \<Rightarrow> status" where
  "app_error_status_code (InvalidConfig _ _) = 400"
| "app_error_status_code (NotFound _) = 404"
| "app_error_status_code Unauthorized = 401"
| "app_error_status_code Forbidden = 403"
| "app_error_status_code (Provider _) = 502"
| "app_error_status_code (LimitExceeded _) = 429"
| "app_error_status_code InsufficientCredit = 402"
| "app_error_status_code (Config _ _) = 500"
| "app_error_status_code (Infrastructure _) = 500"
| "app_error_status_code (Io _) = 500"

text \<open>\<open>map_error(status, error)\<close> of the handlers, and \<open>error_code_from_app_error\<close> of logging.rs.\<close>

definition map_error :: "status \<Rightarrow> app_error \<Rightarrow> status \<times> error_envelope" where
  "map_error st e = (st, envelope_of e)"

definition error_code_from_app_error :: "app_error \<Rightarrow> str" where
  "error_code_from_app_error e = public_code e"

type_synonym 'a http_result = "(status \<times> error_envelope) + 'a"

text \<open>A status in \<open>200..=299\<close>.\<close>

definition is_success_status :: "status \<Rightarrow> bool" where
  "is_success_status st \<longleftrightarrow> 200 \<le> st \<and> st \<le> 299"

lemma error_status_not_success [simp]: "\<not> is_success_status (app_error_status_code e)"
  by (cases e) (auto simp: is_success_status_def)

lemma fst_from_app_error [simp]: "fst (from_app_error e) = app_error_status_code e"
  by (cases e) (simp_all add: from_app_error_def)

lemma snd_from_app_error [simp]: "snd (from_app_error e) = envelope_of e"
  by (simp add: from_app_error_def)

section \<open>Properties\<close>

text \<open>The two functions that map an error to an HTTP status agree on every error, the status
  is never a success, and the envelope carries the public code that the logs carry; errors
  with the same public code have the same status.\<close>

theorem error_status_mappings_agree:
  "fst (from_app_error e) = app_error_status_code e
   \<and> \<not> is_success_status (fst (from_app_error e))
   \<and> env_code (snd (from_app_error e)) = error_code_from_app_error e
   \<and> (public_code e = public_code f \<longrightarrow> app_error_status_code e = app_error_status_code f)"
  by (cases e; cases f)
    (simp_all add: from_app_error_def envelope_of_def error_code_from_app_error_def is_success_status_def)

theorem error_status_mappings_agree_witness:
  "app_error_status_code (LimitExceeded (lit ''a'')) = app_error_status_code (LimitExceeded (lit ''b''))"
  using error_status_mappings_agree [of "LimitExceeded (lit ''a'')" "LimitExceeded (lit ''b'')"]
  by simp

end
