(* ===== verification/Wallet.thy ===== *)
theory Wallet
  imports Prelude
begin

text \<open>
  The charge of a request (crates/mizan-wallet/src/lib.rs over the inputs of
  crates/mizan-metering/src/lib.rs). Token counts are \<open>u64\<close>, prices and charges \<open>i64\<close>; the
  products are computed in \<open>i128\<close>, rounded up to whole microcredits and cast back.
\<close>

record token_usage =
  prompt_tokens :: u64
  completion_tokens :: u64
  total_tokens :: u64
  estimated :: bool

record usage_charge_input =
  ci_prompt_tokens :: u64
  ci_completion_tokens :: u64

definition charge_input_of :: "token_usage \<Rightarrow> usage_charge_input" where
  "charge_input_of u =
     \<lparr>ci_prompt_tokens = prompt_tokens u, ci_completion_tokens = completion_tokens u\<rparr>"

type_synonym microcredits = i64

record route_price =
  input_microcredits_per_1m_tokens :: i64
  output_microcredits_per_1m_tokens :: i64

record usage_charge =
  charge_input :: microcredits
  charge_output :: microcredits
  charge_total :: microcredits

text \<open>Division of \<open>i128\<close> truncates towards zero: \<open>sdiv\<close>.\<close>

definition ceil_div :: "int \<Rightarrow> int \<Rightarrow> int" where
  "ceil_div value divisor = (if value = 0 then 0 else (value + divisor - 1) sdiv divisor)"

definition calculate_usage_charge :: "usage_charge_input \<Rightarrow> route_price \<Rightarrow> usage_charge" where
  "calculate_usage_charge input price =
     (let input_charge = ceil_div
            (uint (ci_prompt_tokens input) * input_microcredits_per_1m_tokens price) 1000000;
          output_charge = ceil_div
            (uint (ci_completion_tokens input) * output_microcredits_per_1m_tokens price) 1000000
      in \<lparr>charge_input = as_i64 input_charge,
          charge_output = as_i64 output_charge,
          charge_total = as_i64 (input_charge + output_charge)\<rparr>)"

text \<open>The price of a route: both components are \<open>i64\<close>; routes only store non-negative ones.\<close>

definition price_i64 :: "route_price \<Rightarrow> bool" where
  "price_i64 p \<longleftrightarrow> in_i64 (input_microcredits_per_1m_tokens p)
     \<and> in_i64 (output_microcredits_per_1m_tokens p)"

definition price_nonneg :: "route_price \<Rightarrow> bool" where
  "price_nonneg p \<longleftrightarrow> 0 \<le> input_microcredits_per_1m_tokens p
     \<and> 0 \<le> output_microcredits_per_1m_tokens p"

text \<open>The charge of the documentation, over unbounded integers.\<close>

definition exact_charge :: "usage_charge_input \<Rightarrow> route_price \<Rightarrow> int" where
  "exact_charge input price =
     ceil_div (uint (ci_prompt_tokens input) * input_microcredits_per_1m_tokens price) 1000000
   + ceil_div (uint (ci_completion_tokens input) * output_microcredits_per_1m_tokens price) 1000000"

lemma ceil_div_nonneg:
  assumes "0 \<le> v" "0 < d"
  shows "ceil_div v d = (v + d - 1) div d"
  using assms by (auto simp: ceil_div_def signed_divide_int_def)

lemma ceil_div_is_ceiling:
  assumes "0 \<le> v" "0 < d"
  shows "v \<le> ceil_div v d * d \<and> (ceil_div v d - 1) * d < v"
proof -
  let ?q = "(v + d - 1) div d"
  have q: "?q * d + (v + d - 1) mod d = v + d - 1" by (rule div_mult_mod_eq)
  have m: "0 \<le> (v + d - 1) mod d" "(v + d - 1) mod d < d" using assms by simp_all
  have "v \<le> ?q * d" using q m by linarith
  moreover have "?q * d - d < v" using q m by linarith
  then have "(?q - 1) * d < v" by (simp add: left_diff_distrib)
  ultimately show ?thesis using ceil_div_nonneg [OF assms] by simp
qed

lemma ceil_div_ge0: "0 \<le> v \<Longrightarrow> 0 < d \<Longrightarrow> 0 \<le> ceil_div v d"
  by (simp add: ceil_div_nonneg pos_imp_zdiv_nonneg_iff)

lemma ceil_div_pos: "0 < v \<Longrightarrow> 0 < d \<Longrightarrow> 0 < ceil_div v d"
  by (simp add: ceil_div_nonneg pos_imp_zdiv_pos_iff)

lemma ceil_div_mono: "0 \<le> v \<Longrightarrow> v \<le> w \<Longrightarrow> 0 < d \<Longrightarrow> ceil_div v d \<le> ceil_div w d"
  by (simp add: ceil_div_nonneg zdiv_mono1)

lemma charge_total_exact:
  "charge_total (calculate_usage_charge input price) = as_i64 (exact_charge input price)"
  by (simp add: calculate_usage_charge_def exact_charge_def Let_def)

lemma in_i64_charge_total [simp]: "in_i64 (charge_total (calculate_usage_charge input price))"
  by (simp add: charge_total_exact)

lemma exact_charge_nonneg: "price_nonneg p \<Longrightarrow> 0 \<le> exact_charge i p"
  by (simp add: exact_charge_def price_nonneg_def ceil_div_ge0)

lemma exact_charge_mono:
  assumes "price_nonneg p"
    and "uint (ci_prompt_tokens i) \<le> uint (ci_prompt_tokens j)"
    and "uint (ci_completion_tokens i) \<le> uint (ci_completion_tokens j)"
  shows "exact_charge i p \<le> exact_charge j p"
  using assms unfolding exact_charge_def price_nonneg_def
  by (intro add_mono ceil_div_mono) (auto intro: mult_right_mono)

lemma tokens_price_bounds:
  assumes "in_i64 p"
  shows "- (2 ^ 127) + 2 ^ 63 \<le> uint (t :: u64) * p \<and> uint t * p \<le> 2 ^ 127 - 2 ^ 64"
proof -
  have t: "0 \<le> uint t" "uint t \<le> 2 ^ 64 - 1" using uint_u64_bound [of t] by auto
  have p: "- (2 ^ 63) \<le> p" "p \<le> 2 ^ 63 - 1" using assms by (auto simp: in_i64_def)
  have "uint t * p \<le> uint t * (2 ^ 63 - 1)" using t p by (intro mult_left_mono) auto
  also have "\<dots> \<le> (2 ^ 64 - 1) * (2 ^ 63 - 1)" using t by (intro mult_right_mono) auto
  finally have up: "uint t * p \<le> 2 ^ 127 - 2 ^ 64" by simp
  have "uint t * (- (2 ^ 63)) \<le> uint t * p" using t p by (intro mult_left_mono) auto
  moreover have "(2 ^ 64 - 1) * (- (2 ^ 63)) \<le> uint t * (- (2 ^ 63))"
    using t by (intro mult_right_mono_neg) auto
  ultimately have "- (2 ^ 127) + 2 ^ 63 \<le> uint t * p" by simp
  with up show ?thesis by simp
qed

section \<open>Properties\<close>

text \<open>C21. Whenever the charge of the documentation fits an \<open>i64\<close>, the computed charge is that
  charge: each part is tokens times price over a million, rounded up to a whole microcredit,
  the total is the sum of the parts, nothing is negative, and more tokens never cost less.\<close>

theorem charge_is_rounded_up:
  assumes "price_nonneg p" "exact_charge j p < 2 ^ 63"
    and "uint (ci_prompt_tokens i) \<le> uint (ci_prompt_tokens j)"
    and "uint (ci_completion_tokens i) \<le> uint (ci_completion_tokens j)"
  shows "let c = calculate_usage_charge i p;
             pin = uint (ci_prompt_tokens i) * input_microcredits_per_1m_tokens p;
             pout = uint (ci_completion_tokens i) * output_microcredits_per_1m_tokens p
         in pin \<le> charge_input c * 1000000 \<and> (charge_input c - 1) * 1000000 < pin
          \<and> pout \<le> charge_output c * 1000000 \<and> (charge_output c - 1) * 1000000 < pout
          \<and> charge_total c = charge_input c + charge_output c
          \<and> 0 \<le> charge_total c
          \<and> charge_total c \<le> charge_total (calculate_usage_charge j p)"
proof -
  define pin where "pin = uint (ci_prompt_tokens i) * input_microcredits_per_1m_tokens p"
  define pout where "pout = uint (ci_completion_tokens i) * output_microcredits_per_1m_tokens p"
  have nn: "0 \<le> pin" "0 \<le> pout"
    using assms(1) by (simp_all add: pin_def pout_def price_nonneg_def)
  have e: "exact_charge i p = ceil_div pin 1000000 + ceil_div pout 1000000"
    by (simp add: exact_charge_def pin_def pout_def)
  have le: "exact_charge i p \<le> exact_charge j p"
    using assms by (intro exact_charge_mono)
  have parts: "0 \<le> ceil_div pin 1000000" "0 \<le> ceil_div pout 1000000"
    using nn by (simp_all add: ceil_div_ge0)
  then have fits: "in_i64 (ceil_div pin 1000000)" "in_i64 (ceil_div pout 1000000)"
    "in_i64 (exact_charge i p)" "in_i64 (exact_charge j p)"
    using assms(2) le e by (auto simp: in_i64_def)
  have c: "calculate_usage_charge i p =
     \<lparr>charge_input = ceil_div pin 1000000, charge_output = ceil_div pout 1000000,
      charge_total = exact_charge i p\<rparr>"
    using fits e
    by (simp add: calculate_usage_charge_def Let_def as_i64_id flip: pin_def pout_def)
  have j: "charge_total (calculate_usage_charge j p) = exact_charge j p"
    using fits by (simp add: charge_total_exact as_i64_id)
  show ?thesis
    using ceil_div_is_ceiling [OF nn(1), of 1000000] ceil_div_is_ceiling [OF nn(2), of 1000000]
      e le parts
    by (simp add: c j Let_def flip: pin_def pout_def)
qed

theorem charge_is_rounded_up_witness:
  "charge_total (calculate_usage_charge \<lparr>ci_prompt_tokens = 3, ci_completion_tokens = 5\<rparr>
      \<lparr>input_microcredits_per_1m_tokens = 150000, output_microcredits_per_1m_tokens = 600000\<rparr>)
    \<ge> 0"
proof -
  let ?i = "\<lparr>ci_prompt_tokens = 3, ci_completion_tokens = 5\<rparr> :: usage_charge_input"
  let ?p = "\<lparr>input_microcredits_per_1m_tokens = 150000,
             output_microcredits_per_1m_tokens = 600000\<rparr> :: route_price"
  have "price_nonneg ?p" by (simp add: price_nonneg_def)
  moreover have "exact_charge ?i ?p < 2 ^ 63"
    by (simp add: exact_charge_def ceil_div_nonneg)
  ultimately show ?thesis
    using charge_is_rounded_up [of ?p ?i ?i] by (simp add: Let_def)
qed

text \<open>The products and sums of the charge never leave \<open>i128\<close>, for any two \<open>i64\<close> prices and
  any token counts, so the arithmetic of \<open>calculate_usage_charge\<close> cannot panic or wrap before
  the final casts.\<close>

theorem charge_stays_in_i128:
  assumes "price_i64 p"
  shows "let pin = uint (ci_prompt_tokens i) * input_microcredits_per_1m_tokens p;
             pout = uint (ci_completion_tokens i) * output_microcredits_per_1m_tokens p
         in in_i128 pin \<and> in_i128 (pin + 1000000 - 1) \<and> in_i128 (ceil_div pin 1000000)
          \<and> in_i128 pout \<and> in_i128 (pout + 1000000 - 1) \<and> in_i128 (ceil_div pout 1000000)
          \<and> in_i128 (ceil_div pin 1000000 + ceil_div pout 1000000)"
proof -
  define pin where "pin = uint (ci_prompt_tokens i) * input_microcredits_per_1m_tokens p"
  define pout where "pout = uint (ci_completion_tokens i) * output_microcredits_per_1m_tokens p"
  have b: "- (2 ^ 127) + 2 ^ 63 \<le> pin \<and> pin \<le> 2 ^ 127 - 2 ^ 64"
    "- (2 ^ 127) + 2 ^ 63 \<le> pout \<and> pout \<le> 2 ^ 127 - 2 ^ 64"
    using assms tokens_price_bounds unfolding pin_def pout_def price_i64_def by blast+
  have q: "- (2 ^ 126) \<le> ceil_div v 1000000 \<and> ceil_div v 1000000 < 2 ^ 126"
    if "- (2 ^ 127) + 2 ^ 63 \<le> v \<and> v \<le> 2 ^ 127 - 2 ^ 64" for v :: int
    using that by (auto simp: ceil_div_def signed_divide_int_def sgn_if) (linarith+)?
  show ?thesis
    using b q [OF b(1)] q [OF b(2)]
    by (simp add: in_i128_def Let_def flip: pin_def pout_def)
qed

theorem charge_stays_in_i128_witness:
  "in_i128 (uint (ci_prompt_tokens \<lparr>ci_prompt_tokens = - 1, ci_completion_tokens = - 1\<rparr>)
     * (2 ^ 63 - 1))"
  using charge_stays_in_i128
    [of "\<lparr>input_microcredits_per_1m_tokens = 2 ^ 63 - 1,
         output_microcredits_per_1m_tokens = 2 ^ 63 - 1\<rparr>"
        "\<lparr>ci_prompt_tokens = - 1, ci_completion_tokens = - 1\<rparr>"]
  by (simp add: price_i64_def in_i64_def Let_def)

end
