(* ===== verification/Redaction.thy ===== *)
theory Redaction
  imports Prelude
begin

text \<open>
  Redaction of secrets before they reach logs and error messages
  (crates/mizan-core/src/redaction.rs). The \<open>index\<close> into the segment of the Rust loop is
  the suffix that is still to be read; everything else is as written there.
\<close>

definition REDACTED :: str where
  "REDACTED = lit ''[REDACTED]''"

definition SENSITIVE_PREFIXES :: "str list" where
  "SENSITIVE_PREFIXES = [lit ''mizan_sk_'', lit ''mizan_sess_'', lit ''sk-'', lit ''Bearer'']"

definition matching_sensitive_prefix :: "str \<Rightarrow> str option" where
  "matching_sensitive_prefix value = find (\<lambda>p. starts_with value p) SENSITIVE_PREFIXES"

text \<open>The characters comma, semicolon, both quotes and the closing brackets.\<close>

definition is_secret_boundary :: "uchar \<Rightarrow> bool" where
  "is_secret_boundary c \<longleftrightarrow> c \<in> set [44, 59, 34, 39, 41, 93, 125]"

function redact_loop :: "str \<Rightarrow> str" where
  "redact_loop [] = []"
| "redact_loop (c # cs) =
     (case matching_sensitive_prefix (c # cs) of
        Some p \<Rightarrow>
          REDACTED @ redact_loop
            (dropWhile (\<lambda>x. \<not> is_secret_boundary x) (drop (length p) (c # cs)))
      | None \<Rightarrow> c # redact_loop cs)"
  by pat_completeness auto
termination
proof (relation "measure length", goal_cases)
  case (3 c cs p)
  then have "p \<in> set SENSITIVE_PREFIXES"
    by (auto simp: matching_sensitive_prefix_def find_Some_iff)
  then have "0 < length p" by (auto simp: SENSITIVE_PREFIXES_def)
  then show ?case
    using length_dropWhile_le [of "\<lambda>x. \<not> is_secret_boundary x" "drop (length p) (c # cs)"]
    by (simp del: length_greater_0_conv)
qed simp_all

definition redact_segment :: "str \<Rightarrow> str" where
  "redact_segment segment = (if segment = [] then [] else redact_loop segment)"

text \<open>The loop over the characters with the buffers \<open>segment\<close> and \<open>redacted\<close>.\<close>

fun redact_chars :: "str \<Rightarrow> str \<Rightarrow> str \<Rightarrow> str" where
  "redact_chars [] segment redacted = redacted @ redact_segment segment"
| "redact_chars (c # cs) segment redacted =
     (if is_whitespace c then redact_chars cs [] (redacted @ redact_segment segment @ [c])
      else redact_chars cs (segment @ [c]) redacted)"

definition redact_for_logs :: "str \<Rightarrow> str" where
  "redact_for_logs value = redact_chars value [] []"

section \<open>Facts about substrings\<close>

lemma starts_with_Cons_iff:
  "starts_with s (a # q) \<longleftrightarrow> (\<exists>t. s = a # t \<and> starts_with t q)"
  by (cases s) (auto simp: starts_with_def)

lemma starts_with_Nil [simp]: "starts_with s []"
  by (simp add: starts_with_def)

lemma str_contains_skip:
  assumes "p \<noteq> []" "hd p \<notin> set u"
  shows "str_contains (u @ t) p \<longleftrightarrow> str_contains t p"
  using assms by (induction u) (auto simp: starts_with_iff append_eq_Cons_conv Cons_eq_append_conv)

lemma starts_with_cut:
  "w \<notin> set p \<Longrightarrow> starts_with (u @ w # v) p \<Longrightarrow> starts_with u p"
proof (induction u arbitrary: p)
  case Nil
  then show ?case by (cases p) (auto simp: starts_with_Cons_iff)
next
  case (Cons a u)
  then show ?case by (cases p) (auto simp: starts_with_Cons_iff)
qed

lemma str_contains_cut:
  "w \<notin> set p \<Longrightarrow> str_contains (u @ w # v) p \<Longrightarrow> str_contains u p \<or> str_contains v p"
proof (induction u)
  case Nil
  then show ?case using starts_with_cut [of w p "[]" v] by (auto simp: starts_with_def)
next
  case (Cons a u)
  then show ?case using starts_with_cut [of w p "a # u" v] by auto
qed

lemma str_contains_left: "str_contains u p \<Longrightarrow> str_contains (u @ v) p"
  by (fastforce simp: str_contains_iff)

lemma str_contains_right: "str_contains v p \<Longrightarrow> str_contains (u @ v) p"
  unfolding str_contains_iff by (metis append.assoc)

section \<open>The prefixes\<close>

lemma prefix_shape:
  assumes "p \<in> set SENSITIVE_PREFIXES"
  shows "p \<noteq> []" "hd p \<notin> set REDACTED" "91 \<notin> set p" "\<forall>w \<in> set p. \<not> is_whitespace w"
    "\<forall>w \<in> set p. \<not> is_secret_boundary w"
  using assms
  by (auto simp: SENSITIVE_PREFIXES_def REDACTED_def lit_def is_whitespace_def is_secret_boundary_def)

lemma matching_None:
  "matching_sensitive_prefix v = None \<longleftrightarrow> (\<forall>p \<in> set SENSITIVE_PREFIXES. \<not> starts_with v p)"
  by (auto simp: matching_sensitive_prefix_def find_None_iff)

text \<open>No prefix starts another, so the match is the prefix that is there.\<close>

lemma matching_prefix:
  assumes "p \<in> set SENSITIVE_PREFIXES"
  shows "matching_sensitive_prefix (p @ r) = Some p"
  using assms
  by (auto simp: matching_sensitive_prefix_def SENSITIVE_PREFIXES_def lit_def starts_with_def)

lemma redact_loop_starts_with:
  "91 \<notin> set q \<Longrightarrow> starts_with (redact_loop s) q \<Longrightarrow> starts_with s q"
proof (induction s arbitrary: q rule: redact_loop.induct)
  case 1
  then show ?case by simp
next
  case (2 c cs)
  show ?case
  proof (cases q)
    case (Cons a q')
    show ?thesis
    proof (cases "matching_sensitive_prefix (c # cs)")
      case None
      then show ?thesis using 2 Cons by (auto simp: starts_with_Cons_iff)
    next
      case (Some p)
      then have "a = 91"
        using 2(4) Cons by (auto simp: starts_with_Cons_iff REDACTED_def lit_def)
      then show ?thesis using 2(3) Cons by simp
    qed
  qed simp
qed

lemma redact_loop_not_start:
  assumes "p \<in> set SENSITIVE_PREFIXES"
  shows "\<not> starts_with (redact_loop s) p"
proof
  assume start: "starts_with (redact_loop s) p"
  then have s: "starts_with s p"
    using redact_loop_starts_with prefix_shape(3) [OF assms] by blast
  then obtain c cs where cs: "s = c # cs"
    using prefix_shape(1) [OF assms] by (cases s) (auto simp: starts_with_def)
  obtain q where "matching_sensitive_prefix s = Some q"
    using s assms matching_None by (cases "matching_sensitive_prefix s") auto
  then have "\<exists>t. redact_loop s = REDACTED @ t" by (auto simp: cs)
  then show False
    using start prefix_shape(1,2) [OF assms]
    by (cases p) (auto simp: starts_with_Cons_iff REDACTED_def lit_def)
qed

lemma redact_loop_clean:
  assumes "p \<in> set SENSITIVE_PREFIXES"
  shows "\<not> str_contains (redact_loop s) p"
proof (induction s rule: redact_loop.induct)
  case 1
  then show ?case using prefix_shape(1) [OF assms] by simp
next
  case (2 c cs)
  show ?case
  proof (cases "matching_sensitive_prefix (c # cs)")
    case None
    then have "redact_loop (c # cs) = c # redact_loop cs" by simp
    then show ?thesis
      using 2(1) [OF None] redact_loop_not_start [OF assms, of "c # cs"] by simp
  next
    case (Some q)
    then show ?thesis
      using 2(2) [OF Some] str_contains_skip [OF prefix_shape(1,2) [OF assms]] by simp
  qed
qed

lemma redact_segment_clean:
  "p \<in> set SENSITIVE_PREFIXES \<Longrightarrow> \<not> str_contains (redact_segment s) p"
  using redact_loop_clean prefix_shape(1) by (auto simp: redact_segment_def)

text \<open>Appending a redacted segment to text that ends in white space stays clean.\<close>

lemma flush_clean:
  assumes p: "p \<in> set SENSITIVE_PREFIXES"
    and red: "red = [] \<or> is_whitespace (last red)" "\<not> str_contains red p"
  shows "\<not> str_contains (red @ redact_segment seg) p"
proof (cases "red = []")
  case True
  then show ?thesis using redact_segment_clean [OF p] by simp
next
  case False
  then obtain r w where r: "red = r @ [w]" by (metis rev_exhaust)
  with red False have "w \<notin> set p" using prefix_shape(4) [OF p] by auto
  then have "\<not> str_contains (r @ w # redact_segment seg) p"
    using str_contains_cut [of w p r] redact_segment_clean [OF p] red r
      str_contains_left [of r p "[w]"] by auto
  then show ?thesis by (simp add: r)
qed

lemma redact_chars_clean:
  assumes p: "p \<in> set SENSITIVE_PREFIXES"
  shows "red = [] \<or> is_whitespace (last red) \<Longrightarrow> \<not> str_contains red p
    \<Longrightarrow> \<not> str_contains (redact_chars cs seg red) p"
proof (induction cs arbitrary: seg red)
  case Nil
  then show ?case using flush_clean [OF p] by simp
next
  case (Cons c cs)
  show ?case
  proof (cases "is_whitespace c")
    case True
    then have c: "c \<notin> set p" using prefix_shape(4) [OF p] by auto
    have "\<not> str_contains (red @ redact_segment seg @ [c]) p"
      using str_contains_cut [OF c, of "red @ redact_segment seg" "[]"] prefix_shape(1) [OF p]
        flush_clean [OF p Cons.prems] by auto
    then show ?thesis using Cons.IH [of "red @ redact_segment seg @ [c]" "[]"] True by simp
  next
    case False
    then show ?thesis using Cons by simp
  qed
qed

text \<open>A text without a sensitive prefix is left as it is.\<close>

lemma redact_loop_id:
  "\<forall>p \<in> set SENSITIVE_PREFIXES. \<not> str_contains s p \<Longrightarrow> redact_loop s = s"
proof (induction s)
  case (Cons c cs)
  then have "matching_sensitive_prefix (c # cs) = None" by (auto simp: matching_None)
  then show ?case using Cons by auto
qed simp

lemma redact_chars_id:
  "\<forall>p \<in> set SENSITIVE_PREFIXES. \<not> str_contains (seg @ cs) p
    \<Longrightarrow> redact_chars cs seg red = red @ seg @ cs"
proof (induction cs arbitrary: seg red)
  case Nil
  then show ?case by (auto simp: redact_segment_def redact_loop_id)
next
  case (Cons c cs)
  have seg: "\<forall>p \<in> set SENSITIVE_PREFIXES. \<not> str_contains seg p"
    using Cons.prems str_contains_left by blast
  have "\<forall>p \<in> set SENSITIVE_PREFIXES. \<not> str_contains cs p"
    using Cons.prems str_contains_right [of cs _ "seg @ [c]"] by auto
  then show ?case
    using Cons.IH [of "[]"] Cons.IH [of "seg @ [c]"] Cons.prems redact_loop_id [OF seg]
    by (auto simp: redact_segment_def)
qed

lemma redact_chars_acc: "redact_chars cs seg red = red @ redact_chars cs seg []"
proof (induction cs arbitrary: seg red)
  case (Cons c cs)
  show ?case
    using Cons [of "[]" "red @ redact_segment seg @ [c]"] Cons [of "[]" "redact_segment seg @ [c]"]
      Cons [of "seg @ [c]" red]
    by simp
qed simp

lemma redact_chars_word:
  "\<forall>c \<in> set u. \<not> is_whitespace c \<Longrightarrow> redact_chars (u @ v) seg red = redact_chars v (seg @ u) red"
  by (induction u arbitrary: seg) auto

lemma redact_for_logs_word:
  assumes "\<forall>c \<in> set u. \<not> is_whitespace c" "is_whitespace w"
  shows "redact_for_logs (u @ w # v) = redact_segment u @ w # redact_for_logs v"
  using redact_chars_acc [of v "[]" "redact_segment u @ [w]"] assms
  by (simp add: redact_for_logs_def redact_chars_word)

section \<open>Properties\<close>



text \<open>A bearer token in its usual form, the scheme, one space and an opaque token, is not
  redacted: the scheme is replaced and the token itself stays, as the text that follows does.\<close>

theorem redact_bearer_keeps_token:
  "redact_for_logs (lit ''Bearer '' @ t) = lit ''[REDACTED] '' @ redact_for_logs t"
proof -
  have "redact_segment (lit ''Bearer'') = REDACTED"
    using matching_prefix [of "lit ''Bearer''" "[]"]
    by (simp add: redact_segment_def SENSITIVE_PREFIXES_def lit_def)
  moreover have "lit ''Bearer '' @ t = lit ''Bearer'' @ 32 # t"
    "lit ''[REDACTED] '' = REDACTED @ [32]"
    by (simp_all add: lit_def REDACTED_def)
  moreover have "\<forall>c \<in> set (lit ''Bearer''). \<not> is_whitespace c" "is_whitespace 32"
    by (simp_all add: lit_def is_whitespace_def)
  ultimately show ?thesis using redact_for_logs_word [of "lit ''Bearer''" 32 t] by simp
qed

end
