(* ===== verification/Rtk_Filter.thy ===== *)
theory Rtk_Filter
  imports Prelude
begin

text \<open>
  Output filtering of the command-line proxy (crates/mizan-rtk/src/filter.rs): a text that
  exceeds the policy keeps its head and tail around a marker. A \<open>char\<close> of the Rust code is
  an element of the list; the two loops that shrink the retained parts are recursive
  functions on the pair of lengths.
\<close>

record filter_policy =
  max_output_chars :: nat
  retained_head_chars :: nat
  retained_tail_chars :: nat

definition default_policy :: filter_policy where
  "default_policy =
     \<lparr>max_output_chars = 4000, retained_head_chars = 1500, retained_tail_chars = 800\<rparr>"

record rtk_filter_result =
  original_chars :: nat
  output_chars :: nat
  body :: str
  filtered :: bool

definition passthrough_filter :: "str \<Rightarrow> rtk_filter_result" where
  "passthrough_filter output =
     \<lparr>original_chars = length output, output_chars = length output, body = output,
      filtered = False\<rparr>"

definition truncation_marker :: "nat \<Rightarrow> nat \<Rightarrow> str" where
  "truncation_marker head_chars tail_chars =
     [10, 10] @ lit ''[output truncated by mizan-rtk: '' @ show_nat head_chars
     @ lit '' chars retained from head and '' @ show_nat tail_chars @ lit '' from tail]'' @ [10]"

definition truncate_middle :: "str \<Rightarrow> nat \<Rightarrow> nat \<Rightarrow> str \<times> str" where
  "truncate_middle chars head_chars tail_chars =
     (let h = min head_chars (length chars);
          t = min tail_chars (length chars - h)
      in (take h chars, drop (length chars - t) chars))"

text \<open>\<open>while retained_head + retained_tail > max\<close>.\<close>

function cap_retained :: "nat \<Rightarrow> nat \<Rightarrow> nat \<Rightarrow> nat \<times> nat" where
  "cap_retained mx h t =
     (if h + t > mx then
        if t > 0 then cap_retained mx h (t - 1)
        else if h > 0 then cap_retained mx (h - 1) t
        else (h, t)
      else (h, t))"
  by pat_completeness auto
termination by (relation "measure (\<lambda>(mx, h, t). h + t)") auto

text \<open>The second loop: shrink until the marker fits as well.\<close>

function fit_marker :: "nat \<Rightarrow> nat \<Rightarrow> nat \<Rightarrow> nat \<times> nat" where
  "fit_marker mx h t =
     (if h + t + length (truncation_marker h t) \<le> mx then (h, t)
      else if t > 0 then fit_marker mx h (t - 1)
      else if h > 0 then fit_marker mx (h - 1) t
      else (h, t))"
  by pat_completeness auto
termination by (relation "measure (\<lambda>(mx, h, t). h + t)") auto

declare cap_retained.simps [simp del] fit_marker.simps [simp del]

definition filter_output :: "str \<Rightarrow> filter_policy \<Rightarrow> rtk_filter_result" where
  "filter_output output policy =
     (let body_len = length output; mx = max_output_chars policy in
      if body_len \<le> mx then
        \<lparr>original_chars = body_len, output_chars = body_len, body = output, filtered = False\<rparr>
      else
        let h0 = min (retained_head_chars policy) body_len;
            t0 = min (retained_tail_chars policy) (body_len - h0);
            (h1, t1) = cap_retained mx h0 t0;
            (h, t) = fit_marker mx h1 t1;
            truncated = truncate_middle output h t;
            whole = fst truncated @ truncation_marker h t @ snd truncated;
            shown = (if length whole > mx then take mx whole else whole)
        in \<lparr>original_chars = body_len, output_chars = length shown, body = shown,
            filtered = True\<rparr>)"

section \<open>The loops\<close>

lemma cap_retained_le:
  "cap_retained mx h t = (h', t') \<Longrightarrow> h' \<le> h \<and> t' \<le> t \<and> h' + t' \<le> mx"
proof (induction mx h t rule: cap_retained.induct)
  case (1 mx h t)
  from 1(3) show ?case
    by (subst (asm) cap_retained.simps) (use 1(1,2) in \<open>force split: if_splits\<close>)
qed

lemma fit_marker_le:
  "fit_marker mx h t = (h', t') \<Longrightarrow> h' \<le> h \<and> t' \<le> t \<and>
     (h' + t' + length (truncation_marker h' t') \<le> mx \<or> h' = 0 \<and> t' = 0)"
proof (induction mx h t rule: fit_marker.induct)
  case (1 mx h t)
  from 1(3) show ?case
    by (subst (asm) fit_marker.simps) (use 1(1,2) in \<open>force split: if_splits\<close>)
qed

text \<open>The head is only cut once nothing of the tail is left.\<close>

lemma fit_marker_tail_first:
  "fit_marker mx h t = (h', t') \<Longrightarrow> 0 < t' \<Longrightarrow> h' = h"
proof (induction mx h t rule: fit_marker.induct)
  case (1 mx h t)
  from 1(3,4) show ?case
    by (subst (asm) fit_marker.simps)
      (use 1(1,2) fit_marker_le in \<open>force split: if_splits\<close>)
qed

lemma truncate_middle_eq:
  "h + t \<le> length s \<Longrightarrow> truncate_middle s h t = (take h s, drop (length s - t) s)"
  by (simp add: truncate_middle_def Let_def)

lemma filter_output_long:
  assumes "max_output_chars policy < length output"
  obtains h t where
    "h \<le> retained_head_chars policy" "t \<le> retained_tail_chars policy" "h + t \<le> length output"
    "h + t + length (truncation_marker h t) \<le> max_output_chars policy \<or> h = 0 \<and> t = 0"
    "body (filter_output output policy) =
       take (max_output_chars policy)
         (take h output @ truncation_marker h t @ drop (length output - t) output)"
proof -
  define h0 where "h0 = min (retained_head_chars policy) (length output)"
  define t0 where "t0 = min (retained_tail_chars policy) (length output - h0)"
  obtain h1 t1 where c: "cap_retained (max_output_chars policy) h0 t0 = (h1, t1)"
    by (cases "cap_retained (max_output_chars policy) h0 t0")
  obtain h t where f: "fit_marker (max_output_chars policy) h1 t1 = (h, t)"
    by (cases "fit_marker (max_output_chars policy) h1 t1")
  note le = cap_retained_le [OF c] fit_marker_le [OF f]
  have hl: "h \<le> retained_head_chars policy" and tl: "t \<le> retained_tail_chars policy"
    and sum: "h + t \<le> length output"
    using le by (auto simp: h0_def t0_def)
  have "body (filter_output output policy) =
     take (max_output_chars policy)
       (take h output @ truncation_marker h t @ drop (length output - t) output)"
    using assms c f truncate_middle_eq [OF sum]
    by (simp add: filter_output_def Let_def flip: h0_def t0_def)
  then show ?thesis using that hl tl sum le by blast
qed

section \<open>Properties\<close>

text \<open>C40. The filter never shows more characters than the policy allows and reports the counts
  truthfully; it leaves a text that fits untouched; and a longer text becomes a head and a tail
  of the original around a marker that names exactly how much of each was kept, as long as the
  policy leaves room for the marker.\<close>

theorem filter_output_contract:
  "let r = filter_output output policy; mx = max_output_chars policy in
     length (body r) \<le> mx \<and> output_chars r = length (body r) \<and> original_chars r = length output
   \<and> (filtered r \<longleftrightarrow> mx < length output)
   \<and> (\<not> filtered r \<longrightarrow> body r = output)
   \<and> (filtered r \<and> length (truncation_marker 0 0) \<le> mx \<longrightarrow>
        (\<exists>h t. h \<le> retained_head_chars policy \<and> t \<le> retained_tail_chars policy
           \<and> h + t \<le> length output
           \<and> body r = take h output @ truncation_marker h t @ drop (length output - t) output))"
proof (cases "max_output_chars policy < length output")
  case False
  then show ?thesis by (simp add: filter_output_def Let_def)
next
  case True
  then obtain h t where ht:
    "h \<le> retained_head_chars policy" "t \<le> retained_tail_chars policy" "h + t \<le> length output"
    "h + t + length (truncation_marker h t) \<le> max_output_chars policy \<or> h = 0 \<and> t = 0"
    and b: "body (filter_output output policy) = take (max_output_chars policy)
         (take h output @ truncation_marker h t @ drop (length output - t) output)"
    by (rule filter_output_long)
  have counts: "output_chars (filter_output output policy)
      = length (body (filter_output output policy))"
    "original_chars (filter_output output policy) = length output"
    "filtered (filter_output output policy)"
    using True by (auto simp: filter_output_def Let_def split: prod.splits)
  have "body (filter_output output policy)
      = take h output @ truncation_marker h t @ drop (length output - t) output"
    if "length (truncation_marker 0 0) \<le> max_output_chars policy"
    using b ht that by auto
  then show ?thesis using counts True ht b by (auto simp: Let_def)
qed

theorem filter_output_contract_witness:
  "length (body (filter_output (lit ''abc'') \<lparr>max_output_chars = 2, retained_head_chars = 1,
     retained_tail_chars = 1\<rparr>)) \<le> 2"
  using filter_output_contract [of "lit ''abc''" "\<lparr>max_output_chars = 2, retained_head_chars = 1,
     retained_tail_chars = 1\<rparr>"]
  by (simp add: Let_def)

end
