(* ===== verification/Sql_Params.thy ===== *)
theory Sql_Params
  imports Prelude
begin

text \<open>
  Placeholder rewriting of SQL statements (\<open>prepare_sql\<close> and \<open>to_dollar_params\<close> of
  crates/mizan-api/src/utils.rs, \<open>DatabaseBackend\<close> of crates/mizan-core/src/database.rs).
  The four mutable flags and the parameter index of the Rust loop are arguments of
  \<open>to_dollar_loop\<close>; the peekable iterator is the rest of the text. The reference lexer
  below has one mode instead of four flags.

  The scalars are: 10 line feed, 34 double quote, 36 dollar, 39 single quote, 42 star, 45 minus,
  47 slash, 63 question mark.
\<close>

datatype database_backend = Sqlite | Postgres

function to_dollar_loop :: "bool \<Rightarrow> bool \<Rightarrow> bool \<Rightarrow> bool \<Rightarrow> nat \<Rightarrow> str \<Rightarrow> str" where
  "to_dollar_loop sq dq lc bc i [] = []"
| "to_dollar_loop sq dq lc bc i (c # cs) =
     (if lc then
        c # to_dollar_loop sq dq (if c = 10 then False else lc) bc i cs
      else if bc then
        (if c = 42 \<and> starts_with cs [47] then c # 47 # to_dollar_loop sq dq lc False i (tl cs)
         else c # to_dollar_loop sq dq lc bc i cs)
      else if sq then
        (if c = 39 then
           (if starts_with cs [39] then c # 39 # to_dollar_loop sq dq lc bc i (tl cs)
            else c # to_dollar_loop False dq lc bc i cs)
         else c # to_dollar_loop sq dq lc bc i cs)
      else if dq then
        (if c = 34 then
           (if starts_with cs [34] then c # 34 # to_dollar_loop sq dq lc bc i (tl cs)
            else c # to_dollar_loop sq False lc bc i cs)
         else c # to_dollar_loop sq dq lc bc i cs)
      else if c = 45 \<and> starts_with cs [45] then
        c # 45 # to_dollar_loop sq dq True bc i (tl cs)
      else if c = 47 \<and> starts_with cs [42] then
        c # 42 # to_dollar_loop sq dq lc True i (tl cs)
      else if c = 39 then c # to_dollar_loop True dq lc bc i cs
      else if c = 34 then c # to_dollar_loop sq True lc bc i cs
      else if c = 63 then
        36 # show_nat (i + 1) @ to_dollar_loop sq dq lc bc (i + 1) cs
      else c # to_dollar_loop sq dq lc bc i cs)"
  by pat_completeness auto
termination by (relation "measure (\<lambda>(sq, dq, lc, bc, i, s). length s)") auto

definition to_dollar_params :: "str \<Rightarrow> str" where
  "to_dollar_params query = to_dollar_loop False False False False 0 query"

fun prepare_sql :: "database_backend \<Rightarrow> str \<Rightarrow> str" where
  "prepare_sql Sqlite query = query"
| "prepare_sql Postgres query = to_dollar_params query"

section \<open>Reference lexer\<close>

datatype lex_mode = Code | SingleQuoted | DoubleQuoted | LineComment | BlockComment

text \<open>Each scalar with a mark that says whether it is a placeholder.\<close>

fun lex :: "lex_mode \<Rightarrow> str \<Rightarrow> (uchar \<times> bool) list" where
  "lex m [] = []"
| "lex LineComment (c # cs) = (c, False) # lex (if c = 10 then Code else LineComment) cs"
| "lex m [c] = [(c, m = Code \<and> c = 63)]"
| "lex BlockComment (c # d # cs) =
     (if c = 42 \<and> d = 47 then (c, False) # (d, False) # lex Code cs
      else (c, False) # lex BlockComment (d # cs))"
| "lex SingleQuoted (c # d # cs) =
     (if c \<noteq> 39 then (c, False) # lex SingleQuoted (d # cs)
      else if d = 39 then (c, False) # (d, False) # lex SingleQuoted cs
      else (c, False) # lex Code (d # cs))"
| "lex DoubleQuoted (c # d # cs) =
     (if c \<noteq> 34 then (c, False) # lex DoubleQuoted (d # cs)
      else if d = 34 then (c, False) # (d, False) # lex DoubleQuoted cs
      else (c, False) # lex Code (d # cs))"
| "lex Code (c # d # cs) =
     (if c = 45 \<and> d = 45 then (c, False) # (d, False) # lex LineComment cs
      else if c = 47 \<and> d = 42 then (c, False) # (d, False) # lex BlockComment cs
      else (c, c = 63) # lex (if c = 39 then SingleQuoted else if c = 34 then DoubleQuoted
                              else Code) (d # cs))"

text \<open>Replace the \<open>n\<close>-th marked scalar by the text of \<open>n\<close> after a dollar.\<close>

fun number :: "nat \<Rightarrow> (uchar \<times> bool) list \<Rightarrow> str" where
  "number n [] = []"
| "number n ((c, active) # xs) =
     (if active then 36 # show_nat n @ number (Suc n) xs else c # number n xs)"

fun flags_of :: "lex_mode \<Rightarrow> bool \<times> bool \<times> bool \<times> bool" where
  "flags_of Code = (False, False, False, False)"
| "flags_of SingleQuoted = (True, False, False, False)"
| "flags_of DoubleQuoted = (False, True, False, False)"
| "flags_of LineComment = (False, False, True, False)"
| "flags_of BlockComment = (False, False, False, True)"

lemma map_fst_lex [simp]: "map fst (lex m q) = q"
  by (induction m q rule: lex.induct) auto

lemma lex_marks: "(c, True) \<in> set (lex m q) \<Longrightarrow> c = 63"
  by (induction m q rule: lex.induct) (auto split: if_splits)

lemma starts_with_one: "starts_with (d # cs) [x] \<longleftrightarrow> d = x" "\<not> starts_with [] [x]"
  by (simp_all add: starts_with_def)

declare to_dollar_loop.simps(2) [simp del]

lemma loop_LineComment:
  "to_dollar_loop False False True False i (c # cs)
     = c # to_dollar_loop False False (c \<noteq> 10) False i cs"
  by (simp add: to_dollar_loop.simps)

lemma loop_BlockComment:
  "to_dollar_loop False False False True i (c # cs) =
     (if c = 42 \<and> starts_with cs [47] then c # 47 # to_dollar_loop False False False False i (tl cs)
      else c # to_dollar_loop False False False True i cs)"
  by (subst to_dollar_loop.simps) simp

lemma loop_SingleQuoted:
  "to_dollar_loop True False False False i (c # cs) =
     (if c \<noteq> 39 then c # to_dollar_loop True False False False i cs
      else if starts_with cs [39] then c # 39 # to_dollar_loop True False False False i (tl cs)
      else c # to_dollar_loop False False False False i cs)"
  by (subst to_dollar_loop.simps) simp

lemma loop_DoubleQuoted:
  "to_dollar_loop False True False False i (c # cs) =
     (if c \<noteq> 34 then c # to_dollar_loop False True False False i cs
      else if starts_with cs [34] then c # 34 # to_dollar_loop False True False False i (tl cs)
      else c # to_dollar_loop False False False False i cs)"
  by (subst to_dollar_loop.simps) simp

lemma loop_Code:
  "to_dollar_loop False False False False i (c # cs) =
     (if c = 45 \<and> starts_with cs [45] then
        c # 45 # to_dollar_loop False False True False i (tl cs)
      else if c = 47 \<and> starts_with cs [42] then
        c # 42 # to_dollar_loop False False False True i (tl cs)
      else if c = 63 then
        36 # show_nat (i + 1) @ to_dollar_loop False False False False (i + 1) cs
      else c # to_dollar_loop (c = 39) (c = 34) False False i cs)"
  by (subst to_dollar_loop.simps) auto

lemmas loop_modes = loop_LineComment loop_BlockComment loop_SingleQuoted loop_DoubleQuoted loop_Code

text \<open>The four flags of the loop are one mode of the lexer, and the loop numbers its marks.\<close>

fun loop_in_mode :: "lex_mode \<Rightarrow> nat \<Rightarrow> str \<Rightarrow> str" where
  "loop_in_mode m i q = (case flags_of m of (sq, dq, lc, bc) \<Rightarrow> to_dollar_loop sq dq lc bc i q)"

lemma to_dollar_refines: "loop_in_mode m i q = number (Suc i) (lex m q)"
proof (induction m q arbitrary: i rule: lex.induct)
  case (2 c cs)
  then show ?case by (cases "c = 10") (simp_all add: loop_modes)
next
  case (7 c d cs)
  consider "c = 45 \<and> d = 45" | "c = 47 \<and> d = 42" | "c = 63" | "c = 39" | "c = 34"
    | "\<not> (c = 45 \<and> d = 45)" "\<not> (c = 47 \<and> d = 42)" "c \<noteq> 63" "c \<noteq> 39" "c \<noteq> 34" by blast
  then show ?case
  proof cases
    case 6
    then show ?thesis using 7 by (auto simp: loop_Code [of _ c] starts_with_one)
  qed (use 7 in \<open>simp_all add: loop_modes starts_with_one\<close>)
next
  case (4 c d cs)
  then show ?case by (cases "c = 42 \<and> d = 47") (auto simp: loop_BlockComment starts_with_one)
qed (simp_all add: loop_modes starts_with_one)

lemma to_dollar_lex: "to_dollar_params q = number 1 (lex Code q)"
  using to_dollar_refines [of Code 0 q] by (simp add: to_dollar_params_def)

section \<open>Statements without quotes and comments\<close>

definition plain_sql :: "str \<Rightarrow> bool" where
  "plain_sql q \<longleftrightarrow> 39 \<notin> set q \<and> 34 \<notin> set q
     \<and> \<not> str_contains q [45, 45] \<and> \<not> str_contains q [47, 42]"

lemma lex_plain: "plain_sql q \<Longrightarrow> lex Code q = map (\<lambda>c. (c, c = 63)) q"
proof (induction q rule: induct_list012)
  case (3 c d cs)
  then show ?case by (auto simp: plain_sql_def starts_with_def)
qed (simp_all add: plain_sql_def)

section \<open>Properties\<close>

text \<open>C38. For Postgres, the placeholders of a statement are numbered from 1 in their order,
  whatever the statement: the flag-driven loop is the numbering of the marks a SQL lexer with
  one mode sets, and only a question mark of the code, never one of a quoted text or a comment,
  carries a mark. SQLite gets the statement as it is.\<close>

theorem prepare_sql_numbers_placeholders:
  "prepare_sql Postgres q = number 1 (lex Code q)
   \<and> map fst (lex Code q) = q
   \<and> (\<forall>(c, active) \<in> set (lex Code q). active \<longrightarrow> c = 63)
   \<and> (plain_sql q \<longrightarrow> prepare_sql Postgres q = number 1 (map (\<lambda>c. (c, c = 63)) q))
   \<and> prepare_sql Sqlite q = q"
proof (intro conjI impI)
  show "\<forall>(c, active) \<in> set (lex Code q). active \<longrightarrow> c = 63"
    using lex_marks [of _ Code q] by auto
  show "prepare_sql Postgres q = number 1 (map (\<lambda>c. (c, c = 63)) q)" if "plain_sql q"
    by (simp only: prepare_sql.simps to_dollar_lex lex_plain [OF that])
qed (simp_all only: prepare_sql.simps to_dollar_lex map_fst_lex)

theorem prepare_sql_numbers_placeholders_witness:
  "prepare_sql Postgres (lit ''a = ? AND b = ?'')
     = number 1 (map (\<lambda>c. (c, c = 63)) (lit ''a = ? AND b = ?''))"
proof -
  have "plain_sql (lit ''a = ? AND b = ?'')"
    by code_simp
  then show ?thesis
    by (rule prepare_sql_numbers_placeholders
        [THEN conjunct2, THEN conjunct2, THEN conjunct2, THEN conjunct1, THEN mp])
qed

end
