(* ===== verification/Database.thy ===== *)
theory Database
  imports Core_Error Sql_Params
begin

text \<open>
  The tables of the migrations, as the API crate reads and writes them, and the effects of a
  request: SQL statements, transactions, the clock and fresh identifiers.

  A \<open>Uuid\<close> is the text it displays as; \<open>parse_uuid\<close> of the world stands for
  \<open>Uuid::parse_str\<close>. A table is the list of its rows in insertion order, a \<open>TEXT\<close> column a
  \<open>str\<close>, an \<open>INTEGER\<close> column an \<open>i64\<close>. A statement is a function on the tables; a result
  \<open>None\<close> is a violated uniqueness constraint. Every statement may fail instead (\<open>fault\<close>, the
  text of the driver), and every transaction works on a copy that only a commit makes visible:
  dropping the transaction is a rollback. The world also holds what the outside answers: the
  clock, the identifiers and the faults, one per \<open>tick\<close>.
\<close>

type_synonym uuid = str

section \<open>Rows\<close>

record user_row =
  u_id :: str
  u_email :: str
  u_password_hash :: str
  u_role :: str
  u_created_at :: str
  u_updated_at :: str

record session_row =
  s_id :: str
  s_user_id :: str
  s_token_hash :: str
  s_expires_at :: "str option"
  s_revoked :: i64
  s_created_at :: str
  s_updated_at :: str

record api_key_row =
  k_id :: str
  k_user_id :: str
  k_key_hash :: str
  k_label :: "str option"
  k_revoked :: i64
  k_created_at :: str
  k_updated_at :: str

record provider_connection_row =
  pc_id :: str
  pc_name :: str
  pc_provider_type :: str
  pc_base_url :: str
  pc_api_key_encrypted :: str
  pc_auth_mode :: str
  pc_auth_config_json :: "str option"
  pc_enabled :: i64
  pc_created_at :: str
  pc_updated_at :: str

record model_route_row =
  mr_id :: str
  mr_provider_connection_id :: str
  mr_public_model :: str
  mr_upstream_model :: str
  mr_max_tokens :: "i64 option"
  mr_pricing_input :: i64
  mr_pricing_output :: i64
  mr_enabled :: i64
  mr_created_at :: str
  mr_updated_at :: str

record wallet_row =
  w_id :: str
  w_owner_user_id :: str
  w_balance :: i64
  w_created_at :: str
  w_updated_at :: str

record ledger_row =
  l_id :: str
  l_wallet_id :: str
  l_request_id :: "str option"
  l_delta :: i64
  l_balance_after :: i64
  l_reason :: str
  l_created_at :: str

record usage_row =
  ue_id :: str
  ue_request_id :: str
  ue_user_id :: "str option"
  ue_api_key_id :: "str option"
  ue_provider_id :: "str option"
  ue_route_id :: "str option"
  ue_daemon_node_id :: "str option"
  ue_model :: str
  ue_prompt_tokens :: i64
  ue_completion_tokens :: i64
  ue_total_tokens :: i64
  ue_estimated :: i64
  ue_status_code :: i64
  ue_latency_ms :: i64
  ue_created_at :: str

record audit_row =
  a_id :: str
  a_actor_user_id :: "str option"
  a_action :: str
  a_entity_type :: str
  a_entity_id :: "str option"
  a_payload_json :: "str option"
  a_created_at :: str

record request_log_row =
  rl_id :: str
  rl_request_id :: str
  rl_user_id :: "str option"
  rl_api_key_id :: "str option"
  rl_provider_id :: "str option"
  rl_route_id :: "str option"
  rl_daemon_node_id :: "str option"
  rl_method :: str
  rl_path :: str
  rl_route :: "str option"
  rl_provider :: "str option"
  rl_status_code :: i64
  rl_latency_ms :: i64
  rl_error_code :: "str option"
  rl_created_at :: str

record daemon_node_row =
  dn_id :: str
  dn_host_user_id :: "str option"
  dn_label :: "str option"
  dn_hostname :: "str option"
  dn_public_key :: "str option"
  dn_token_hash :: str
  dn_status :: str
  dn_revoked :: i64
  dn_disabled :: i64
  dn_last_seen_at :: "str option"
  dn_provider_family :: "str option"
  dn_model_ids_json :: str
  dn_max_concurrency :: "i64 option"
  dn_pricing_metadata_json :: "str option"
  dn_region :: "str option"
  dn_labels_json :: str
  dn_health_status :: "str option"
  dn_capability_metadata_json :: "str option"
  dn_created_at :: str
  dn_updated_at :: str

record dispatch_job_row =
  dj_id :: str
  dj_request_id :: str
  dj_node_id :: str
  dj_user_id :: "str option"
  dj_api_key_id :: "str option"
  dj_model :: str
  dj_status :: str
  dj_request_json :: str
  dj_response_json :: "str option"
  dj_error_code :: "str option"
  dj_error_message :: "str option"
  dj_leased_at :: "str option"
  dj_completed_at :: "str option"
  dj_deadline_at :: str
  dj_created_at :: str
  dj_updated_at :: str

record database =
  users :: "user_row list"
  sessions :: "session_row list"
  api_keys :: "api_key_row list"
  provider_connections :: "provider_connection_row list"
  model_routes :: "model_route_row list"
  wallets :: "wallet_row list"
  credit_ledger :: "ledger_row list"
  usage_events :: "usage_row list"
  admin_audit_logs :: "audit_row list"
  request_logs :: "request_log_row list"
  daemon_nodes :: "daemon_node_row list"
  dispatch_jobs :: "dispatch_job_row list"

definition empty_database :: database where
  "empty_database = \<lparr>users = [], sessions = [], api_keys = [], provider_connections = [],
     model_routes = [], wallets = [], credit_ledger = [], usage_events = [],
     admin_audit_logs = [], request_logs = [], daemon_nodes = [], dispatch_jobs = []\<rparr>"

section \<open>The world and its operations\<close>

text \<open>A value of \<open>serde_json\<close>; its serialisation is one of the answers of the outside.\<close>

datatype json =
    JNull
  | JBool bool
  | JInt int
  | JString str
  | JArray "json list"
  | JObject "(str \<times> json) list"

record outside =
  fault :: "nat \<Rightarrow> str option"
  clock :: "nat \<Rightarrow> nat"
  fresh :: "nat \<Rightarrow> uuid"
  parse_uuid :: "str \<Rightarrow> str + uuid"
  unique_violation :: str
  json_to_string :: "json \<Rightarrow> str option"
  lowercase :: "str \<Rightarrow> str"

record world =
  db :: database
  tx :: database
  tick :: nat
  env :: outside

type_synonym 'a op = "world \<Rightarrow> (app_error + 'a) \<times> world"
type_synonym 'a driver_op = "world \<Rightarrow> (str + 'a) \<times> world"
type_synonym 'a stmt = "database \<Rightarrow> (database \<times> 'a) option"

definition ret :: "'a \<Rightarrow> 's \<Rightarrow> ('e + 'a) \<times> 's" where
  "ret a s = (Inr a, s)"

definition throw :: "'e \<Rightarrow> 's \<Rightarrow> ('e + 'a) \<times> 's" where
  "throw e s = (Inl e, s)"

text \<open>A value of \<open>Result\<close> followed by the operator \<open>?\<close>.\<close>

definition of_result :: "'e + 'a \<Rightarrow> 's \<Rightarrow> ('e + 'a) \<times> 's" where
  "of_result r s = (r, s)"

definition bind_op ::
  "('s \<Rightarrow> ('e + 'a) \<times> 's) \<Rightarrow> ('a \<Rightarrow> 's \<Rightarrow> ('e + 'b) \<times> 's) \<Rightarrow> 's \<Rightarrow> ('e + 'b) \<times> 's" where
  "bind_op m k s = (case m s of (Inl e, s') \<Rightarrow> (Inl e, s') | (Inr a, s') \<Rightarrow> k a s')"

definition err_op :: "('e \<Rightarrow> 'f) \<Rightarrow> ('s \<Rightarrow> ('e + 'a) \<times> 's) \<Rightarrow> 's \<Rightarrow> ('f + 'a) \<times> 's" where
  "err_op f m s = (case m s of (r, s') \<Rightarrow> (map_err f r, s'))"

text \<open>Keep the result instead of returning it: \<open>match m { ... }\<close> or \<open>let _ = m\<close>.\<close>

definition try_op :: "('s \<Rightarrow> ('e + 'a) \<times> 's) \<Rightarrow> 's \<Rightarrow> ('f + ('e + 'a)) \<times> 's" where
  "try_op m s = (case m s of (r, s') \<Rightarrow> (Inr r, s'))"

text \<open>\<open>AppError::infrastructure(format!("<prefix>{error}"))\<close>.\<close>

definition infra :: "string \<Rightarrow> str \<Rightarrow> app_error" where
  "infra pre e = Infrastructure (lit pre @ e)"

definition tick_world :: "world \<Rightarrow> world" where
  "tick_world w = w\<lparr>tick := Suc (tick w)\<rparr>"

text \<open>A statement on the pool, and one on the open transaction.\<close>

definition exec :: "'a stmt \<Rightarrow> 'a driver_op" where
  "exec f w = (case fault (env w) (tick w) of
      Some e \<Rightarrow> (Inl e, tick_world w)
    | None \<Rightarrow> (case f (db w) of
          None \<Rightarrow> (Inl (unique_violation (env w)), tick_world w)
        | Some (d, a) \<Rightarrow> (Inr a, tick_world w\<lparr>db := d\<rparr>)))"

definition exec_tx :: "'a stmt \<Rightarrow> 'a driver_op" where
  "exec_tx f w = (case fault (env w) (tick w) of
      Some e \<Rightarrow> (Inl e, tick_world w)
    | None \<Rightarrow> (case f (tx w) of
          None \<Rightarrow> (Inl (unique_violation (env w)), tick_world w)
        | Some (d, a) \<Rightarrow> (Inr a, tick_world w\<lparr>tx := d\<rparr>)))"

definition begin_tx :: "unit driver_op" where
  "begin_tx w = (case fault (env w) (tick w) of
      Some e \<Rightarrow> (Inl e, tick_world w)
    | None \<Rightarrow> (Inr (), tick_world w\<lparr>tx := db w\<rparr>))"

definition commit_tx :: "unit driver_op" where
  "commit_tx w = (case fault (env w) (tick w) of
      Some e \<Rightarrow> (Inl e, tick_world w)
    | None \<Rightarrow> (Inr (), tick_world w\<lparr>db := tx w\<rparr>))"

definition now_utc_epoch_seconds :: "world \<Rightarrow> ('e + nat) \<times> world" where
  "now_utc_epoch_seconds w = (Inr (clock (env w) (tick w)), tick_world w)"

definition unix_timestamp_string :: "world \<Rightarrow> ('e + str) \<times> world" where
  "unix_timestamp_string w = (Inr (show_nat (clock (env w) (tick w))), tick_world w)"

definition uuid_now_v7 :: "world \<Rightarrow> ('e + uuid) \<times> world" where
  "uuid_now_v7 w = (Inr (fresh (env w) (tick w)), tick_world w)"

definition uuid_parse :: "string \<Rightarrow> str \<Rightarrow> uuid op" where
  "uuid_parse pre s w = (map_err (infra pre) (parse_uuid (env w) s), w)"

text \<open>Documented behaviour of \<open>uuid\<close>: a text that \<open>to_string\<close> wrote is read back as itself, and
  \<open>now_v7\<close> yields such identifiers.\<close>

definition uuid_ok :: "outside \<Rightarrow> uuid \<Rightarrow> bool" where
  "uuid_ok out u \<longleftrightarrow> parse_uuid out u = Inr u"

definition fresh_ok :: "outside \<Rightarrow> bool" where
  "fresh_ok out \<longleftrightarrow> (\<forall>n. uuid_ok out (fresh out n))"

text \<open>\<open>is_enabled\<close> of an \<open>INTEGER\<close> flag.\<close>

definition is_enabled :: "i64 \<Rightarrow> bool" where
  "is_enabled raw \<longleftrightarrow> raw \<noteq> 0"

section \<open>Statements\<close>

definition query_stmt :: "(database \<Rightarrow> 'a) \<Rightarrow> 'a stmt" where
  "query_stmt q d = Some (d, q d)"

definition total_stmt :: "(database \<Rightarrow> database) \<Rightarrow> unit stmt" where
  "total_stmt f d = Some (f d, ())"

text \<open>An \<open>UPDATE\<close> or \<open>DELETE\<close> with its number of affected rows.\<close>

definition update_rows :: "('r \<Rightarrow> bool) \<Rightarrow> ('r \<Rightarrow> 'r) \<Rightarrow> 'r list \<Rightarrow> 'r list \<times> nat" where
  "update_rows p f rows = (map (\<lambda>r. if p r then f r else r) rows, length (filter p rows))"

definition delete_rows :: "('r \<Rightarrow> bool) \<Rightarrow> 'r list \<Rightarrow> 'r list \<times> nat" where
  "delete_rows p rows = (filter (\<lambda>r. \<not> p r) rows, length (filter p rows))"

text \<open>\<open>ORDER BY\<close> a text column; rows with equal text stay in insertion order.\<close>

fun insort_text :: "('r \<Rightarrow> str) \<Rightarrow> 'r \<Rightarrow> 'r list \<Rightarrow> 'r list" where
  "insort_text f x [] = [x]"
| "insort_text f x (y # ys) =
     (if str_le (f x) (f y) then x # y # ys else y # insort_text f x ys)"

definition order_by :: "('r \<Rightarrow> str) \<Rightarrow> 'r list \<Rightarrow> 'r list" where
  "order_by f rows = foldr (insort_text f) rows []"

definition order_by_desc :: "('r \<Rightarrow> str) \<Rightarrow> 'r list \<Rightarrow> 'r list" where
  "order_by_desc f rows = rev (order_by f (rev rows))"

lemma set_insort_text [simp]: "set (insort_text f x ys) = insert x (set ys)"
  by (induction ys) auto

lemma length_insort_text [simp]: "length (insort_text f x ys) = Suc (length ys)"
  by (induction ys) auto

lemma set_order_by [simp]: "set (order_by f rows) = set rows"
  by (induction rows) (auto simp: order_by_def)

lemma length_order_by [simp]: "length (order_by f rows) = length rows"
  by (induction rows) (auto simp: order_by_def)

lemma set_order_by_desc [simp]: "set (order_by_desc f rows) = set rows"
  by (simp add: order_by_desc_def)

lemma length_order_by_desc [simp]: "length (order_by_desc f rows) = length rows"
  by (simp add: order_by_desc_def)

lemma order_by_eq_Nil [simp]:
  "order_by f rows = [] \<longleftrightarrow> rows = []" "order_by_desc f rows = [] \<longleftrightarrow> rows = []"
  by (metis length_0_conv length_order_by, metis length_0_conv length_order_by_desc)

lemma order_by_Nil [simp]: "order_by f [] = []" "order_by_desc f [] = []"
  by (simp_all add: order_by_def order_by_desc_def)

lemma order_by_single [simp]: "order_by f [x] = [x]" "order_by_desc f [x] = [x]"
  by (simp_all add: order_by_def order_by_desc_def)

lemma sorted_insort_text:
  "sorted_wrt (\<lambda>a b. str_le (f a) (f b)) ys
    \<Longrightarrow> sorted_wrt (\<lambda>a b. str_le (f a) (f b)) (insort_text f x ys)"
proof (induction ys)
  case (Cons y ys)
  then show ?case using str_le_total str_le_trans by (auto simp: sorted_wrt.simps)
qed simp

lemma sorted_order_by: "sorted_wrt (\<lambda>a b. str_le (f a) (f b)) (order_by f rows)"
  by (induction rows) (auto simp: order_by_def sorted_insort_text)

lemma sorted_order_by_desc: "sorted_wrt (\<lambda>a b. str_le (f b) (f a)) (order_by_desc f rows)"
  using sorted_order_by [of f "rev rows"] by (simp add: order_by_desc_def sorted_wrt_rev)

lemma set_update_rows:
  "set (fst (update_rows p f rows)) = (\<lambda>r. if p r then f r else r) ` set rows"
  by (simp add: update_rows_def)

lemma map_update_rows:
  "(\<And>r. p r \<Longrightarrow> g (f r) = g r) \<Longrightarrow> map g (fst (update_rows p f rows)) = map g rows"
  by (auto simp: update_rows_def)

lemma update_rows_none: "snd (update_rows p f rows) = 0 \<Longrightarrow> fst (update_rows p f rows) = rows"
  by (induction rows) (auto simp: update_rows_def filter_empty_conv split: if_splits)

section \<open>Running operations\<close>

lemma bind_Inr:
  "bind_op m k s = (Inr b, s'') \<longleftrightarrow> (\<exists>a s'. m s = (Inr a, s') \<and> k a s' = (Inr b, s''))"
  by (auto simp: bind_op_def split: prod.splits sum.splits)

lemma bind_Inl:
  "bind_op m k s = (Inl e, s'') \<longleftrightarrow>
     m s = (Inl e, s'') \<or> (\<exists>a s'. m s = (Inr a, s') \<and> k a s' = (Inl e, s''))"
  by (auto simp: bind_op_def split: prod.splits sum.splits)

lemma bind_run [simp]:
  "m s = (Inr a, s') \<Longrightarrow> bind_op m k s = k a s'"
  "m s = (Inl e, s') \<Longrightarrow> bind_op m k s = (Inl e, s')"
  by (simp_all add: bind_op_def)

lemma err_op_Inr: "err_op f m s = (Inr a, s') \<longleftrightarrow> m s = (Inr a, s')"
  by (cases "m s"; cases "fst (m s)") (auto simp: err_op_def)

lemma err_op_Inl: "err_op f m s = (Inl e, s') \<longleftrightarrow> (\<exists>d. m s = (Inl d, s') \<and> e = f d)"
  by (cases "m s"; cases "fst (m s)") (auto simp: err_op_def)

lemmas op_results = bind_Inr bind_Inl err_op_Inr err_op_Inl

lemma ret_run [simp]: "ret a s = (r, s') \<longleftrightarrow> r = Inr a \<and> s = s'"
  by (auto simp: ret_def)

lemma throw_run [simp]: "throw e s = (r, s') \<longleftrightarrow> r = Inl e \<and> s = s'"
  by (auto simp: throw_def)

lemma of_result_run [simp]: "of_result r s = (x, s') \<longleftrightarrow> r = x \<and> s = s'"
  by (auto simp: of_result_def)

lemma bind_pure:
  "bind_op (ret a) k = k a" "bind_op (of_result (Inr a)) k = k a"
  "bind_op (of_result (Inl e)) k = throw e"
  by (auto simp: bind_op_def ret_def of_result_def throw_def fun_eq_iff)

text \<open>An operation keeps a property of the world, whatever it returns.\<close>

definition keeps :: "('s \<Rightarrow> bool) \<Rightarrow> ('s \<Rightarrow> ('e + 'a) \<times> 's) \<Rightarrow> bool" where
  "keeps P m \<longleftrightarrow> (\<forall>s. P s \<longrightarrow> P (snd (m s)))"

named_theorems keeps_intros \<open>operations that keep a property\<close>

lemma keepsD: "keeps P m \<Longrightarrow> P s \<Longrightarrow> P (snd (m s))"
  by (simp add: keeps_def)

lemma keepsD': "keeps P m \<Longrightarrow> m s = (r, s') \<Longrightarrow> P s \<Longrightarrow> P s'"
  by (metis keepsD snd_conv)

lemma keeps_bind [keeps_intros]:
  "keeps P m \<Longrightarrow> (\<And>a. keeps P (k a)) \<Longrightarrow> keeps P (bind_op m k)"
  unfolding keeps_def bind_op_def by (auto split: prod.splits sum.splits)

lemma keeps_err [keeps_intros]: "keeps P m \<Longrightarrow> keeps P (err_op f m)"
  by (auto simp: keeps_def err_op_def split: prod.splits)

lemma keeps_try [keeps_intros]: "keeps P m \<Longrightarrow> keeps P (try_op m)"
  by (auto simp: keeps_def try_op_def split: prod.splits)

lemma keeps_simple [keeps_intros]:
  "keeps P (ret a)" "keeps P (throw e)" "keeps P (of_result r)"
  by (simp_all add: keeps_def ret_def throw_def of_result_def)

lemma keeps_if [keeps_intros]:
  "(c \<Longrightarrow> keeps P m) \<Longrightarrow> (\<not> c \<Longrightarrow> keeps P n) \<Longrightarrow> keeps P (if c then m else n)"
  by simp

lemma keeps_option [keeps_intros]:
  "keeps P m \<Longrightarrow> (\<And>a. keeps P (k a)) \<Longrightarrow> keeps P (case x of None \<Rightarrow> m | Some a \<Rightarrow> k a)"
  by (cases x) auto

lemma keeps_sum [keeps_intros]:
  "(\<And>e. keeps P (h e)) \<Longrightarrow> (\<And>a. keeps P (k a))
    \<Longrightarrow> keeps P (case x of Inl e \<Rightarrow> h e | Inr a \<Rightarrow> k a)"
  by (cases x) auto

lemma keeps_prod [keeps_intros]:
  "(\<And>a b. keeps P (k a b)) \<Longrightarrow> keeps P (case x of (a, b) \<Rightarrow> k a b)"
  by (cases x) auto

text \<open>A property of the committed tables alone, with what the outside answers fixed.\<close>

definition on_db :: "outside \<Rightarrow> (database \<Rightarrow> bool) \<Rightarrow> world \<Rightarrow> bool" where
  "on_db out Q w \<longleftrightarrow> env w = out \<and> Q (db w)"

lemma keeps_pure_db [keeps_intros]:
  "keeps (on_db out Q) now_utc_epoch_seconds" "keeps (on_db out Q) unix_timestamp_string"
  "keeps (on_db out Q) uuid_now_v7" "keeps (on_db out Q) (uuid_parse p s)" "keeps (on_db out Q) begin_tx"
  "keeps (on_db out Q) (exec_tx f)"
  by (auto simp: keeps_def on_db_def now_utc_epoch_seconds_def unix_timestamp_string_def
      uuid_now_v7_def uuid_parse_def begin_tx_def exec_tx_def tick_world_def
      split: option.splits)

lemma keeps_exec:
  assumes "\<And>d d' a. Q d \<Longrightarrow> f d = Some (d', a) \<Longrightarrow> Q d'"
  shows "keeps (on_db out Q) (exec f)"
  using assms
  by (auto simp: keeps_def on_db_def exec_def tick_world_def split: option.splits)

lemma keeps_exec_query [keeps_intros]: "keeps (on_db out Q) (exec (query_stmt q))"
  by (rule keeps_exec) (simp add: query_stmt_def)

text \<open>An operation that fails without a trace: it keeps a property whenever it returns an error.\<close>

definition clean_error :: "('s \<Rightarrow> bool) \<Rightarrow> ('s \<Rightarrow> ('e + 'a) \<times> 's) \<Rightarrow> bool" where
  "clean_error P m \<longleftrightarrow> (\<forall>s e s'. P s \<longrightarrow> m s = (Inl e, s') \<longrightarrow> P s')"

named_theorems clean_intros \<open>operations that fail without a trace\<close>

lemma clean_errorD: "clean_error P m \<Longrightarrow> m s = (Inl e, s') \<Longrightarrow> P s \<Longrightarrow> P s'"
  by (auto simp: clean_error_def)

lemma keeps_clean: "keeps P m \<Longrightarrow> clean_error P m"
  by (metis clean_error_def keepsD')

lemma clean_bind [clean_intros]:
  "keeps P m \<Longrightarrow> (\<And>a. clean_error P (k a)) \<Longrightarrow> clean_error P (bind_op m k)"
  by (auto simp: clean_error_def bind_Inl dest: keepsD')

lemma clean_bind_ret [clean_intros]: "clean_error P m \<Longrightarrow> clean_error P (bind_op m (\<lambda>a. ret (f a)))"
  by (auto simp: clean_error_def bind_Inl)

lemma clean_err [clean_intros]: "clean_error P m \<Longrightarrow> clean_error P (err_op f m)"
  by (auto simp: clean_error_def err_op_Inl)

lemma clean_if [clean_intros]:
  "(c \<Longrightarrow> clean_error P m) \<Longrightarrow> (\<not> c \<Longrightarrow> clean_error P n) \<Longrightarrow> clean_error P (if c then m else n)"
  by simp

lemma clean_exec [clean_intros]: "clean_error (on_db out Q) (exec f)"
  by (auto simp: clean_error_def on_db_def exec_def tick_world_def split: option.splits)

lemma clean_commit [clean_intros]: "clean_error (on_db out Q) commit_tx"
  by (auto simp: clean_error_def on_db_def commit_tx_def tick_world_def split: option.splits)

text \<open>All the errors an operation can return satisfy \<open>E\<close>.\<close>

definition errs :: "('e \<Rightarrow> bool) \<Rightarrow> ('s \<Rightarrow> ('e + 'a) \<times> 's) \<Rightarrow> bool" where
  "errs E m \<longleftrightarrow> (\<forall>s e s'. m s = (Inl e, s') \<longrightarrow> E e)"

named_theorems errs_intros \<open>which errors an operation returns\<close>

lemma errsD: "errs E m \<Longrightarrow> m s = (Inl e, s') \<Longrightarrow> E e"
  by (auto simp: errs_def)

lemma errs_bind [errs_intros]: "errs E m \<Longrightarrow> (\<And>a. errs E (k a)) \<Longrightarrow> errs E (bind_op m k)"
  unfolding errs_def bind_Inl by blast

lemma errs_err [errs_intros]: "(\<And>d. E (f d)) \<Longrightarrow> errs E (err_op f m)"
  by (auto simp: errs_def err_op_Inl)

lemma errs_simple [errs_intros]:
  "errs E (ret a)" "E e \<Longrightarrow> errs E (throw e)" "(\<And>e. r = Inl e \<Longrightarrow> E e) \<Longrightarrow> errs E (of_result r)"
  "errs E (try_op m)"
  by (auto simp: errs_def of_result_def try_op_def split: prod.splits)

lemma errs_pure [errs_intros]:
  "errs E now_utc_epoch_seconds" "errs E unix_timestamp_string" "errs E uuid_now_v7"
  by (auto simp: errs_def now_utc_epoch_seconds_def unix_timestamp_string_def uuid_now_v7_def)

lemma errs_uuid [errs_intros]: "(\<And>d. E (infra p d)) \<Longrightarrow> errs E (uuid_parse p s)"
  by (auto simp: errs_def uuid_parse_def) (metis map_err.simps sum.exhaust sum.inject(1) sum.distinct(1))

lemma errs_if [errs_intros]:
  "(c \<Longrightarrow> errs E m) \<Longrightarrow> (\<not> c \<Longrightarrow> errs E n) \<Longrightarrow> errs E (if c then m else n)"
  by simp

lemma errs_option [errs_intros]:
  "errs E m \<Longrightarrow> (\<And>a. errs E (k a)) \<Longrightarrow> errs E (case x of None \<Rightarrow> m | Some a \<Rightarrow> k a)"
  by (cases x) auto

lemma errs_prod [errs_intros]:
  "(\<And>a b. errs E (k a b)) \<Longrightarrow> errs E (case x of (a, b) \<Rightarrow> k a b)"
  by (cases x) auto

text \<open>With \<open>Q\<close> the equality to the tables before, these two say that nothing was written.\<close>

lemma keeps_frame: "m w = (r, w') \<Longrightarrow> keeps (on_db (env w) (\<lambda>d. d = db w)) m \<Longrightarrow> env w' = env w \<and> db w' = db w"
  by (drule keepsD') (auto simp: on_db_def)

lemma clean_frame:
  "m w = (Inl e, w') \<Longrightarrow> clean_error (on_db (env w) (\<lambda>d. d = db w)) m \<Longrightarrow> env w' = env w \<and> db w' = db w"
  by (drule clean_errorD) (auto simp: on_db_def)

lemma tick_world_simps [simp]:
  "db (tick_world w) = db w" "tx (tick_world w) = tx w" "tick (tick_world w) = Suc (tick w)"
  "env (tick_world w) = env w"
  by (simp_all add: tick_world_def)

lemma tick_world_same [simp]:
  "(tick_world w)\<lparr>db := db w\<rparr> = tick_world w" "(tick_world w)\<lparr>tx := tx w\<rparr> = tick_world w"
  by (simp_all add: tick_world_def)

lemma exec_Inr:
  "exec f w = (Inr a, w') \<longleftrightarrow>
     (\<exists>d. fault (env w) (tick w) = None \<and> f (db w) = Some (d, a) \<and> w' = tick_world w\<lparr>db := d\<rparr>)"
  by (auto simp: exec_def split: option.splits)

lemma exec_tx_Inr:
  "exec_tx f w = (Inr a, w') \<longleftrightarrow>
     (\<exists>d. fault (env w) (tick w) = None \<and> f (tx w) = Some (d, a) \<and> w' = tick_world w\<lparr>tx := d\<rparr>)"
  by (auto simp: exec_tx_def split: option.splits)

lemma exec_Inl: "exec f w = (Inl e, w') \<Longrightarrow> w' = tick_world w"
  by (auto simp: exec_def split: option.splits)

lemma exec_tx_Inl: "exec_tx f w = (Inl e, w') \<Longrightarrow> w' = tick_world w"
  by (auto simp: exec_tx_def split: option.splits)

lemma begin_tx_Inr:
  "begin_tx w = (Inr u, w') \<longleftrightarrow> fault (env w) (tick w) = None \<and> w' = tick_world w\<lparr>tx := db w\<rparr>"
  by (auto simp: begin_tx_def split: option.splits)

lemma begin_tx_Inl: "begin_tx w = (Inl e, w') \<Longrightarrow> w' = tick_world w"
  by (auto simp: begin_tx_def split: option.splits)

lemma commit_tx_Inr:
  "commit_tx w = (Inr u, w') \<longleftrightarrow> fault (env w) (tick w) = None \<and> w' = tick_world w\<lparr>db := tx w\<rparr>"
  by (auto simp: commit_tx_def split: option.splits)

lemma commit_tx_Inl: "commit_tx w = (Inl e, w') \<Longrightarrow> w' = tick_world w"
  by (auto simp: commit_tx_def split: option.splits)

lemma clock_Inr [simp]:
  "unix_timestamp_string w = (r, w') \<longleftrightarrow> r = Inr (show_nat (clock (env w) (tick w))) \<and> w' = tick_world w"
  "now_utc_epoch_seconds w = (s, w') \<longleftrightarrow> s = Inr (clock (env w) (tick w)) \<and> w' = tick_world w"
  "uuid_now_v7 w = (r, w') \<longleftrightarrow> r = Inr (fresh (env w) (tick w)) \<and> w' = tick_world w"
  by (auto simp: unix_timestamp_string_def now_utc_epoch_seconds_def uuid_now_v7_def)

lemma uuid_parse_run:
  "uuid_parse p s w = (r, w') \<longleftrightarrow> r = map_err (infra p) (parse_uuid (env w) s) \<and> w' = w"
  by (auto simp: uuid_parse_def)

lemmas stmt_results = exec_Inr exec_tx_Inr begin_tx_Inr commit_tx_Inr uuid_parse_run

text \<open>Evaluating an operation on a closed world.\<close>

lemmas run_simps = bind_op_def err_op_def try_op_def ret_def throw_def of_result_def exec_def exec_tx_def
  begin_tx_def commit_tx_def query_stmt_def total_stmt_def uuid_parse_def now_utc_epoch_seconds_def
  unix_timestamp_string_def uuid_now_v7_def update_rows_def delete_rows_def order_by_desc_def order_by_def

text \<open>A world in which no statement is hit by a fault.\<close>

definition quiet :: "world \<Rightarrow> bool" where
  "quiet w \<longleftrightarrow> (\<forall>n. fault (env w) n = None)"

lemma quiet_same: "quiet w \<Longrightarrow> env w' = env w \<Longrightarrow> quiet w'"
  by (simp add: quiet_def)

end
