(* ===== verification/Chat_Types.thy ===== *)
theory Chat_Types
  imports Wallet Core_Error
begin

text \<open>
  The messages of the gateway (crates/mizan-providers/src/lib.rs): chat requests, responses and
  the chunks of a streamed response. \<open>TokenUsage\<close> is in theory Wallet.
\<close>

record chat_message =
  cm_role :: str
  cm_content :: str

record chat_request =
  cr_model :: str
  cr_messages :: "chat_message list"
  cr_stream :: bool
  cr_max_tokens :: "u64 option"

record chat_response =
  cs_provider :: str
  cs_model :: str
  cs_content :: str
  cs_usage :: "token_usage option"

record chat_stream_chunk =
  ck_index :: nat
  ck_delta :: str
  ck_finish_reason :: "str option"
  ck_usage :: "token_usage option"

end
