(* ===== verification/Ledger_Book.thy ===== *)
theory Ledger_Book
  imports Main
begin

text \<open>
  The contract of an account book: accounts with a balance, a history of movements per account,
  and an operation that posts one entry. A client that only posts valid entries keeps every
  balance equal to the sum of its history. Theory Billing interprets it on the wallets and the
  credit ledger of the database.
\<close>

locale ledger_book =
  fixes balance :: "'s \<Rightarrow> 'k \<Rightarrow> int"
    and history :: "'s \<Rightarrow> 'k \<Rightarrow> int list"
    and post :: "'e \<Rightarrow> 's \<Rightarrow> 's"
    and account :: "'e \<Rightarrow> 'k"
    and amount :: "'e \<Rightarrow> int"
    and valid :: "'s \<Rightarrow> 'e \<Rightarrow> bool"
  assumes balance_post:
      "valid s e \<Longrightarrow> balance (post e s) k = balance s k + (if k = account e then amount e else 0)"
    and history_post:
      "valid s e \<Longrightarrow> history (post e s) k = history s k @ (if k = account e then [amount e] else [])"
begin

definition reconciled :: "'s \<Rightarrow> bool" where
  "reconciled s \<longleftrightarrow> (\<forall>k. balance s k = sum_list (history s k))"

lemma reconciled_post: "reconciled s \<Longrightarrow> valid s e \<Longrightarrow> reconciled (post e s)"
  by (simp add: reconciled_def balance_post history_post)

text \<open>A run of postings, each valid where it is made.\<close>

fun all_valid :: "'s \<Rightarrow> 'e list \<Rightarrow> bool" where
  "all_valid s [] = True"
| "all_valid s (e # es) = (valid s e \<and> all_valid (post e s) es)"

lemma balance_fold:
  "all_valid s es \<Longrightarrow>
     balance (fold post es s) k = balance s k + sum_list (map amount (filter (\<lambda>e. account e = k) es))"
  by (induction es arbitrary: s) (auto simp: balance_post)

lemma reconciled_fold: "reconciled s \<Longrightarrow> all_valid s es \<Longrightarrow> reconciled (fold post es s)"
  by (induction es arbitrary: s) (auto simp: reconciled_post)

end

end
