(* ===== verification/Billing.thy ===== *)
theory Billing
  imports Database Chat_Types Ledger_Book
begin

text \<open>
  Wallets, the credit ledger and usage events (crates/mizan-api/src/billing.rs), and the audit and
  request logs they are written next to (crates/mizan-api/src/logging.rs). The database backend
  only changes the text of the statements (theory Sql_Params), so it is not an argument here;
  \<open>FOR UPDATE\<close> shows in that a transaction runs alone.
\<close>

section \<open>Logs\<close>

record request_log_input =
  rq_request_id :: uuid
  rq_user_id :: "uuid option"
  rq_api_key_id :: "uuid option"
  rq_provider_id :: "uuid option"
  rq_route_id :: "uuid option"
  rq_daemon_node_id :: "uuid option"
  rq_method :: str
  rq_path :: str
  rq_route :: "str option"
  rq_provider :: "str option"
  rq_status_code :: nat
  rq_latency_ms :: u64
  rq_error_code :: "str option"

record admin_audit_input =
  au_actor_user_id :: "uuid option"
  au_action :: str
  au_entity_type :: str
  au_entity_id :: "str option"
  au_payload_json :: "str option"

definition insert_request_log :: "request_log_row \<Rightarrow> unit stmt" where
  "insert_request_log row d =
     (if rl_id row \<in> rl_id ` set (request_logs d) then None
      else Some (d\<lparr>request_logs := request_logs d @ [row]\<rparr>, ()))"

definition record_request_log :: "request_log_input \<Rightarrow> unit op" where
  "record_request_log input =
     bind_op unix_timestamp_string (\<lambda>now.
     bind_op (of_result (ok_or
         (infra ''request_log.latency_ms exceeds i64 range: ''
            (lit ''out of range integral type conversion attempted''))
         (i64_try_from_u64 (rq_latency_ms input)))) (\<lambda>latency.
     bind_op uuid_now_v7 (\<lambda>id.
     err_op (infra ''cannot insert request log: '') (exec (insert_request_log
       \<lparr>rl_id = id, rl_request_id = rq_request_id input, rl_user_id = rq_user_id input,
        rl_api_key_id = rq_api_key_id input, rl_provider_id = rq_provider_id input,
        rl_route_id = rq_route_id input, rl_daemon_node_id = rq_daemon_node_id input,
        rl_method = rq_method input, rl_path = rq_path input, rl_route = rq_route input,
        rl_provider = rq_provider input, rl_status_code = int (rq_status_code input),
        rl_latency_ms = latency, rl_error_code = rq_error_code input,
        rl_created_at = now\<rparr>)))))"

definition insert_audit :: "audit_row \<Rightarrow> unit stmt" where
  "insert_audit row d =
     (if a_id row \<in> a_id ` set (admin_audit_logs d) then None
      else Some (d\<lparr>admin_audit_logs := admin_audit_logs d @ [row]\<rparr>, ()))"

definition record_admin_audit :: "admin_audit_input \<Rightarrow> unit op" where
  "record_admin_audit input =
     bind_op unix_timestamp_string (\<lambda>now.
     bind_op uuid_now_v7 (\<lambda>id.
     err_op (infra ''cannot insert admin audit log: '') (exec (insert_audit
       \<lparr>a_id = id, a_actor_user_id = au_actor_user_id input, a_action = au_action input,
        a_entity_type = au_entity_type input, a_entity_id = au_entity_id input,
        a_payload_json = au_payload_json input, a_created_at = now\<rparr>))))"

text \<open>\<open>serialize_payload(...)\<close>, and the audit that only warns when it cannot be written.\<close>

definition serialize_payload :: "json \<Rightarrow> str option op" where
  "serialize_payload j w = (Inr (json_to_string (env w) j), w)"

definition audit_or_warn :: "uuid option \<Rightarrow> string \<Rightarrow> string \<Rightarrow> str option \<Rightarrow> json \<Rightarrow> unit op" where
  "audit_or_warn actor action entity_type entity_id payload =
     bind_op (serialize_payload payload) (\<lambda>text.
     bind_op (try_op (record_admin_audit
       \<lparr>au_actor_user_id = actor, au_action = lit action, au_entity_type = lit entity_type,
        au_entity_id = entity_id, au_payload_json = text\<rparr>)) (\<lambda>_. ret ()))"

section \<open>Usage estimates\<close>

definition ceil_divide :: "u64 \<Rightarrow> u64 \<Rightarrow> u64" where
  "ceil_divide dividend divisor =
     (if dividend = 0 then 0
      else if dividend mod divisor > 0 then dividend div divisor + 1 else dividend div divisor)"

definition estimate_usage :: "chat_message list \<Rightarrow> str \<Rightarrow> token_usage" where
  "estimate_usage prompt_messages completion_text =
     (let prompt_bytes = sum_list (map (\<lambda>m. of_nat (byte_len (cm_content m))) prompt_messages);
          completion_bytes = of_nat (byte_len completion_text);
          pt = ceil_divide prompt_bytes 4;
          ct = ceil_divide completion_bytes 4
      in \<lparr>prompt_tokens = pt, completion_tokens = ct, total_tokens = u64_saturating_add pt ct,
          estimated = True\<rparr>)"

section \<open>Wallets\<close>

record wallet =
  wal_id :: uuid
  wal_owner_user_id :: uuid
  wal_balance :: i64

definition select_wallet :: "uuid \<Rightarrow> database \<Rightarrow> (str \<times> i64) option" where
  "select_wallet user_id d =
     (case order_by_desc w_created_at (filter (\<lambda>r. w_owner_user_id r = user_id) (wallets d)) of
        [] \<Rightarrow> None
      | r # _ \<Rightarrow> Some (w_id r, w_balance r))"

text \<open>\<open>INSERT ... ON CONFLICT(owner_user_id) DO NOTHING\<close>.\<close>

definition insert_wallet :: "uuid \<Rightarrow> uuid \<Rightarrow> str \<Rightarrow> unit stmt" where
  "insert_wallet wallet_id user_id now d =
     (if user_id \<in> w_owner_user_id ` set (wallets d) then Some (d, ())
      else if wallet_id \<in> w_id ` set (wallets d) then None
      else Some (d\<lparr>wallets := wallets d @
             [\<lparr>w_id = wallet_id, w_owner_user_id = user_id, w_balance = 0, w_created_at = now,
               w_updated_at = now\<rparr>]\<rparr>, ()))"

definition ensure_wallet_in_tx :: "uuid \<Rightarrow> wallet op" where
  "ensure_wallet_in_tx user_id =
     bind_op (err_op Infrastructure (exec_tx (query_stmt (select_wallet user_id)))) (\<lambda>existing.
     case existing of
       Some (text, balance) \<Rightarrow>
         bind_op (uuid_parse ''invalid wallet id: '' text) (\<lambda>id.
         ret \<lparr>wal_id = id, wal_owner_user_id = user_id, wal_balance = balance\<rparr>)
     | None \<Rightarrow>
         bind_op uuid_now_v7 (\<lambda>wallet_id.
         bind_op unix_timestamp_string (\<lambda>now.
         bind_op (err_op (infra ''cannot initialize wallet: '')
             (exec_tx (insert_wallet wallet_id user_id now))) (\<lambda>_.
         bind_op (err_op Infrastructure (exec_tx (query_stmt (select_wallet user_id)))) (\<lambda>again.
         case again of
           None \<Rightarrow> throw (Infrastructure
             (lit ''wallet initialization did not result in a wallet row''))
         | Some (text, balance) \<Rightarrow>
             bind_op (uuid_parse ''invalid wallet id: '' text) (\<lambda>id.
             ret \<lparr>wal_id = id, wal_owner_user_id = user_id, wal_balance = balance\<rparr>))))))"

definition ensure_wallet :: "uuid \<Rightarrow> wallet op" where
  "ensure_wallet user_id =
     bind_op (err_op Infrastructure begin_tx) (\<lambda>_.
     bind_op (ensure_wallet_in_tx user_id) (\<lambda>wallet.
     bind_op (err_op (infra ''failed to persist wallet row: '') commit_tx) (\<lambda>_.
     ret wallet)))"

record wallet_response =
  wr_user_id :: uuid
  wr_balance_microcredits :: i64

text \<open>A handler answers with \<open>map_err(from_app_error)\<close>.\<close>

type_synonym 'a handler = "world \<Rightarrow> ((status \<times> error_envelope) + 'a) \<times> world"

definition get_wallet :: "uuid \<Rightarrow> wallet_response handler" where
  "get_wallet identity_user_id =
     bind_op (err_op from_app_error (ensure_wallet identity_user_id)) (\<lambda>wallet.
     ret \<lparr>wr_user_id = wal_owner_user_id wallet, wr_balance_microcredits = wal_balance wallet\<rparr>)"

section \<open>The ledger\<close>

definition insert_ledger :: "ledger_row \<Rightarrow> unit stmt" where
  "insert_ledger row d =
     (if l_id row \<in> l_id ` set (credit_ledger d) then None
      else Some (d\<lparr>credit_ledger := credit_ledger d @ [row]\<rparr>, ()))"

definition set_wallet_balance :: "uuid \<Rightarrow> i64 \<Rightarrow> str \<Rightarrow> nat stmt" where
  "set_wallet_balance wallet_id new_balance now d =
     (case update_rows (\<lambda>r. w_id r = wallet_id)
             (\<lambda>r. r\<lparr>w_balance := new_balance, w_updated_at := now\<rparr>) (wallets d) of
        (rows, n) \<Rightarrow> Some (d\<lparr>wallets := rows\<rparr>, n))"

record grant_request =
  gr_amount_microcredits :: i64
  gr_reason :: "str option"

record grant_response =
  gs_user_id :: uuid
  gs_wallet_id :: uuid
  gs_balance_microcredits :: i64
  gs_amount_microcredits :: i64
  gs_reason :: str

text \<open>The part of \<open>grant_credits\<close> that runs in the transaction, up to and with its commit.\<close>

definition grant_in_tx :: "uuid \<Rightarrow> i64 \<Rightarrow> str \<Rightarrow> (wallet \<times> i64) op" where
  "grant_in_tx user_id amount reason =
     bind_op (err_op (infra ''failed to begin grant credits transaction: '') begin_tx) (\<lambda>_.
     bind_op (ensure_wallet_in_tx user_id) (\<lambda>wallet.
     bind_op unix_timestamp_string (\<lambda>now.
     bind_op (ret (i64_saturating_add (wal_balance wallet) amount)) (\<lambda>new_balance.
     bind_op uuid_now_v7 (\<lambda>id.
     bind_op (err_op (infra ''failed to create credit ledger entry: '') (exec_tx (insert_ledger
         \<lparr>l_id = id, l_wallet_id = wal_id wallet, l_request_id = None, l_delta = amount,
          l_balance_after = new_balance, l_reason = reason, l_created_at = now\<rparr>))) (\<lambda>_.
     bind_op (err_op (infra ''failed to update wallet balance: '')
         (exec_tx (set_wallet_balance (wal_id wallet) new_balance now))) (\<lambda>_.
     bind_op (err_op (infra ''failed to commit credit grant transaction: '') commit_tx) (\<lambda>_.
     ret (wallet, new_balance)))))))))"

definition grant_reason :: "str option \<Rightarrow> str" where
  "grant_reason reason = (case reason of
      Some v \<Rightarrow> if trim v = [] then lit ''credit_grant'' else v
    | None \<Rightarrow> lit ''credit_grant'')"

definition grant_credits :: "uuid \<Rightarrow> uuid \<Rightarrow> grant_request \<Rightarrow> grant_response handler" where
  "grant_credits user_id identity_user_id payload =
     (if gr_amount_microcredits payload \<le> 0 then
        throw (map_error 400 (InvalidConfig (lit ''grant.amount_microcredits'')
          (lit ''amount_microcredits must be greater than 0'')))
      else
        bind_op (ret (grant_reason (gr_reason payload))) (\<lambda>reason.
        bind_op (err_op from_app_error
            (grant_in_tx user_id (gr_amount_microcredits payload) reason)) (\<lambda>(wallet, new_balance).
        bind_op (err_op from_app_error (audit_or_warn (Some identity_user_id) ''credit_granted''
            ''user'' (Some user_id)
            (JObject [(lit ''amount_microcredits'', JInt (gr_amount_microcredits payload)),
                      (lit ''reason'', JString reason)]))) (\<lambda>_.
        ret \<lparr>gs_user_id = user_id, gs_wallet_id = wal_id wallet,
             gs_balance_microcredits = new_balance,
             gs_amount_microcredits = gr_amount_microcredits payload, gs_reason = reason\<rparr>))))"

section \<open>Usage events and charges\<close>

record billing_input =
  bi_request_id :: uuid
  bi_user_id :: uuid
  bi_api_key_id :: "uuid option"
  bi_provider_id :: "uuid option"
  bi_route_id :: "uuid option"
  bi_daemon_node_id :: "uuid option"
  bi_model :: str
  bi_usage :: token_usage
  bi_status_code :: nat
  bi_latency_ms :: u64
  bi_route_price :: route_price

definition usage_charge_of :: "billing_input \<Rightarrow> usage_charge" where
  "usage_charge_of input = calculate_usage_charge (charge_input_of (bi_usage input))
     (bi_route_price input)"

definition insert_usage_row :: "usage_row \<Rightarrow> unit stmt" where
  "insert_usage_row row d =
     (if ue_id row \<in> ue_id ` set (usage_events d) then None
      else Some (d\<lparr>usage_events := usage_events d @ [row]\<rparr>, ()))"

text \<open>The row to insert, or the first count that does not fit an \<open>INTEGER\<close> column.\<close>

definition usage_row_of :: "billing_input \<Rightarrow> nat \<Rightarrow> uuid \<Rightarrow> str \<Rightarrow> app_error + usage_row" where
  "usage_row_of input status_code event_id now =
     and_then (ok_or (InvalidConfig (lit ''usage.prompt_tokens'')
         (lit ''prompt tokens must fit into i64''))
       (i64_try_from_u64 (prompt_tokens (bi_usage input)))) (\<lambda>pt.
     and_then (ok_or (InvalidConfig (lit ''usage.completion_tokens'')
         (lit ''completion tokens must fit into i64''))
       (i64_try_from_u64 (completion_tokens (bi_usage input)))) (\<lambda>ct.
     and_then (ok_or (InvalidConfig (lit ''usage.total_tokens'')
         (lit ''total tokens must fit into i64''))
       (i64_try_from_u64 (total_tokens (bi_usage input)))) (\<lambda>tt.
     and_then (ok_or (InvalidConfig (lit ''usage.latency_ms'')
         (lit ''latency must fit into i64''))
       (i64_try_from_u64 (bi_latency_ms input))) (\<lambda>latency.
     Inr \<lparr>ue_id = event_id, ue_request_id = bi_request_id input, ue_user_id = Some (bi_user_id input),
          ue_api_key_id = bi_api_key_id input, ue_provider_id = bi_provider_id input,
          ue_route_id = bi_route_id input, ue_daemon_node_id = bi_daemon_node_id input,
          ue_model = bi_model input, ue_prompt_tokens = pt, ue_completion_tokens = ct,
          ue_total_tokens = tt, ue_estimated = (if estimated (bi_usage input) then 1 else 0),
          ue_status_code = int status_code, ue_latency_ms = latency, ue_created_at = now\<rparr>))))"

definition insert_usage_error :: "billing_input \<Rightarrow> str \<Rightarrow> app_error" where
  "insert_usage_error input e = Infrastructure (lit ''failed to insert usage event for request_id=''
     @ bi_request_id input @ lit '' : '' @ e)"

definition insert_usage_event :: "billing_input \<Rightarrow> nat \<Rightarrow> unit op" where
  "insert_usage_event input status_code =
     bind_op unix_timestamp_string (\<lambda>now.
     bind_op uuid_now_v7 (\<lambda>id.
     bind_op (of_result (usage_row_of input status_code id now)) (\<lambda>row.
     err_op (insert_usage_error input) (exec (insert_usage_row row)))))"

definition insert_usage_event_tx :: "billing_input \<Rightarrow> nat \<Rightarrow> unit op" where
  "insert_usage_event_tx input status_code =
     bind_op unix_timestamp_string (\<lambda>now.
     bind_op uuid_now_v7 (\<lambda>id.
     bind_op (of_result (usage_row_of input status_code id now)) (\<lambda>row.
     err_op (insert_usage_error input) (exec_tx (insert_usage_row row)))))"

text \<open>The rest of the transaction of \<open>record_usage\<close>, once the wallet covers the charge.\<close>

definition charge_in_tx :: "billing_input \<Rightarrow> i64 \<Rightarrow> wallet \<Rightarrow> unit op" where
  "charge_in_tx input charge wallet =
     bind_op (ret (wal_balance wallet - charge)) (\<lambda>new_balance.
     bind_op unix_timestamp_string (\<lambda>now.
     bind_op uuid_now_v7 (\<lambda>id.
     bind_op (err_op (infra ''failed to create credit ledger entry: '') (exec_tx (insert_ledger
         \<lparr>l_id = id, l_wallet_id = wal_id wallet, l_request_id = Some (bi_request_id input),
          l_delta = - charge, l_balance_after = new_balance, l_reason = lit ''usage_charge'',
          l_created_at = now\<rparr>))) (\<lambda>_.
     bind_op (err_op (infra ''failed to update wallet balance: '')
         (exec_tx (set_wallet_balance (wal_id wallet) new_balance now))) (\<lambda>_.
     bind_op (insert_usage_event_tx input (bi_status_code input)) (\<lambda>_.
     err_op (infra ''failed to commit metering transaction: '') commit_tx))))))"

definition record_usage :: "billing_input \<Rightarrow> unit op" where
  "record_usage input =
     (if \<not> is_success_status (bi_status_code input) then
        insert_usage_event input (bi_status_code input)
      else if charge_total (usage_charge_of input) \<le> 0 then
        insert_usage_event input (bi_status_code input)
      else
        bind_op (err_op (infra ''cannot open transaction for metering: '') begin_tx) (\<lambda>_.
        bind_op (ensure_wallet_in_tx (bi_user_id input)) (\<lambda>wallet.
        if wal_balance wallet < charge_total (usage_charge_of input) then
          bind_op (insert_usage_event (input\<lparr>bi_status_code := 402\<rparr>) 402) (\<lambda>_.
          throw InsufficientCredit)
        else charge_in_tx input (charge_total (usage_charge_of input)) wallet)))"

definition ensure_sufficient_credit :: "uuid \<Rightarrow> token_usage \<Rightarrow> route_price \<Rightarrow> unit op" where
  "ensure_sufficient_credit user_id usage price =
     (let charge = charge_total (calculate_usage_charge (charge_input_of usage) price) in
      if charge \<le> 0 then ret ()
      else bind_op (ensure_wallet user_id) (\<lambda>wallet.
        if wal_balance wallet < charge then throw InsufficientCredit else ret ()))"

section \<open>Listing usage\<close>

record usage_event_response =
  ur_id :: uuid
  ur_request_id :: uuid
  ur_user_id :: "uuid option"
  ur_api_key_id :: "uuid option"
  ur_provider_id :: "uuid option"
  ur_route_id :: "uuid option"
  ur_daemon_node_id :: "uuid option"
  ur_model :: str
  ur_prompt_tokens :: u64
  ur_completion_tokens :: u64
  ur_total_tokens :: u64
  ur_estimated :: bool
  ur_status_code :: nat
  ur_latency_ms :: u64
  ur_created_at :: str

record usage_event_filters =
  uf_user_id :: "uuid option"
  uf_daemon_node_id :: "uuid option"
  uf_host_user_id :: "uuid option"
  uf_created_after :: "str option"
  uf_created_before :: "str option"
  uf_include_daemon_node_id :: bool
  uf_limit :: "i64 option"
  uf_offset :: "i64 option"

definition normalize_limit :: "i64 option \<Rightarrow> app_error + i64" where
  "normalize_limit limit = (let v = (case limit of None \<Rightarrow> 100 | Some v \<Rightarrow> v) in
     if v \<le> 0 then Inl (InvalidConfig (lit ''usage.limit'') (lit ''limit must be positive''))
     else Inr (min v 500))"

definition normalize_offset :: "i64 option \<Rightarrow> i64" where
  "normalize_offset offset = max (case offset of None \<Rightarrow> 0 | Some v \<Rightarrow> v) 0"

definition out_of_range :: str where
  "out_of_range = lit ''out of range integral type conversion attempted''"

definition parse_status_code :: "i64 \<Rightarrow> app_error + nat" where
  "parse_status_code v =
     (if 0 \<le> v \<and> v < 65536 then Inr (nat v)
      else Inl (infra ''invalid status code in usage event: '' out_of_range))"

definition parse_optional_uuid :: "(str \<Rightarrow> str + uuid) \<Rightarrow> str option \<Rightarrow> app_error + uuid option" where
  "parse_optional_uuid parse v = (case v of
      None \<Rightarrow> Inr None
    | Some raw \<Rightarrow>
        if trim raw = [] then Inr None
        else and_then (map_err (infra ''invalid uuid in usage event payload: '') (parse (trim raw)))
               (\<lambda>u. Inr (Some u)))"

definition to_u64 :: "i64 \<Rightarrow> app_error + u64" where
  "to_u64 v = (if 0 \<le> v then Inr (of_int v)
     else Inl (infra ''invalid numeric value in usage event payload: '' out_of_range))"

text \<open>The \<open>SELECT\<close> with its optional join and its optional conditions.\<close>

definition select_usage_events :: "usage_event_filters \<Rightarrow> i64 \<Rightarrow> i64 \<Rightarrow> database \<Rightarrow> usage_row list" where
  "select_usage_events f limit offset d =
     (let joined = (case uf_host_user_id f of
            None \<Rightarrow> usage_events d
          | Some h \<Rightarrow> [r. r \<leftarrow> usage_events d, n \<leftarrow> daemon_nodes d,
                         ue_daemon_node_id r = Some (dn_id n), dn_host_user_id n = Some h]);
          wanted = filter (\<lambda>r.
            (case uf_user_id f of None \<Rightarrow> True | Some u \<Rightarrow> ue_user_id r = Some u)
          \<and> (case uf_daemon_node_id f of None \<Rightarrow> True | Some n \<Rightarrow> ue_daemon_node_id r = Some n)
          \<and> (case uf_created_after f of None \<Rightarrow> True | Some t \<Rightarrow> str_le t (ue_created_at r))
          \<and> (case uf_created_before f of None \<Rightarrow> True | Some t \<Rightarrow> str_le (ue_created_at r) t)) joined
      in take (nat limit) (drop (nat offset) (order_by_desc ue_created_at wanted)))"

definition usage_response_of ::
  "(str \<Rightarrow> str + uuid) \<Rightarrow> bool \<Rightarrow> usage_row \<Rightarrow> app_error + usage_event_response" where
  "usage_response_of parse include_daemon_node_id row =
     and_then (map_err (infra ''invalid usage event id: '') (parse (ue_id row))) (\<lambda>eid.
     and_then (map_err (infra ''invalid request id in usage event: '') (parse (ue_request_id row))) (\<lambda>rid.
     and_then (parse_optional_uuid parse (ue_user_id row)) (\<lambda>user.
     and_then (parse_optional_uuid parse (ue_api_key_id row)) (\<lambda>api_key.
     and_then (parse_optional_uuid parse (ue_provider_id row)) (\<lambda>provider.
     and_then (parse_optional_uuid parse (ue_route_id row)) (\<lambda>route.
     and_then (if include_daemon_node_id then parse_optional_uuid parse (ue_daemon_node_id row)
               else Inr None) (\<lambda>node.
     and_then (to_u64 (ue_prompt_tokens row)) (\<lambda>pt.
     and_then (to_u64 (ue_completion_tokens row)) (\<lambda>ct.
     and_then (to_u64 (ue_total_tokens row)) (\<lambda>tt.
     and_then (parse_status_code (ue_status_code row)) (\<lambda>st.
     and_then (to_u64 (ue_latency_ms row)) (\<lambda>latency.
     Inr \<lparr>ur_id = eid, ur_request_id = rid, ur_user_id = user, ur_api_key_id = api_key,
          ur_provider_id = provider, ur_route_id = route, ur_daemon_node_id = node,
          ur_model = ue_model row, ur_prompt_tokens = pt, ur_completion_tokens = ct,
          ur_total_tokens = tt, ur_estimated = (ue_estimated row \<noteq> 0), ur_status_code = st,
          ur_latency_ms = latency, ur_created_at = ue_created_at row\<rparr>))))))))))))"

definition list_usage_events :: "usage_event_filters \<Rightarrow> usage_event_response list op" where
  "list_usage_events f =
     bind_op (of_result (normalize_limit (uf_limit f))) (\<lambda>limit.
     bind_op (err_op Infrastructure (exec (query_stmt
         (select_usage_events f limit (normalize_offset (uf_offset f)))))) (\<lambda>rows w.
     (collect_results (usage_response_of (parse_uuid (env w)) (uf_include_daemon_node_id f)) rows, w)))"

record usage_query =
  uq_limit :: "i64 option"
  uq_offset :: "i64 option"

definition list_usage :: "uuid \<Rightarrow> usage_query \<Rightarrow> usage_event_response list handler" where
  "list_usage identity_user_id q = err_op from_app_error (list_usage_events
     \<lparr>uf_user_id = Some identity_user_id, uf_daemon_node_id = None, uf_host_user_id = None,
      uf_created_after = None, uf_created_before = None, uf_include_daemon_node_id = False,
      uf_limit = uq_limit q, uf_offset = uq_offset q\<rparr>)"

record admin_usage_query =
  aq_user_id :: "uuid option"
  aq_daemon_node_id :: "uuid option"
  aq_host_user_id :: "uuid option"
  aq_created_after :: "str option"
  aq_created_before :: "str option"
  aq_limit :: "i64 option"
  aq_offset :: "i64 option"

definition list_usage_admin :: "admin_usage_query \<Rightarrow> usage_event_response list handler" where
  "list_usage_admin q = err_op from_app_error (list_usage_events
     \<lparr>uf_user_id = aq_user_id q, uf_daemon_node_id = aq_daemon_node_id q,
      uf_host_user_id = aq_host_user_id q, uf_created_after = aq_created_after q,
      uf_created_before = aq_created_before q, uf_include_daemon_node_id = True,
      uf_limit = aq_limit q, uf_offset = aq_offset q\<rparr>)"

section \<open>Wallet facts\<close>

definition wallets_ok :: "outside \<Rightarrow> database \<Rightarrow> bool" where
  "wallets_ok out d \<longleftrightarrow> distinct (map w_id (wallets d)) \<and> (\<forall>r \<in> set (wallets d). uuid_ok out (w_id r))"

definition has_wallet :: "database \<Rightarrow> uuid \<Rightarrow> uuid \<Rightarrow> i64 \<Rightarrow> bool" where
  "has_wallet d user_id wallet_id balance \<longleftrightarrow>
     (\<exists>r \<in> set (wallets d). w_owner_user_id r = user_id \<and> w_id r = wallet_id \<and> w_balance r = balance)"

text \<open>The tables with, possibly, a new empty wallet for a user that had none.\<close>

definition wallet_opened :: "uuid \<Rightarrow> database \<Rightarrow> database \<Rightarrow> bool" where
  "wallet_opened user_id d d' \<longleftrightarrow> d' = d \<or>
     (user_id \<notin> w_owner_user_id ` set (wallets d) \<and>
      (\<exists>row. w_owner_user_id row = user_id \<and> w_balance row = 0 \<and> w_id row \<notin> w_id ` set (wallets d)
         \<and> d' = d\<lparr>wallets := wallets d @ [row]\<rparr>))"

lemma select_wallet_Some:
  "select_wallet u d = Some (t, b) \<Longrightarrow> \<exists>r \<in> set (wallets d). w_owner_user_id r = u \<and> w_id r = t \<and> w_balance r = b"
proof -
  assume a: "select_wallet u d = Some (t, b)"
  then obtain r rs where
    r: "order_by_desc w_created_at (filter (\<lambda>r. w_owner_user_id r = u) (wallets d)) = r # rs"
      "t = w_id r" "b = w_balance r"
    by (auto simp: select_wallet_def split: list.splits)
  have "set (r # rs) = set (filter (\<lambda>r. w_owner_user_id r = u) (wallets d))"
    by (simp only: r(1) [symmetric] set_order_by_desc)
  then show ?thesis using r by auto
qed

lemma select_wallet_None: "select_wallet u d = None \<longleftrightarrow> u \<notin> w_owner_user_id ` set (wallets d)"
proof -
  let ?rows = "filter (\<lambda>r. w_owner_user_id r = u) (wallets d)"
  have "select_wallet u d = None \<longleftrightarrow> length (order_by_desc w_created_at ?rows) = 0"
    by (auto simp: select_wallet_def split: list.splits)
  then show ?thesis by (auto simp: filter_empty_conv)
qed

lemma wallet_openedI:
  "u \<notin> w_owner_user_id ` set (wallets d) \<Longrightarrow> wid \<notin> w_id ` set (wallets d) \<Longrightarrow>
   wallet_opened u d (d\<lparr>wallets := wallets d @ [\<lparr>w_id = wid, w_owner_user_id = u, w_balance = 0,
     w_created_at = a, w_updated_at = b\<rparr>]\<rparr>)"
  unfolding wallet_opened_def
  by (rule disjI2, rule conjI, assumption, rule exI [of _ "\<lparr>w_id = wid, w_owner_user_id = u,
      w_balance = 0, w_created_at = a, w_updated_at = b\<rparr>"]) simp

lemma ensure_in_tx_frame:
  "ensure_wallet_in_tx u w = (r, w') \<Longrightarrow> env w' = env w \<and> db w' = db w"
  by (erule keeps_frame) (auto simp: ensure_wallet_in_tx_def intro!: keeps_intros)

lemma ensure_in_tx_ok:
  assumes run: "ensure_wallet_in_tx u w = (Inr x, w')"
    and ok: "wallets_ok (env w) (tx w)" "fresh_ok (env w)"
  shows "wallet_opened u (tx w) (tx w')" "wallets_ok (env w) (tx w')" "wal_owner_user_id x = u"
    "has_wallet (tx w') u (wal_id x) (wal_balance x)"
proof -
  obtain t where p: "wallet_opened u (tx w) (tx w')" "wallets_ok (env w) (tx w')"
    "wal_owner_user_id x = u" "select_wallet u (tx w') = Some (t, wal_balance x)"
    "parse_uuid (env w) t = Inr (wal_id x)"
  proof (cases "select_wallet u (tx w)")
    case (Some tb)
    then show ?thesis
      using run ok that
      by (auto simp: ensure_wallet_in_tx_def op_results stmt_results query_stmt_def wallet_opened_def
          split: prod.splits)
  next
    case None
    then obtain wid now where w': "tx w' = (tx w)\<lparr>wallets := wallets (tx w) @ [\<lparr>w_id = wid,
        w_owner_user_id = u, w_balance = 0, w_created_at = now, w_updated_at = now\<rparr>]\<rparr>"
      "uuid_ok (env w) wid" "wid \<notin> w_id ` set (wallets (tx w))" "wal_owner_user_id x = u"
      "\<exists>t. select_wallet u (tx w') = Some (t, wal_balance x) \<and> parse_uuid (env w) t = Inr (wal_id x)"
      using run ok None None [unfolded select_wallet_None]
      by (auto simp: ensure_wallet_in_tx_def op_results stmt_results query_stmt_def insert_wallet_def
          fresh_ok_def split: option.splits if_splits prod.splits)
    then show ?thesis
      using that ok wallet_openedI [OF None [unfolded select_wallet_None] w'(3)]
      by (auto simp: wallets_ok_def)
  qed
  then show "wallet_opened u (tx w) (tx w')" "wallets_ok (env w) (tx w')" "wal_owner_user_id x = u"
    by simp_all
  obtain r where "r \<in> set (wallets (tx w'))" "w_owner_user_id r = u" "w_id r = t"
    "w_balance r = wal_balance x"
    using select_wallet_Some [OF p(4)] by blast
  then show "has_wallet (tx w') u (wal_id x) (wal_balance x)"
    using p(2,5) by (auto simp: has_wallet_def wallets_ok_def uuid_ok_def)
qed

section \<open>The account book of the database\<close>

definition wallet_balance :: "database \<Rightarrow> uuid \<Rightarrow> int" where
  "wallet_balance d wallet_id =
     (case find (\<lambda>r. w_id r = wallet_id) (wallets d) of None \<Rightarrow> 0 | Some r \<Rightarrow> w_balance r)"

definition ledger_history :: "database \<Rightarrow> uuid \<Rightarrow> int list" where
  "ledger_history d wallet_id = map l_delta (filter (\<lambda>r. l_wallet_id r = wallet_id) (credit_ledger d))"

text \<open>The two statements every movement consists of: the ledger row and the new balance.\<close>

definition post_entry :: "ledger_row \<Rightarrow> database \<Rightarrow> database" where
  "post_entry e d = d\<lparr>credit_ledger := credit_ledger d @ [e],
     wallets := fst (update_rows (\<lambda>r. w_id r = l_wallet_id e)
       (\<lambda>r. r\<lparr>w_balance := l_balance_after e, w_updated_at := l_created_at e\<rparr>) (wallets d))\<rparr>"

definition entry_valid :: "database \<Rightarrow> ledger_row \<Rightarrow> bool" where
  "entry_valid d e \<longleftrightarrow> l_wallet_id e \<in> w_id ` set (wallets d)
     \<and> l_balance_after e = wallet_balance d (l_wallet_id e) + l_delta e"

lemma find_update_rows:
  "(\<And>r. w_id (f r) = w_id r) \<Longrightarrow>
   find (\<lambda>r. w_id r = k) (fst (update_rows (\<lambda>r. w_id r = a) f rows))
     = map_option (\<lambda>r. if k = a then f r else r) (find (\<lambda>r. w_id r = k) rows)"
  by (induction rows) (auto simp: update_rows_def)

interpretation book: ledger_book wallet_balance ledger_history post_entry l_wallet_id l_delta entry_valid
proof unfold_locales
  fix d e k
  assume "entry_valid d e"
  then have v: "\<exists>r. find (\<lambda>r. w_id r = l_wallet_id e) (wallets d) = Some r"
    "l_balance_after e = wallet_balance d (l_wallet_id e) + l_delta e"
    using find_ex [of "l_wallet_id e" w_id "wallets d"] unfolding entry_valid_def by blast+
  show "wallet_balance (post_entry e d) k = wallet_balance d k + (if k = l_wallet_id e then l_delta e else 0)"
    using v by (auto simp: wallet_balance_def post_entry_def find_update_rows split: option.splits)
  show "ledger_history (post_entry e d) k = ledger_history d k @ (if k = l_wallet_id e then [l_delta e] else [])"
    by (simp add: ledger_history_def post_entry_def)
qed

text \<open>The state of the books that every operation is to keep.\<close>

definition books_ok :: "outside \<Rightarrow> database \<Rightarrow> bool" where
  "books_ok out d \<longleftrightarrow> wallets_ok out d
     \<and> (\<forall>r \<in> set (wallets d). 0 \<le> w_balance r \<and> w_balance r \<le> i64_max)
     \<and> (\<forall>k. wallet_balance d k = sum_list (ledger_history d k))"

lemma books_ok_reconciled: "books_ok out d \<Longrightarrow> book.reconciled d"
  by (simp add: books_ok_def book.reconciled_def)

lemma books_ok_wallets: "books_ok out d \<Longrightarrow> wallets_ok out d"
  by (simp add: books_ok_def)

lemma wallet_balance_has:
  assumes "wallets_ok out d" "has_wallet d u k b"
  shows "wallet_balance d k = b" "k \<in> w_id ` set (wallets d)"
proof -
  obtain r where r: "r \<in> set (wallets d)" "w_id r = k" "w_balance r = b"
    using assms(2) by (auto simp: has_wallet_def)
  then have "find (\<lambda>r. w_id r = k) (wallets d) = Some r"
    using assms(1) find_distinct [of w_id "wallets d" r] by (simp add: wallets_ok_def)
  then show "wallet_balance d k = b" using r by (simp add: wallet_balance_def)
  show "k \<in> w_id ` set (wallets d)" using r by blast
qed

lemma wallet_opened_books:
  assumes "wallet_opened u d d'" "books_ok out d" "wallets_ok out d'"
  shows "books_ok out d'"
proof -
  have "wallet_balance d' k = wallet_balance d k" "ledger_history d' k = ledger_history d k" for k
    using assms(1)
    by (auto simp: wallet_opened_def wallet_balance_def ledger_history_def find_append
        split: option.splits if_splits)
  then show ?thesis using assms by (auto simp: books_ok_def wallet_opened_def i64_max_def)
qed

lemma post_entry_books:
  assumes "books_ok out d" "entry_valid d e" "0 \<le> l_balance_after e" "l_balance_after e \<le> i64_max"
  shows "books_ok out (post_entry e d)"
  using book.reconciled_post [OF books_ok_reconciled [OF assms(1)] assms(2)] assms
  by (auto simp: books_ok_def book.reconciled_def wallets_ok_def post_entry_def update_rows_def o_def
      if_distrib cong: if_cong)

text \<open>Writing usage events, logs or audits leaves the books alone.\<close>

lemma books_other_tables [simp]:
  "books_ok out (d\<lparr>usage_events := x\<rparr>) = books_ok out d"
  "books_ok out (d\<lparr>request_logs := y\<rparr>) = books_ok out d"
  "books_ok out (d\<lparr>admin_audit_logs := z\<rparr>) = books_ok out d"
  by (simp_all add: books_ok_def wallets_ok_def wallet_balance_def ledger_history_def)

section \<open>What the operations do\<close>

lemma insert_usage_frame: "keeps (on_db out (\<lambda>d. Q (d\<lparr>usage_events := []\<rparr>))) (insert_usage_event i st)"
  unfolding insert_usage_event_def
  by (intro keeps_intros keeps_exec) (auto simp: insert_usage_row_def split: if_splits)

text \<open>One usage event with the status is added, and nothing else.\<close>

definition usage_logged :: "billing_input \<Rightarrow> nat \<Rightarrow> database \<Rightarrow> database \<Rightarrow> bool" where
  "usage_logged i st d d' \<longleftrightarrow> (\<exists>event_id now row. usage_row_of i st event_id now = Inr row
     \<and> d' = d\<lparr>usage_events := usage_events d @ [row]\<rparr>)"

lemma usage_loggedI:
  "usage_row_of i st event_id now = Inr row \<Longrightarrow>
   usage_logged i st d (d\<lparr>usage_events := usage_events d @ [row]\<rparr>)"
  by (auto simp: usage_logged_def simp del: database.update_convs intro!: exI)

lemma insert_usage_ok:
  "insert_usage_event i st w = (Inr u, w') \<Longrightarrow> env w' = env w \<and> usage_logged i st (db w) (db w')"
  by (auto simp: insert_usage_event_def op_results stmt_results insert_usage_row_def
      intro: usage_loggedI split: if_splits)

lemma insert_usage_err:
  "insert_usage_event i st w = (Inl e, w') \<Longrightarrow> env w' = env w \<and> db w' = db w"
  by (erule clean_frame) (unfold insert_usage_event_def, intro clean_intros keeps_intros)

lemma insert_usage_tx_ok:
  "insert_usage_event_tx i st w = (Inr u, w') \<Longrightarrow>
     env w' = env w \<and> db w' = db w \<and> usage_logged i st (tx w) (tx w')"
  by (auto simp: insert_usage_event_tx_def op_results stmt_results insert_usage_row_def
      intro: usage_loggedI split: if_splits)

lemma post_entry_steps:
  "insert_ledger e d = Some (d1, ()) \<Longrightarrow>
   set_wallet_balance (l_wallet_id e) (l_balance_after e) (l_created_at e) d1 = Some (d2, n)
     \<Longrightarrow> d2 = post_entry e d"
  by (auto simp: insert_ledger_def set_wallet_balance_def post_entry_def split: if_splits prod.splits)

lemma grant_in_tx_ok:
  assumes run: "grant_in_tx u a reason w = (Inr (x, nb), w')"
    and ok: "wallets_ok (env w) (db w)" "fresh_ok (env w)"
  shows "env w' = env w"
    "\<exists>d1 e. wallet_opened u (db w) d1 \<and> wallets_ok (env w) d1
       \<and> has_wallet d1 u (wal_id x) (wal_balance x) \<and> l_wallet_id e = wal_id x \<and> l_delta e = a
       \<and> l_balance_after e = nb \<and> l_request_id e = None \<and> db w' = post_entry e d1"
    "nb = i64_saturating_add (wal_balance x) a"
proof -
  obtain w2 lid now d1 d2 n where
    ens: "ensure_wallet_in_tx u ((tick_world w)\<lparr>tx := db w\<rparr>) = (Inr x, w2)"
    and st: "insert_ledger \<lparr>l_id = lid, l_wallet_id = wal_id x, l_request_id = None, l_delta = a,
          l_balance_after = nb, l_reason = reason, l_created_at = now\<rparr> (tx w2) = Some (d1, ())"
      "set_wallet_balance (wal_id x) nb now d1 = Some (d2, n)"
    and fin: "db w' = d2" "env w' = env w2"
    and nb: "nb = i64_saturating_add (wal_balance x) a"
    using run by (auto simp: grant_in_tx_def op_results stmt_results)
  define e where "e = \<lparr>l_id = lid, l_wallet_id = wal_id x, l_request_id = None, l_delta = a,
          l_balance_after = nb, l_reason = reason, l_created_at = now\<rparr>"
  have e: "l_wallet_id e = wal_id x" "l_delta e = a" "l_balance_after e = nb" "l_request_id e = None"
    "l_created_at e = now"
    by (simp_all add: e_def)
  have w1: "wallets_ok (env ((tick_world w)\<lparr>tx := db w\<rparr>)) (tx ((tick_world w)\<lparr>tx := db w\<rparr>))"
    "fresh_ok (env ((tick_world w)\<lparr>tx := db w\<rparr>))"
    using ok by simp_all
  note ens_ok = ensure_in_tx_ok [OF ens w1, simplified] and fr = ensure_in_tx_frame [OF ens]
  show "env w' = env w" using fin fr by simp
  show "nb = i64_saturating_add (wal_balance x) a" by (fact nb)
  have "db w' = post_entry e (tx w2)"
    using post_entry_steps [of e "tx w2" d1 d2 n] st fin e by (simp flip: e_def)
  then show "\<exists>d1 e. wallet_opened u (db w) d1 \<and> wallets_ok (env w) d1
       \<and> has_wallet d1 u (wal_id x) (wal_balance x) \<and> l_wallet_id e = wal_id x \<and> l_delta e = a
       \<and> l_balance_after e = nb \<and> l_request_id e = None \<and> db w' = post_entry e d1"
    using ens_ok e by (intro exI [of _ "tx w2"] exI [of _ e]) simp
qed

lemma grant_in_tx_err: "grant_in_tx u a reason w = (Inl e, w') \<Longrightarrow> env w' = env w \<and> db w' = db w"
  by (erule clean_frame)
    (auto simp: grant_in_tx_def ensure_wallet_in_tx_def intro!: clean_intros keeps_intros)

lemma charge_in_tx_err:
  "charge_in_tx i charge x w = (Inl e, w') \<Longrightarrow> env w' = env w \<and> db w' = db w"
  by (erule clean_frame) (unfold charge_in_tx_def insert_usage_event_tx_def,
      intro clean_intros keeps_intros)

lemma charge_in_tx_ok:
  assumes run: "charge_in_tx i charge x w = (Inr u, w')"
  shows "\<exists>e d1. l_wallet_id e = wal_id x \<and> l_delta e = - charge \<and> l_balance_after e = wal_balance x - charge
     \<and> l_request_id e = Some (bi_request_id i) \<and> d1 = post_entry e (tx w)
     \<and> usage_logged i (bi_status_code i) d1 (db w') \<and> env w' = env w"
proof -
  let ?e = "\<lambda>lid now. \<lparr>l_id = lid, l_wallet_id = wal_id x, l_request_id = Some (bi_request_id i),
          l_delta = - charge, l_balance_after = wal_balance x - charge,
          l_reason = lit ''usage_charge'', l_created_at = now\<rparr>"
  obtain lid now d1 d2 n w3 w4 where
    st: "insert_ledger (?e lid now) (tx w) = Some (d1, ())"
      "set_wallet_balance (wal_id x) (wal_balance x - charge) now d1 = Some (d2, n)"
    and ins: "insert_usage_event_tx i (bi_status_code i) (w3\<lparr>tx := d2\<rparr>) = (Inr (), w4)"
    and w3: "env w3 = env w"
    and fin: "db w' = tx w4" "env w' = env w4"
    using run by (auto simp: charge_in_tx_def op_results stmt_results)
  have "d2 = post_entry (?e lid now) (tx w)"
    using post_entry_steps [of "?e lid now" "tx w" d1 d2 n] st by simp
  then show ?thesis
    using insert_usage_tx_ok [OF ins] w3 fin
    by (intro exI [of _ "?e lid now"] exI [of _ d2]) simp
qed

lemma record_usage_free:
  assumes "record_usage i w = (r, w')"
    and "\<not> (is_success_status (bi_status_code i) \<and> 0 < charge_total (usage_charge_of i))"
  shows "env w' = env w
    \<and> (case r of Inr _ \<Rightarrow> usage_logged i (bi_status_code i) (db w) (db w') | Inl _ \<Rightarrow> db w' = db w)"
proof -
  have run: "insert_usage_event i (bi_status_code i) w = (r, w')"
    using assms by (simp add: record_usage_def split: if_splits)
  show ?thesis
  proof (cases r)
    case (Inl e)
    then show ?thesis using insert_usage_err [OF run [unfolded Inl]] by simp
  next
    case (Inr u)
    then show ?thesis using insert_usage_ok [OF run [unfolded Inr]] by simp
  qed
qed

lemma record_usage_error:
  assumes run: "record_usage i w = (Inl e, w')"
    and chargeable: "is_success_status (bi_status_code i)" "0 < charge_total (usage_charge_of i)"
  shows "env w' = env w \<and> (db w' = db w
    \<or> e = InsufficientCredit \<and> usage_logged (i\<lparr>bi_status_code := 402\<rparr>) 402 (db w) (db w'))"
proof (cases "begin_tx w")
  case (Pair b w1)
  show ?thesis
  proof (cases b)
    case (Inl m)
    then show ?thesis
      using run chargeable Pair begin_tx_Inl [of w m w1]
      by (auto simp: record_usage_def op_results)
  next
    case (Inr v)
    then have w1: "w1 = (tick_world w)\<lparr>tx := db w\<rparr>" using Pair by (simp add: begin_tx_Inr)
    obtain y w2 where y: "ensure_wallet_in_tx (bi_user_id i) w1 = (y, w2)" by fastforce
    then have fr: "env w2 = env w" "db w2 = db w" using ensure_in_tx_frame w1 by fastforce+
    have "(\<exists>x. y = Inr x \<and> charge_in_tx i (charge_total (usage_charge_of i)) x w2 = (Inl e, w'))
      \<or> y = Inl e \<and> w' = w2
      \<or> bind_op (insert_usage_event (i\<lparr>bi_status_code := 402\<rparr>) 402) (\<lambda>_. throw InsufficientCredit) w2 = (Inl e, w')"
      using run chargeable Pair Inr y by (auto simp: record_usage_def op_results split: if_splits)
    then consider x where "charge_in_tx i (charge_total (usage_charge_of i)) x w2 = (Inl e, w')"
      | "w' = w2"
      | "insert_usage_event (i\<lparr>bi_status_code := 402\<rparr>) 402 w2 = (Inl e, w')"
      | "insert_usage_event (i\<lparr>bi_status_code := 402\<rparr>) 402 w2 = (Inr (), w')" "e = InsufficientCredit"
      by (auto simp: bind_Inl)
    then show ?thesis
      by cases (use fr in \<open>auto dest: charge_in_tx_err insert_usage_err insert_usage_ok\<close>)
  qed
qed

lemma record_usage_charged:
  assumes run: "record_usage i w = (Inr u, w')"
    and chargeable: "is_success_status (bi_status_code i)" "0 < charge_total (usage_charge_of i)"
    and ok: "wallets_ok (env w) (db w)" "fresh_ok (env w)"
  shows "env w' = env w \<and> (\<exists>d1 d2 e b. wallet_opened (bi_user_id i) (db w) d1 \<and> wallets_ok (env w) d1
     \<and> has_wallet d1 (bi_user_id i) (l_wallet_id e) b \<and> charge_total (usage_charge_of i) \<le> b
     \<and> l_delta e = - charge_total (usage_charge_of i)
     \<and> l_balance_after e = b - charge_total (usage_charge_of i)
     \<and> l_request_id e = Some (bi_request_id i) \<and> d2 = post_entry e d1
     \<and> usage_logged i (bi_status_code i) d2 (db w'))"
proof -
  obtain x w2 where
    ens: "ensure_wallet_in_tx (bi_user_id i) ((tick_world w)\<lparr>tx := db w\<rparr>) = (Inr x, w2)"
    and b: "charge_total (usage_charge_of i) \<le> wal_balance x"
    and ch: "charge_in_tx i (charge_total (usage_charge_of i)) x w2 = (Inr u, w')"
    using run chargeable
    by (auto simp: record_usage_def op_results stmt_results split: if_splits)
  have w1: "wallets_ok (env ((tick_world w)\<lparr>tx := db w\<rparr>)) (tx ((tick_world w)\<lparr>tx := db w\<rparr>))"
    "fresh_ok (env ((tick_world w)\<lparr>tx := db w\<rparr>))"
    using ok by simp_all
  note ens_ok = ensure_in_tx_ok [OF ens w1, simplified] and fr = ensure_in_tx_frame [OF ens]
  obtain e d2 where "l_wallet_id e = wal_id x" "l_delta e = - charge_total (usage_charge_of i)"
    "l_balance_after e = wal_balance x - charge_total (usage_charge_of i)"
    "l_request_id e = Some (bi_request_id i)" "d2 = post_entry e (tx w2)"
    "usage_logged i (bi_status_code i) d2 (db w')" "env w' = env w2"
    using charge_in_tx_ok [OF ch] by blast
  then show ?thesis
    using ens_ok fr b
    by (intro conjI exI [of _ "tx w2"] exI [of _ d2] exI [of _ e] exI [of _ "wal_balance x"]) simp_all
qed

section \<open>When nothing fails\<close>

text \<open>Counts and a latency that fit the columns, identifiers that no row has yet, and the event of a usage.\<close>

definition fits :: "token_usage \<Rightarrow> u64 \<Rightarrow> bool" where
  "fits u latency_ms \<longleftrightarrow> (\<forall>n \<in> {prompt_tokens u, completion_tokens u, total_tokens u, latency_ms}. uint n < 2 ^ 63)"

definition unused_ids :: "world \<Rightarrow> bool" where
  "unused_ids w \<longleftrightarrow> (\<forall>n \<ge> tick w. fresh (env w) n \<notin> ue_id ` set (usage_events (db w))
     \<and> fresh (env w) n \<notin> l_id ` set (credit_ledger (db w)))"

definition event_of :: "billing_input \<Rightarrow> usage_row \<Rightarrow> bool" where
  "event_of i row \<longleftrightarrow> ue_request_id row = bi_request_id i \<and> ue_user_id row = Some (bi_user_id i)
     \<and> ue_api_key_id row = bi_api_key_id i \<and> ue_provider_id row = bi_provider_id i \<and> ue_route_id row = bi_route_id i
     \<and> ue_daemon_node_id row = bi_daemon_node_id i \<and> ue_model row = bi_model i
     \<and> ue_prompt_tokens row = uint (prompt_tokens (bi_usage i))
     \<and> ue_completion_tokens row = uint (completion_tokens (bi_usage i))
     \<and> ue_status_code row = int (bi_status_code i)"

lemma unused_later: "unused_ids w \<Longrightarrow> env w' = env w \<Longrightarrow> db w' = db w \<Longrightarrow> tick w \<le> tick w' \<Longrightarrow> unused_ids w'"
  by (auto simp: unused_ids_def)

lemma usage_row_fits:
  "fits (bi_usage i) (bi_latency_ms i) \<Longrightarrow> \<exists>row. usage_row_of i st event_id now = Inr row \<and> ue_id row = event_id
    \<and> (st = bi_status_code i \<longrightarrow> event_of i row)"
  by (simp add: usage_row_of_def fits_def i64_try_from_u64_def event_of_def)

lemma record_free_usage:
  assumes "quiet w" "charge_total (usage_charge_of i) \<le> 0" "fits (bi_usage i) (bi_latency_ms i)"
    and "\<And>n. tick w \<le> n \<Longrightarrow> fresh (env w) n \<notin> ue_id ` set (usage_events (db w))"
  shows "\<exists>row w'. record_usage i w = (Inr (), w') \<and> env w' = env w \<and> event_of i row
    \<and> db w' = (db w)\<lparr>usage_events := usage_events (db w) @ [row]\<rparr>"
proof -
  obtain row where row: "usage_row_of i (bi_status_code i) (fresh (env w) (Suc (tick w))) (show_nat (clock (env w) (tick w)))
      = Inr row" "ue_id row = fresh (env w) (Suc (tick w))" "event_of i row"
    using usage_row_fits [OF assms(3)] by blast
  then show ?thesis
    using assms(1,2,4)
    by (intro exI [of _ row]) (simp add: record_usage_def insert_usage_event_def run_simps quiet_def tick_world_def insert_usage_row_def)
qed

lemma ensure_wallet_present:
  assumes "quiet w" "select_wallet u (tx w) = Some (k, b)" "uuid_ok (env w) k"
  shows "ensure_wallet_in_tx u w = (Inr \<lparr>wal_id = k, wal_owner_user_id = u, wal_balance = b\<rparr>, tick_world w)"
  using assms by (simp add: ensure_wallet_in_tx_def run_simps quiet_def uuid_ok_def tick_world_def)

lemma record_paid_usage:
  assumes "quiet w" "is_success_status (bi_status_code i)" "0 < charge_total (usage_charge_of i)"
    and wallet: "select_wallet (bi_user_id i) (db w) = Some (k, b)" "uuid_ok (env w) k" "charge_total (usage_charge_of i) \<le> b"
    and "fits (bi_usage i) (bi_latency_ms i)" "unused_ids w"
  shows "\<exists>e row w'. record_usage i w = (Inr (), w') \<and> env w' = env w \<and> event_of i row
    \<and> db w' = (post_entry e (db w))\<lparr>usage_events := usage_events (db w) @ [row]\<rparr> \<and> l_wallet_id e = k
    \<and> l_delta e = - charge_total (usage_charge_of i) \<and> l_balance_after e = b - charge_total (usage_charge_of i)
    \<and> l_request_id e = Some (bi_request_id i)"
proof -
  let ?c = "charge_total (usage_charge_of i)" and ?n = "Suc (Suc (tick w))"
  let ?now = "show_nat (clock (env w) ?n)" and ?id = "fresh (env w) (Suc (Suc (Suc (Suc (Suc ?n)))))"
  obtain row where row: "usage_row_of i (bi_status_code i) ?id (show_nat (clock (env w) (Suc (Suc (Suc (Suc ?n)))))) = Inr row"
      "ue_id row = ?id" "event_of i row"
    using usage_row_fits [OF assms(7)] by blast
  let ?e = "\<lparr>l_id = fresh (env w) (Suc ?n), l_wallet_id = k, l_request_id = Some (bi_request_id i), l_delta = - ?c,
    l_balance_after = b - ?c, l_reason = lit ''usage_charge'', l_created_at = ?now\<rparr>"
  have w1: "ensure_wallet_in_tx (bi_user_id i) ((tick_world w)\<lparr>tx := db w\<rparr>)
      = (Inr \<lparr>wal_id = k, wal_owner_user_id = bi_user_id i, wal_balance = b\<rparr>, tick_world ((tick_world w)\<lparr>tx := db w\<rparr>))"
    using assms(1) wallet(1,2) by (intro ensure_wallet_present) (simp_all add: quiet_def)
  have "\<exists>w'. record_usage i w = (Inr (), w') \<and> env w' = env w
      \<and> db w' = (post_entry ?e (db w))\<lparr>usage_events := usage_events (db w) @ [row]\<rparr>"
    using assms(1-3,8) wallet(3) w1 row(1,2)
    by (simp add: record_usage_def charge_in_tx_def insert_usage_event_tx_def run_simps quiet_def tick_world_def insert_usage_row_def
        insert_ledger_def set_wallet_balance_def post_entry_def unused_ids_def)
  then show ?thesis using row(3) by (intro exI [of _ ?e]) auto
qed

lemma credit_check_passes:
  assumes "quiet w" "select_wallet u (db w) = Some (k, b)" "uuid_ok (env w) k"
    and "charge_total (calculate_usage_charge (charge_input_of usage) price) \<le> b"
  shows "\<exists>w'. ensure_sufficient_credit u usage price w = (Inr (), w') \<and> env w' = env w \<and> db w' = db w \<and> tick w \<le> tick w'"
proof -
  have "ensure_wallet_in_tx u ((tick_world w)\<lparr>tx := db w\<rparr>)
      = (Inr \<lparr>wal_id = k, wal_owner_user_id = u, wal_balance = b\<rparr>, tick_world ((tick_world w)\<lparr>tx := db w\<rparr>))"
    using assms(1-3) by (intro ensure_wallet_present) (simp_all add: quiet_def)
  then show ?thesis
    using assms(1,4)
    by (simp add: ensure_sufficient_credit_def Let_def ensure_wallet_def run_simps quiet_def tick_world_def)
qed

section \<open>Properties\<close>

text \<open>C1. Recording the usage of a request settles it exactly once: after a success the wallet of
  the user, opened if need be, has paid exactly the charge in one ledger row that names the
  request, together with one usage event; a failed or free request adds the event only; a wallet
  that does not cover the charge is left alone and the event says 402; and any other error writes
  nothing at all. In every outcome, under any fault, each balance is the sum of its ledger and
  no balance is negative.\<close>

theorem record_usage_settles_once:
  assumes run: "record_usage i w = (r, w')"
    and ok: "books_ok (env w) (db w)" "fresh_ok (env w)"
  shows "books_ok (env w) (db w') \<and>
    (if is_success_status (bi_status_code i) \<and> 0 < charge_total (usage_charge_of i)
     then case r of
        Inr _ \<Rightarrow> \<exists>d1 e b. wallet_opened (bi_user_id i) (db w) d1
          \<and> has_wallet d1 (bi_user_id i) (l_wallet_id e) b
          \<and> charge_total (usage_charge_of i) \<le> b
          \<and> l_delta e = - charge_total (usage_charge_of i)
          \<and> l_balance_after e = b - charge_total (usage_charge_of i)
          \<and> l_request_id e = Some (bi_request_id i)
          \<and> usage_logged i (bi_status_code i) (post_entry e d1) (db w')
      | Inl e \<Rightarrow> db w' = db w
          \<or> e = InsufficientCredit \<and> usage_logged (i\<lparr>bi_status_code := 402\<rparr>) 402 (db w) (db w')
     else case r of Inr _ \<Rightarrow> usage_logged i (bi_status_code i) (db w) (db w') | Inl _ \<Rightarrow> db w' = db w)"
proof (cases "is_success_status (bi_status_code i) \<and> 0 < charge_total (usage_charge_of i)")
  case False
  then show ?thesis
    using record_usage_free [OF run False] ok by (auto simp: usage_logged_def split: sum.splits)
next
  case True
  show ?thesis
  proof (cases r)
    case (Inl e)
    then show ?thesis
      using record_usage_error [OF run [unfolded Inl]] True ok by (auto simp: usage_logged_def)
  next
    case (Inr u)
    obtain d1 d2 e b where c: "wallet_opened (bi_user_id i) (db w) d1" "wallets_ok (env w) d1"
      "has_wallet d1 (bi_user_id i) (l_wallet_id e) b" "charge_total (usage_charge_of i) \<le> b"
      "l_delta e = - charge_total (usage_charge_of i)"
      "l_balance_after e = b - charge_total (usage_charge_of i)"
      "l_request_id e = Some (bi_request_id i)" "d2 = post_entry e d1"
      "usage_logged i (bi_status_code i) d2 (db w')"
      using record_usage_charged [OF run [unfolded Inr]] True ok books_ok_wallets [OF ok(1)] by blast
    have b1: "books_ok (env w) d1" using wallet_opened_books [OF c(1) ok(1) c(2)] .
    have "entry_valid d1 e"
      using wallet_balance_has [OF c(2,3)] c by (simp add: entry_valid_def)
    moreover have "b \<le> i64_max" using b1 c(3) by (auto simp: books_ok_def has_wallet_def)
    ultimately have "books_ok (env w) d2"
      using post_entry_books [OF b1] c True by simp
    then have "books_ok (env w) (db w')" using c(9) by (auto simp: usage_logged_def)
    then show ?thesis using True Inr c by auto
  qed
qed

text \<open>A world without faults that starts with the given tables.\<close>

definition calm :: outside where
  "calm = \<lparr>fault = (\<lambda>_. None), clock = (\<lambda>n. 1700000000 + n), fresh = (\<lambda>n. [n]),
     parse_uuid = Inr, unique_violation = lit ''UNIQUE constraint failed'',
     json_to_string = (\<lambda>_. Some (lit ''{}'')), lowercase = to_ascii_lowercase\<rparr>"

definition calm_world :: "database \<Rightarrow> world" where
  "calm_world d = \<lparr>db = d, tx = empty_database, tick = 100, env = calm\<rparr>"

definition sample_wallet :: wallet_row where
  "sample_wallet = \<lparr>w_id = [1], w_owner_user_id = [2], w_balance = 500, w_created_at = [48],
     w_updated_at = [48]\<rparr>"

definition sample_books :: database where
  "sample_books = empty_database\<lparr>wallets := [sample_wallet], credit_ledger :=
     [\<lparr>l_id = [3], l_wallet_id = [1], l_request_id = None, l_delta = 500, l_balance_after = 500,
       l_reason = [], l_created_at = [48]\<rparr>]\<rparr>"

definition sample_input :: billing_input where
  "sample_input = \<lparr>bi_request_id = [9], bi_user_id = [2], bi_api_key_id = None,
     bi_provider_id = None, bi_route_id = None, bi_daemon_node_id = None, bi_model = [],
     bi_usage = \<lparr>prompt_tokens = 100, completion_tokens = 50, total_tokens = 150, estimated = False\<rparr>,
     bi_status_code = 200, bi_latency_ms = 7,
     bi_route_price = \<lparr>input_microcredits_per_1m_tokens = 1000000,
                       output_microcredits_per_1m_tokens = 2000000\<rparr>\<rparr>"

lemma calm_fresh [simp]: "fresh_ok calm"
  by (simp add: fresh_ok_def uuid_ok_def calm_def)

lemma calm_uuid [simp]: "uuid_ok calm u"
  by (simp add: uuid_ok_def calm_def)

lemma env_calm_world [simp]: "env (calm_world d) = calm" "db (calm_world d) = d"
  by (simp_all add: calm_world_def)

lemma sample_books_ok [simp]: "books_ok calm sample_books"
  by (auto simp: books_ok_def wallets_ok_def sample_books_def sample_wallet_def empty_database_def
      i64_max_def wallet_balance_def ledger_history_def)

lemma sample_charge [simp]: "charge_total (usage_charge_of sample_input) = 200"
  by (simp add: usage_charge_of_def sample_input_def charge_total_exact exact_charge_def
      charge_input_of_def ceil_div_nonneg as_i64_id in_i64_def)

lemmas billing_run = run_simps record_usage_def charge_in_tx_def insert_usage_event_tx_def
  insert_usage_event_def usage_row_of_def ensure_wallet_in_tx_def select_wallet_def
  set_wallet_balance_def insert_ledger_def insert_usage_row_def i64_try_from_u64_def
  is_success_status_def calm_world_def calm_def sample_books_def sample_wallet_def empty_database_def

lemma sample_run:
  "fst (record_usage sample_input (calm_world sample_books)) = Inr ()"
  "map w_balance (wallets (db (snd (record_usage sample_input (calm_world sample_books))))) = [300]"
  by (simp_all add: billing_run) (simp_all add: billing_run sample_input_def)

theorem record_usage_settles_once_witness:
  "fst (record_usage sample_input (calm_world sample_books)) = Inr ()
   \<and> map w_balance (wallets (db (snd (record_usage sample_input (calm_world sample_books))))) = [300]
   \<and> books_ok calm (db (snd (record_usage sample_input (calm_world sample_books))))"
  using sample_run record_usage_settles_once
    [where i = sample_input and w = "calm_world sample_books", OF prod.collapse [symmetric]]
  by simp

text \<open>Only audit rows differ.\<close>

definition audited :: "database \<Rightarrow> database \<Rightarrow> bool" where
  "audited d d' \<longleftrightarrow> d' = d\<lparr>admin_audit_logs := admin_audit_logs d'\<rparr>"

lemma audited_refl [simp]: "audited d d"
  by (simp add: audited_def)

lemma audited_books: "audited d d' \<Longrightarrow> books_ok out d' = books_ok out d"
  unfolding audited_def by (metis books_other_tables(3))

lemma audit_frame:
  "audit_or_warn a act et eid p w = (r, w') \<Longrightarrow> env w' = env w \<and> r = Inr () \<and> audited (db w) (db w')"
  by (auto simp: audit_or_warn_def serialize_payload_def record_admin_audit_def bind_op_def try_op_def
      ret_def err_op_def exec_def insert_audit_def audited_def
      split: option.splits sum.splits prod.splits if_splits)

lemma grant_in_tx_posts:
  assumes g: "grant_in_tx u amount reason w = (Inr (x, nb), w1)"
    and ok: "books_ok (env w) (db w)" "fresh_ok (env w)" and amount: "0 < amount" "amount \<le> i64_max"
    and room: "\<forall>x \<in> set (wallets (db w)). w_owner_user_id x = u \<longrightarrow> w_balance x + amount \<le> i64_max"
  shows "books_ok (env w) (db w1) \<and> (\<exists>d1 e b. wallet_opened u (db w) d1 \<and> has_wallet d1 u (l_wallet_id e) b
    \<and> l_wallet_id e = wal_id x \<and> l_delta e = amount \<and> l_balance_after e = b + amount \<and> nb = b + amount
    \<and> db w1 = post_entry e d1)"
proof -
  note gok = grant_in_tx_ok [OF g books_ok_wallets [OF ok(1)] ok(2)]
  obtain d1 e where d1: "wallet_opened u (db w) d1" "wallets_ok (env w) d1"
    "has_wallet d1 u (wal_id x) (wal_balance x)" "l_wallet_id e = wal_id x" "l_delta e = amount"
    "l_balance_after e = nb" "db w1 = post_entry e d1"
    using gok(2) by blast
  have b1: "books_ok (env w) d1" using wallet_opened_books [OF d1(1) ok(1) d1(2)] .
  have bal: "0 \<le> wal_balance x" "wal_balance x + amount \<le> i64_max"
    using b1 d1(1,3) amount(2) room by (auto simp: books_ok_def has_wallet_def wallet_opened_def)
  then have nb: "nb = wal_balance x + amount"
    using gok(3) amount(1) saturating_add_exact [of "wal_balance x" amount]
    by (simp add: in_i64_def i64_max_def)
  have "entry_valid d1 e"
    using wallet_balance_has [OF d1(2,3)] d1 nb by (simp add: entry_valid_def)
  then have "books_ok (env w) (db w1)"
    using post_entry_books [OF b1] d1 nb bal amount(1) by simp
  moreover have "\<exists>d1 e b. wallet_opened u (db w) d1 \<and> has_wallet d1 u (l_wallet_id e) b
    \<and> l_wallet_id e = wal_id x \<and> l_delta e = amount \<and> l_balance_after e = b + amount \<and> nb = b + amount
    \<and> db w1 = post_entry e d1"
    using d1 nb by (intro exI [of _ d1] exI [of _ e] exI [of _ "wal_balance x"]) simp
  ultimately show ?thesis by blast
qed



definition overflow_input :: billing_input where
  "overflow_input = \<lparr>bi_request_id = [9], bi_user_id = [2], bi_api_key_id = None,
     bi_provider_id = None, bi_route_id = None, bi_daemon_node_id = None, bi_model = [],
     bi_usage = \<lparr>prompt_tokens = 2 ^ 62, completion_tokens = 0, total_tokens = 2 ^ 62, estimated = False\<rparr>,
     bi_status_code = 200, bi_latency_ms = 7,
     bi_route_price = \<lparr>input_microcredits_per_1m_tokens = 4000000,
                       output_microcredits_per_1m_tokens = 0\<rparr>\<rparr>"

text \<open>A charge beyond \<open>i64\<close> is free: with \<open>2 ^ 62\<close> prompt tokens at four microcredits each
  the documented charge is \<open>2 ^ 64\<close> microcredits, the computed one is zero, the usage is recorded
  with the success status, and no wallet and no ledger ever changes.\<close>

theorem overflowing_charge_is_free:
  "exact_charge (charge_input_of (bi_usage overflow_input)) (bi_route_price overflow_input) = 2 ^ 64
   \<and> charge_total (usage_charge_of overflow_input) = 0
   \<and> fst (record_usage overflow_input (calm_world sample_books)) = Inr ()
   \<and> wallets (db (snd (record_usage overflow_input w))) = wallets (db w)
   \<and> credit_ledger (db (snd (record_usage overflow_input w))) = credit_ledger (db w)"
proof -
  have e: "exact_charge (charge_input_of (bi_usage overflow_input)) (bi_route_price overflow_input) = 2 ^ 64"
    by (simp add: exact_charge_def charge_input_of_def overflow_input_def ceil_div_nonneg ceil_div_def)
  then have z: "charge_total (usage_charge_of overflow_input) = 0"
    by (simp add: usage_charge_of_def charge_total_exact as_i64_def)
  obtain r w' where run: "record_usage overflow_input w = (r, w')" by fastforce
  have "wallets (db w') = wallets (db w) \<and> credit_ledger (db w') = credit_ledger (db w)"
    using record_usage_free [OF run] z by (auto simp: usage_logged_def split: sum.splits)
  moreover have "fst (record_usage overflow_input (calm_world sample_books)) = Inr ()"
    by (simp add: billing_run z) (simp add: billing_run overflow_input_def)
  ultimately show ?thesis using e z run by simp
qed

lemma ensure_in_tx_existing:
  "ensure_wallet_in_tx u w = (Inr x, w') \<Longrightarrow> select_wallet u (tx w) = Some (t, b) \<Longrightarrow> wal_balance x = b"
  by (auto simp: ensure_wallet_in_tx_def op_results stmt_results query_stmt_def)

lemma ensure_in_tx_select:
  "ensure_wallet_in_tx u w = (Inr x, w') \<Longrightarrow> \<exists>t. select_wallet u (tx w') = Some (t, wal_balance x)"
  by (auto simp: ensure_wallet_in_tx_def op_results stmt_results query_stmt_def
      split: option.splits prod.splits)

lemma no_credit_errors [errs_intros]:
  "errs (\<lambda>e. e \<noteq> InsufficientCredit) (ensure_wallet_in_tx u)"
  "errs (\<lambda>e. e \<noteq> InsufficientCredit) (insert_usage_event_tx i st)"
  unfolding ensure_wallet_in_tx_def insert_usage_event_tx_def
  by (auto intro!: errs_intros simp: infra_def insert_usage_error_def usage_row_of_def and_then_Inl)

lemma charge_no_credit_error: "errs (\<lambda>e. e \<noteq> InsufficientCredit) (charge_in_tx i c x)"
  unfolding charge_in_tx_def by (auto intro!: errs_intros simp: infra_def)

text \<open>C20. Admission is what billing charges: when the credit check accepts a usage, charging that
  very usage next is never refused for credit.\<close>

theorem admitted_usage_is_chargeable:
  assumes check: "ensure_sufficient_credit (bi_user_id i) (bi_usage i) (bi_route_price i) w = (Inr (), w1)"
    and charge: "record_usage i w1 = (r, w2)" "is_success_status (bi_status_code i)"
    and paid: "0 < charge_total (usage_charge_of i)"
  shows "r \<noteq> Inl InsufficientCredit"
proof
  assume r: "r = Inl InsufficientCredit"
  let ?c = "charge_total (usage_charge_of i)"
  obtain b t where x: "select_wallet (bi_user_id i) (db w1) = Some (t, b)" "?c \<le> b"
    using check paid
    by (auto simp: ensure_sufficient_credit_def usage_charge_of_def Let_def ensure_wallet_def op_results
        stmt_results split: if_splits dest!: ensure_in_tx_select)
  have ex: "wal_balance y = b"
    if "ensure_wallet_in_tx (bi_user_id i) ((tick_world w1)\<lparr>tx := db w1\<rparr>) = (Inr y, w3)" for y w3
    using ensure_in_tx_existing [OF that] x(1) by simp
  show False
    using charge paid r x(2)
    by (auto simp: record_usage_def op_results stmt_results infra_def split: if_splits dest: ex
        errsD [OF charge_no_credit_error] errsD [OF no_credit_errors(1)])
qed

theorem admitted_usage_is_chargeable_witness:
  "fst (ensure_sufficient_credit [2] (bi_usage sample_input) (bi_route_price sample_input)
      (calm_world sample_books)) = Inr ()
   \<and> fst (record_usage sample_input (snd (ensure_sufficient_credit [2] (bi_usage sample_input)
      (bi_route_price sample_input) (calm_world sample_books)))) \<noteq> Inl InsufficientCredit"
proof -
  have c: "charge_total (calculate_usage_charge (charge_input_of (bi_usage sample_input))
      (bi_route_price sample_input)) = 200"
    using sample_charge by (simp only: usage_charge_of_def)
  have u: "bi_user_id sample_input = [2]" "is_success_status (bi_status_code sample_input)"
    by (simp_all add: sample_input_def is_success_status_def)
  have f: "fst (ensure_sufficient_credit [2] (bi_usage sample_input) (bi_route_price sample_input)
      (calm_world sample_books)) = Inr ()"
    by (simp add: ensure_sufficient_credit_def c ensure_wallet_def) (simp add: billing_run)
  then have "ensure_sufficient_credit (bi_user_id sample_input) (bi_usage sample_input)
      (bi_route_price sample_input) (calm_world sample_books)
    = (Inr (), snd (ensure_sufficient_credit [2] (bi_usage sample_input)
      (bi_route_price sample_input) (calm_world sample_books)))"
    using u by (simp add: prod_eq_iff)
  from admitted_usage_is_chargeable [OF this prod.collapse [symmetric] u(2)] f show ?thesis
    by simp
qed

lemma select_usage_mem:
  "r \<in> set (select_usage_events f l off d) \<Longrightarrow> r \<in> set (usage_events d)
     \<and> (\<forall>u. uf_user_id f = Some u \<longrightarrow> ue_user_id r = Some u)"
  by (auto simp: select_usage_events_def Let_def split: option.splits dest!: in_set_takeD in_set_dropD)

lemma select_usage_sorted:
  "sorted_wrt (\<lambda>a b. str_le (ue_created_at b) (ue_created_at a)) (select_usage_events f l off d)"
  by (simp add: select_usage_events_def Let_def sorted_order_by_desc sorted_wrt_take sorted_wrt_drop)

lemma usage_response_fields:
  "usage_response_of p inc row = Inr a \<Longrightarrow> ur_created_at a = ue_created_at row
     \<and> (\<not> inc \<longrightarrow> ur_daemon_node_id a = None)
     \<and> parse_optional_uuid p (ue_user_id row) = Inr (ur_user_id a)"
  by (auto simp: usage_response_of_def and_then_Inr)

text \<open>C39. A user sees at most 500 of their own usage events, newest first, without the node that
  served them, and reading changes nothing; a limit that is not positive is a client error.\<close>

theorem list_usage_own_page:
  assumes run: "list_usage u q w = (Inr page, w')"
    and u: "uuid_ok (env w) u" "trim u = u" "u \<noteq> []"
  shows "db w' = db w \<and> length page \<le> 500 \<and> (\<forall>a \<in> set page. ur_user_id a = Some u \<and> ur_daemon_node_id a = None)
    \<and> sorted_wrt (\<lambda>a b. str_le (ur_created_at b) (ur_created_at a)) page"
proof -
  define f where "f = \<lparr>uf_user_id = Some u, uf_daemon_node_id = None, uf_host_user_id = None,
      uf_created_after = None, uf_created_before = None, uf_include_daemon_node_id = False,
      uf_limit = uq_limit q, uf_offset = uq_offset q\<rparr>"
  have f: "uf_user_id f = Some u" by (simp add: f_def)
  define l where "l = min (case uq_limit q of None \<Rightarrow> 100 | Some v \<Rightarrow> v) 500"
  define rows where rows: "rows = select_usage_events f l (normalize_offset (uf_offset f)) (db w)"
  have l: "l \<le> 500" by (simp add: l_def)
  have page: "collect_results (usage_response_of (parse_uuid (env w)) False) rows = Inr page"
    and db: "db w' = db w"
    using run
    by (auto simp: list_usage_def list_usage_events_def op_results stmt_results query_stmt_def
        normalize_limit_def Let_def f_def rows l_def split: if_splits)
  have each: "list_all2 (\<lambda>r a. usage_response_of (parse_uuid (env w)) False r = Inr a) rows page"
    using page by (simp add: collect_results_Inr)
  have len: "length rows \<le> 500"
    using l by (simp add: rows select_usage_events_def Let_def)
  have own: "ur_user_id a = Some u \<and> ur_daemon_node_id a = None \<and> ur_created_at a = ue_created_at r"
    if "r \<in> set rows" "usage_response_of (parse_uuid (env w)) False r = Inr a" for r a
  proof -
    have "ue_user_id r = Some u" using select_usage_mem that(1) f unfolding rows by blast
    then show ?thesis
      using usage_response_fields [OF that(2)] u by (simp add: parse_optional_uuid_def uuid_ok_def)
  qed
  have idx: "ur_user_id (page ! n) = Some u \<and> ur_daemon_node_id (page ! n) = None
      \<and> ur_created_at (page ! n) = ue_created_at (rows ! n)" if "n < length page" for n
    using own [of "rows ! n" "page ! n"] each that by (auto simp: list_all2_conv_all_nth)
  have times: "map ur_created_at page = map ue_created_at rows"
    using idx each by (auto simp: list_eq_iff_nth_eq list_all2_conv_all_nth)
  have "sorted_wrt (\<lambda>x y. str_le y x) (map ue_created_at rows)"
    using select_usage_sorted by (simp add: rows sorted_wrt_map)
  then have "sorted_wrt (\<lambda>x y. str_le y x) (map ur_created_at page)" by (simp only: times)
  then have "sorted_wrt (\<lambda>a b. str_le (ur_created_at b) (ur_created_at a)) page"
    by (simp add: sorted_wrt_map)
  moreover have "\<forall>a \<in> set page. ur_user_id a = Some u \<and> ur_daemon_node_id a = None"
    using idx by (metis in_set_conv_nth)
  ultimately show ?thesis
    using db len list_all2_lengthD [OF each] by simp
qed

theorem list_usage_own_page_witness:
  "fst (list_usage [2] \<lparr>uq_limit = None, uq_offset = None\<rparr> (calm_world sample_books)) = Inr []
   \<and> length ([] :: usage_event_response list) \<le> 500"
proof -
  have run: "list_usage [2] \<lparr>uq_limit = None, uq_offset = None\<rparr> (calm_world sample_books)
      = (Inr [], tick_world (calm_world sample_books))"
    by (simp add: list_usage_def list_usage_events_def normalize_limit_def run_simps calm_def
        select_usage_events_def calm_world_def sample_books_def empty_database_def tick_world_def)
  then show ?thesis
    using list_usage_own_page [OF run] by (simp add: trim_def trim_start_def trim_end_def is_whitespace_def)
qed

end
