(* ===== verification/Limits.thy ===== *)
theory Limits
  imports Database
begin

text \<open>
  Runtime limits over Redis (crates/mizan-limits/src/lib.rs): request and token windows and the
  concurrency leases of a request. Redis itself is a parameter, a record of the five commands the
  two scripts call; \<open>redis_ok\<close> states what its documentation promises of them through a view that
  reads every key. A script is atomic. Every script call and every connection may fail instead
  (\<open>lm_fault\<close>). Counters stay below \<open>2 ^ 53\<close>, where the numbers of a script are exact.

  The second half is the protocol of many clients: a step relation over the store and the leases
  that are out, with the expiry of a key as a step of the environment.
\<close>

section \<open>Scopes, keys, policies\<close>

datatype limit_scope = ApiKey uuid | User uuid | Provider uuid

fun key_part :: "limit_scope \<Rightarrow> str" where
  "key_part (ApiKey i) = lit ''api_key:'' @ i"
| "key_part (User i) = lit ''user:'' @ i"
| "key_part (Provider i) = lit ''provider:'' @ i"

definition request_counter_key :: "limit_scope \<Rightarrow> str" where
  "request_counter_key scope = lit ''mizan:limit:rpm:'' @ key_part scope"

definition token_counter_key :: "limit_scope \<Rightarrow> str" where
  "token_counter_key scope = lit ''mizan:limit:tpm:'' @ key_part scope"

definition concurrency_counter_key :: "limit_scope \<Rightarrow> str" where
  "concurrency_counter_key scope = lit ''mizan:limit:concurrency:'' @ key_part scope"

record runtime_limit_policy =
  requests_per_window :: u32
  tokens_per_window :: u32
  concurrent_requests :: u32
  window_seconds :: u32
  lease_seconds :: u32

definition disabled :: runtime_limit_policy where
  "disabled = \<lparr>requests_per_window = 0, tokens_per_window = 0, concurrent_requests = 0,
     window_seconds = 60, lease_seconds = 120\<rparr>"

definition is_disabled :: "runtime_limit_policy \<Rightarrow> bool" where
  "is_disabled p \<longleftrightarrow> requests_per_window p = 0 \<and> tokens_per_window p = 0 \<and> concurrent_requests p = 0"

text \<open>The public verdict of the crate, which the limiter itself does not use: it answers with a lease or an error.\<close>

datatype limit_decision = Allowed | Blocked str

definition allowed :: "limit_decision \<Rightarrow> bool" where
  "allowed d \<longleftrightarrow> (case d of Allowed \<Rightarrow> True | Blocked _ \<Rightarrow> False)"

record runtime_limit_request =
  scopes :: "limit_scope list"
  estimated_prompt_tokens :: u64

text \<open>The keys a \<open>RuntimeLimitLease\<close> holds; \<open>noop\<close> holds none.\<close>

type_synonym lease = "str list"

section \<open>Redis\<close>

record 'r redis =
  r_incrby :: "str \<Rightarrow> int \<Rightarrow> 'r \<Rightarrow> str + (int \<times> 'r)"
  r_expire :: "str \<Rightarrow> nat \<Rightarrow> 'r \<Rightarrow> 'r"
  r_exists :: "str \<Rightarrow> 'r \<Rightarrow> bool"
  r_decr :: "str \<Rightarrow> 'r \<Rightarrow> str + (int \<times> 'r)"
  r_del :: "str \<Rightarrow> 'r \<Rightarrow> 'r"
  r_conversion_error :: str

record 'r limiter =
  lm_store :: 'r
  lm_tick :: nat
  lm_fault :: "nat \<Rightarrow> str option"

type_synonym ('r, 'a) lim_op = "'r limiter \<Rightarrow> (app_error + 'a) \<times> 'r limiter"

text \<open>A script call; a script that fails leaves the store as it is.\<close>

definition eval_script :: "('r \<Rightarrow> str + ('a \<times> 'r)) \<Rightarrow> ('r, 'a) lim_op" where
  "eval_script f s = (let s' = s\<lparr>lm_tick := Suc (lm_tick s)\<rparr> in
     case lm_fault s (lm_tick s) of
       Some e \<Rightarrow> (Inl (Infrastructure e), s')
     | None \<Rightarrow> (case f (lm_store s) of
           Inl e \<Rightarrow> (Inl (Infrastructure e), s')
         | Inr (a, st) \<Rightarrow> (Inr a, s'\<lparr>lm_store := st\<rparr>)))"

definition get_connection :: "('r, unit) lim_op" where
  "get_connection = eval_script (\<lambda>st. Inr ((), st))"

text \<open>The script of \<open>increment_window_counter\<close>, then the conversion of the reply to \<open>u64\<close>.\<close>

definition increment_script :: "'r redis \<Rightarrow> str \<Rightarrow> int \<Rightarrow> nat \<Rightarrow> 'r \<Rightarrow> str + (int \<times> 'r)" where
  "increment_script R key amount ttl st = (case r_incrby R key amount st of
      Inl e \<Rightarrow> Inl e
    | Inr (current, st1) \<Rightarrow>
        Inr (current, if current = amount then r_expire R key ttl st1 else st1))"

definition increment_window_counter :: "'r redis \<Rightarrow> str \<Rightarrow> u32 \<Rightarrow> u64 \<Rightarrow> ('r, int) lim_op" where
  "increment_window_counter R key ttl_seconds amount =
     bind_op (eval_script (increment_script R key (uint amount) (unat (max ttl_seconds 1)))) (\<lambda>count.
     if count < 0 then throw (Infrastructure (r_conversion_error R)) else ret count)"

definition release_script :: "'r redis \<Rightarrow> str \<Rightarrow> 'r \<Rightarrow> str + (int \<times> 'r)" where
  "release_script R key st =
     (if \<not> r_exists R key st then Inr (0, st)
      else case r_decr R key st of
          Inl e \<Rightarrow> Inl e
        | Inr (current, st1) \<Rightarrow> Inr (current, if current \<le> 0 then r_del R key st1 else st1))"

definition release_key :: "'r redis \<Rightarrow> str \<Rightarrow> ('r, int) lim_op" where
  "release_key R key = eval_script (release_script R key)"

text \<open>Every key is tried; the first error is returned.\<close>

fun release_keys_loop :: "'r redis \<Rightarrow> str list \<Rightarrow> app_error option \<Rightarrow> ('r, unit) lim_op" where
  "release_keys_loop R [] first_error =
     (case first_error of Some e \<Rightarrow> throw e | None \<Rightarrow> ret ())"
| "release_keys_loop R (key # keys) first_error =
     bind_op (try_op (release_key R key)) (\<lambda>r.
     release_keys_loop R keys
       (case r of Inl e \<Rightarrow> (if first_error = None then Some e else first_error)
                | Inr _ \<Rightarrow> first_error))"

definition release_keys :: "'r redis \<Rightarrow> str list \<Rightarrow> ('r, unit) lim_op" where
  "release_keys R keys = release_keys_loop R keys None"

definition release :: "'r redis \<Rightarrow> lease \<Rightarrow> ('r, unit) lim_op" where
  "release R keys = (if keys = [] then ret ()
     else bind_op get_connection (\<lambda>_. release_keys R keys))"

section \<open>Checks\<close>

definition exceeded :: "string \<Rightarrow> limit_scope \<Rightarrow> app_error" where
  "exceeded what scope = LimitExceeded (lit what @ lit '' exceeded for '' @ key_part scope)"

definition check_request_counter :: "'r redis \<Rightarrow> runtime_limit_policy \<Rightarrow> limit_scope \<Rightarrow> ('r, unit) lim_op" where
  "check_request_counter R policy scope =
     (if requests_per_window policy = 0 then ret ()
      else bind_op (increment_window_counter R (request_counter_key scope) (window_seconds policy) 1)
        (\<lambda>count. if count > uint (requests_per_window policy)
           then throw (exceeded ''requests_per_window'' scope) else ret ()))"

definition check_token_counter :: "'r redis \<Rightarrow> runtime_limit_policy \<Rightarrow> limit_scope \<Rightarrow> u64 \<Rightarrow> ('r, unit) lim_op" where
  "check_token_counter R policy scope tokens =
     (if tokens_per_window policy = 0 \<or> tokens = 0 then ret ()
      else bind_op (increment_window_counter R (token_counter_key scope) (window_seconds policy) tokens)
        (\<lambda>count. if count > uint (tokens_per_window policy)
           then throw (exceeded ''tokens_per_window'' scope) else ret ()))"

definition acquire_concurrency_lease :: "'r redis \<Rightarrow> runtime_limit_policy \<Rightarrow> limit_scope \<Rightarrow> ('r, str option) lim_op" where
  "acquire_concurrency_lease R policy scope =
     (if concurrent_requests policy = 0 then ret None
      else bind_op (increment_window_counter R (concurrency_counter_key scope) (lease_seconds policy) 1)
        (\<lambda>count. if count > uint (concurrent_requests policy)
           then bind_op (release_key R (concurrency_counter_key scope)) (\<lambda>_.
                throw (exceeded ''concurrent_requests'' scope))
           else ret (Some (concurrency_counter_key scope))))"

text \<open>\<open>let _ = release_keys(...); return Err(error)\<close>.\<close>

definition give_back :: "'r redis \<Rightarrow> str list \<Rightarrow> app_error \<Rightarrow> ('r, 'a) lim_op" where
  "give_back R acquired e = bind_op (try_op (release_keys R acquired)) (\<lambda>_. throw e)"

fun acquire_scopes :: "'r redis \<Rightarrow> runtime_limit_policy \<Rightarrow> u64 \<Rightarrow> limit_scope list \<Rightarrow> str list \<Rightarrow> ('r, lease) lim_op" where
  "acquire_scopes R policy tokens [] acquired = ret acquired"
| "acquire_scopes R policy tokens (scope # rest) acquired =
     bind_op (try_op (check_request_counter R policy scope)) (\<lambda>r.
     case r of Inl e \<Rightarrow> give_back R acquired e | Inr _ \<Rightarrow>
     bind_op (try_op (check_token_counter R policy scope tokens)) (\<lambda>t.
     case t of Inl e \<Rightarrow> give_back R acquired e | Inr _ \<Rightarrow>
     bind_op (try_op (acquire_concurrency_lease R policy scope)) (\<lambda>l.
     case l of
       Inl e \<Rightarrow> give_back R acquired e
     | Inr None \<Rightarrow> acquire_scopes R policy tokens rest acquired
     | Inr (Some key) \<Rightarrow> acquire_scopes R policy tokens rest (acquired @ [key]))))"

definition check_and_acquire :: "'r redis \<Rightarrow> runtime_limit_policy \<Rightarrow> runtime_limit_request \<Rightarrow> ('r, lease) lim_op" where
  "check_and_acquire R policy request =
     (if is_disabled policy \<or> scopes request = [] then ret []
      else bind_op get_connection (\<lambda>_.
        acquire_scopes R policy (estimated_prompt_tokens request) (scopes request) []))"

section \<open>What Redis promises\<close>

definition redis_ok :: "'r redis \<Rightarrow> ('r \<Rightarrow> str \<Rightarrow> int option) \<Rightarrow> bool" where
  "redis_ok R view \<longleftrightarrow>
     (\<forall>k n st c st'. r_incrby R k n st = Inr (c, st') \<longrightarrow>
        c = (case view st k of None \<Rightarrow> 0 | Some v \<Rightarrow> v) + n \<and> view st' = (view st)(k \<mapsto> c))
   \<and> (\<forall>k t st. view (r_expire R k t st) = view st)
   \<and> (\<forall>k st. r_exists R k st \<longleftrightarrow> view st k \<noteq> None)
   \<and> (\<forall>k st c st'. r_decr R k st = Inr (c, st') \<longrightarrow>
        c = (case view st k of None \<Rightarrow> 0 | Some v \<Rightarrow> v) - 1 \<and> view st' = (view st)(k \<mapsto> c))
   \<and> (\<forall>k st. view (r_del R k st) = (view st)(k := None))"

lemma redis_laws:
  assumes "redis_ok R view"
  shows "r_incrby R k n st = Inr (c, st') \<Longrightarrow>
      c = (case view st k of None \<Rightarrow> 0 | Some v \<Rightarrow> v) + n \<and> view st' = (view st)(k \<mapsto> c)"
    "view (r_expire R k t st) = view st"
    "r_exists R k st \<longleftrightarrow> view st k \<noteq> None"
    "r_decr R k st = Inr (c, st') \<Longrightarrow>
      c = (case view st k of None \<Rightarrow> 0 | Some v \<Rightarrow> v) - 1 \<and> view st' = (view st)(k \<mapsto> c)"
    "view (r_del R k st) = (view st)(k := None)"
  using assms unfolding redis_ok_def by blast+

text \<open>A service that never refuses a command and never loses a connection.\<close>

definition reliable :: "'r redis \<Rightarrow> 'r limiter \<Rightarrow> bool" where
  "reliable R s \<longleftrightarrow> (\<forall>n. lm_fault s n = None) \<and> (\<forall>k n st. \<exists>x. r_incrby R k n st = Inr x)
     \<and> (\<forall>k st. \<exists>x. r_decr R k st = Inr x)"

definition counter :: "('r \<Rightarrow> str \<Rightarrow> int option) \<Rightarrow> 'r limiter \<Rightarrow> str \<Rightarrow> int" where
  "counter view s k = (case view (lm_store s) k of None \<Rightarrow> 0 | Some v \<Rightarrow> v)"

lemma key_part_inject [simp]: "key_part a = key_part b \<longleftrightarrow> a = b"
  by (cases a; cases b) (auto simp: lit_def)

lemma keys_distinct [simp]:
  "request_counter_key a \<noteq> concurrency_counter_key b" "token_counter_key a \<noteq> concurrency_counter_key b"
  "request_counter_key a \<noteq> token_counter_key b"
  "concurrency_counter_key a = concurrency_counter_key b \<longleftrightarrow> a = b"
  by (auto simp: request_counter_key_def token_counter_key_def concurrency_counter_key_def lit_def)

lemma reliable_store: "reliable R (s\<lparr>lm_store := x, lm_tick := n\<rparr>) = reliable R s"
  by (simp add: reliable_def)

section \<open>The effect of each call on the counters\<close>

definition nonneg :: "('r \<Rightarrow> str \<Rightarrow> int option) \<Rightarrow> 'r limiter \<Rightarrow> bool" where
  "nonneg view s \<longleftrightarrow> (\<forall>k. 0 \<le> counter view s k)"

lemma counter_eval:
  assumes "eval_script f s = (r, s')"
  shows "lm_fault s' = lm_fault s \<and>
    ((\<exists>a st. r = Inr a \<and> f (lm_store s) = Inr (a, st) \<and> lm_store s' = st)
     \<or> (\<exists>e. r = Inl (Infrastructure e) \<and> lm_store s' = lm_store s
          \<and> (lm_fault s (lm_tick s) = Some e \<or> f (lm_store s) = Inl e)))"
  using assms by (auto simp: eval_script_def Let_def split: option.splits sum.splits prod.splits)

lemma counter_upd:
  "view (lm_store s') = (view (lm_store s))(k \<mapsto> c) \<Longrightarrow> counter view s' = (counter view s)(k := c)"
  "view (lm_store s') = (view (lm_store s))(k := None) \<Longrightarrow> counter view s' = (counter view s)(k := 0)"
  "view (lm_store s') = view (lm_store s) \<Longrightarrow> counter view s' = counter view s"
  by (auto simp: counter_def)

lemma increment_script_run:
  assumes "redis_ok R view" "increment_script R key n ttl st = Inr (c, st')"
  shows "c = (case view st key of None \<Rightarrow> 0 | Some v \<Rightarrow> v) + n \<and> view st' = (view st)(key \<mapsto> c)"
  using assms by (auto simp: increment_script_def redis_ok_def split: sum.splits prod.splits)

lemma release_script_run:
  assumes ok: "redis_ok R view" and run: "release_script R key st = Inr (n, st')"
    and nn: "0 \<le> (case view st key of None \<Rightarrow> 0 | Some v \<Rightarrow> v)"
  shows "(case view st' k of None \<Rightarrow> 0 | Some v \<Rightarrow> v)
    = (if k = key then max 0 ((case view st key of None \<Rightarrow> 0 | Some v \<Rightarrow> v) - 1)
       else (case view st k of None \<Rightarrow> 0 | Some v \<Rightarrow> v))"
proof (cases "view st key")
  case None
  then have "st' = st" using ok run by (simp add: release_script_def redis_ok_def)
  then show ?thesis using None by simp
next
  case (Some v)
  then have "r_exists R key st" using ok by (auto simp: redis_ok_def)
  then obtain c st1 where d: "r_decr R key st = Inr (c, st1)"
    "st' = (if c \<le> 0 then r_del R key st1 else st1)"
    using run by (auto simp: release_script_def split: sum.splits prod.splits)
  have c: "c = v - 1" "view st1 = (view st)(key \<mapsto> c)"
    using redis_laws(4) [OF ok d(1)] Some by simp_all
  have del: "view (r_del R key st1) = (view st1)(key := None)"
    using ok by (simp add: redis_ok_def)
  show ?thesis using c d(2) del Some nn by (cases "c \<le> 0") auto
qed

lemma reliable_scripts:
  assumes "reliable R s"
  shows "increment_script R key n ttl st \<noteq> Inl e" "release_script R key st \<noteq> Inl e"
    "lm_fault s t = None"
proof -
  have i: "\<exists>x. r_incrby R key n st = Inr x" and d: "\<exists>x. r_decr R key st = Inr x"
    and f: "lm_fault s t = None"
    using assms by (simp_all add: reliable_def)
  show "increment_script R key n ttl st \<noteq> Inl e"
    using i by (auto simp: increment_script_def)
  show "release_script R key st \<noteq> Inl e"
    using d by (auto simp: release_script_def)
  show "lm_fault s t = None" by (fact f)
qed

lemma increment_run:
  assumes ok: "redis_ok R view" and nn: "nonneg view s"
    and run: "increment_window_counter R key ttl amount s = (r, s')"
  shows "lm_fault s' = lm_fault s \<and> nonneg view s' \<and>
    ((\<exists>n. r = Inr n \<and> n = counter view s key + uint amount \<and> counter view s' = (counter view s)(key := n))
     \<or> (\<exists>e. r = Inl e \<and> counter view s' = counter view s \<and> \<not> reliable R s))"
proof -
  obtain x s1 where x: "eval_script (increment_script R key (uint amount) (unat (max ttl 1))) s = (x, s1)"
    by fastforce
  show ?thesis
  proof (cases x)
    case (Inl e)
    then have "r = Inl e" "s' = s1"
      using run x by (auto simp: increment_window_counter_def bind_op_def)
    moreover have "\<not> reliable R s" "lm_store s1 = lm_store s" "lm_fault s1 = lm_fault s"
      using counter_eval [OF x] Inl reliable_scripts(1,3) by fastforce+
    ultimately show ?thesis using nn by (simp add: nonneg_def counter_def fun_eq_iff)
  next
    case (Inr c)
    then obtain st where st: "increment_script R key (uint amount) (unat (max ttl 1)) (lm_store s) = Inr (c, st)"
      "lm_store s1 = st" "lm_fault s1 = lm_fault s"
      using counter_eval [OF x] by auto
    then have c: "c = counter view s key + uint amount" "counter view s1 = (counter view s)(key := c)"
      using increment_script_run [OF ok st(1)] st(2) by (auto simp: counter_def)
    moreover have "0 \<le> counter view s key" using nn by (simp add: nonneg_def)
    ultimately have "0 \<le> c" by simp
    then have "r = Inr c" "s' = s1"
      using run x Inr by (auto simp: increment_window_counter_def bind_op_def ret_def)
    then show ?thesis using c st nn \<open>0 \<le> c\<close> by (auto simp: nonneg_def)
  qed
qed

lemma release_key_run:
  assumes ok: "redis_ok R view" and nn: "nonneg view s" and run: "release_key R key s = (r, s')"
  shows "lm_fault s' = lm_fault s \<and> nonneg view s' \<and>
    ((\<exists>n. r = Inr n \<and> counter view s' = (counter view s)(key := max 0 (counter view s key - 1)))
     \<or> (\<exists>e. r = Inl (Infrastructure e) \<and> counter view s' = counter view s \<and> \<not> reliable R s))"
proof -
  from counter_eval [OF run [unfolded release_key_def]]
  consider n st where "r = Inr n" "release_script R key (lm_store s) = Inr (n, st)" "lm_store s' = st"
      "lm_fault s' = lm_fault s"
    | e where "r = Inl (Infrastructure e)" "lm_store s' = lm_store s" "lm_fault s' = lm_fault s"
      "lm_fault s (lm_tick s) = Some e \<or> release_script R key (lm_store s) = Inl e" by blast
  then show ?thesis
  proof cases
    case 1
    have "counter view s' = (counter view s)(key := max 0 (counter view s key - 1))"
      using release_script_run [OF ok 1(2)] nn 1(3) by (simp add: counter_def fun_eq_iff nonneg_def)
    then show ?thesis using 1 nn by (auto simp: nonneg_def)
  next
    case 2
    then have "\<not> reliable R s" using reliable_scripts(2,3) by fastforce
    then show ?thesis using 2 nn by (simp add: nonneg_def counter_def fun_eq_iff)
  qed
qed

lemma release_loop_run:
  assumes ok: "redis_ok R view"
  shows "nonneg view s \<Longrightarrow> release_keys_loop R keys fe s = (r, s') \<Longrightarrow>
     lm_fault s' = lm_fault s \<and> nonneg view s'
   \<and> (\<forall>k. counter view s k - int (count_list keys k) \<le> counter view s' k)
   \<and> (reliable R s \<longrightarrow> (\<forall>k. counter view s' k = max 0 (counter view s k - int (count_list keys k)))
        \<and> (fe = None \<longrightarrow> r = Inr ()))"
proof (induction keys arbitrary: fe s)
  case Nil
  then show ?case by (auto simp: nonneg_def split: option.splits)
next
  case (Cons key keys)
  obtain x s1 where x: "release_key R key s = (x, s1)" by fastforce
  then obtain fe' where rec: "release_keys_loop R keys fe' s1 = (r, s')"
    "fe' = (case x of Inl e \<Rightarrow> (if fe = None then Some e else fe) | Inr _ \<Rightarrow> fe)"
    using Cons.prems(2) by (auto simp: bind_op_def try_op_def)
  note one = release_key_run [OF ok Cons.prems(1) x]
  note IH = Cons.IH [OF _ rec(1)]
  have rel: "reliable R s1 = reliable R s" using one by (simp add: reliable_def)
  have low: "counter view s k - (if k = key then 1 else 0) \<le> counter view s1 k" for k
    using one by auto
  have eq: "counter view s1 k = max 0 (counter view s k - (if k = key then 1 else 0)) \<and> fe' = fe"
    if "reliable R s" for k
    using one rec(2) Cons.prems(1) that by (auto simp: nonneg_def)
  have IH': "lm_fault s' = lm_fault s1" "nonneg view s'"
    "counter view s1 k - int (count_list keys k) \<le> counter view s' k"
    "reliable R s1 \<Longrightarrow> counter view s' k = max 0 (counter view s1 k - int (count_list keys k))"
    "reliable R s1 \<Longrightarrow> fe' = None \<Longrightarrow> r = Inr ()" for k
    using IH one by blast+
  have "counter view s k - int (count_list (key # keys) k) \<le> counter view s' k" for k
    using low [of k] IH'(3) [of k] by (auto split: if_splits)
  moreover have "counter view s' k = max 0 (counter view s k - int (count_list (key # keys) k))"
    if "reliable R s" for k
    using eq [OF that, of k] IH'(4) [of k] rel that by (auto split: if_splits)
  ultimately show ?case using IH' one rel eq by auto
qed

lemma release_keys_run:
  assumes "redis_ok R view" "nonneg view s" "release_keys R keys s = (r, s')"
  shows "lm_fault s' = lm_fault s" "nonneg view s'"
    "counter view s k - int (count_list keys k) \<le> counter view s' k"
    "reliable R s \<Longrightarrow> counter view s' k = max 0 (counter view s k - int (count_list keys k)) \<and> r = Inr ()"
  using release_loop_run [OF assms(1,2) assms(3) [unfolded release_keys_def]] by blast+

text \<open>The counter of the leases of a scope.\<close>

definition leased :: "('r \<Rightarrow> str \<Rightarrow> int option) \<Rightarrow> 'r limiter \<Rightarrow> limit_scope \<Rightarrow> int" where
  "leased view s scope = counter view s (concurrency_counter_key scope)"

definition holds :: "lease \<Rightarrow> limit_scope \<Rightarrow> int" where
  "holds keys scope = int (count_list keys (concurrency_counter_key scope))"

lemma holds_simps [simp]:
  "holds [] sc = 0" "holds (a @ b) sc = holds a sc + holds b sc"
  "holds [concurrency_counter_key x] sc = (if x = sc then 1 else 0)"
  by (auto simp: holds_def)

lemma holds_nonneg [simp]: "0 \<le> holds keys sc"
  by (simp add: holds_def)

lemma check_counters_run:
  assumes ok: "redis_ok R view" and nn: "nonneg view s"
    and run: "check_request_counter R pol scope s = (r, s') \<or> check_token_counter R pol scope tokens s = (r, s')"
  shows "lm_fault s' = lm_fault s" "nonneg view s'" "leased view s' sc = leased view s sc"
proof -
  have "lm_fault s' = lm_fault s \<and> nonneg view s' \<and> leased view s' sc = leased view s sc"
    if key: "\<And>sc. key \<noteq> concurrency_counter_key sc"
      and go: "bind_op (increment_window_counter R key ttl amount)
        (\<lambda>count. if count > lim then throw e else ret ()) s = (r, s')" for key ttl amount lim e
  proof -
    obtain x s1 where x: "increment_window_counter R key ttl amount s = (x, s1)" by fastforce
    then have "s' = s1" using go by (cases x) (auto simp: bind_op_def split: if_splits)
    then show ?thesis using increment_run [OF ok nn x] key [of sc, symmetric] by (auto simp: leased_def)
  qed
  note one = this
  have "lm_fault s' = lm_fault s \<and> nonneg view s' \<and> leased view s' sc = leased view s sc"
    using run
  proof
    assume a: "check_request_counter R pol scope s = (r, s')"
    show ?thesis
    proof (cases "requests_per_window pol = 0")
      case False
      show ?thesis
        by (rule one [OF keys_distinct(1)]) (use a False in \<open>simp add: check_request_counter_def\<close>)
    qed (use a nn in \<open>simp add: check_request_counter_def\<close>)
  next
    assume a: "check_token_counter R pol scope tokens s = (r, s')"
    show ?thesis
    proof (cases "tokens_per_window pol = 0 \<or> tokens = 0")
      case False
      show ?thesis
        by (rule one [OF keys_distinct(2)]) (use a False in \<open>simp add: check_token_counter_def\<close>)
    qed (use a nn in \<open>simp add: check_token_counter_def\<close>)
  qed
  then show "lm_fault s' = lm_fault s" "nonneg view s'" "leased view s' sc = leased view s sc" by auto
qed

lemma acquire_lease_cases:
  assumes "acquire_concurrency_lease R pol scope s = (r, s')" "concurrent_requests pol \<noteq> 0"
    and "increment_window_counter R (concurrency_counter_key scope) (lease_seconds pol) 1 s = (x, s1)"
  shows "case x of Inl e \<Rightarrow> r = Inl e \<and> s' = s1
    | Inr n \<Rightarrow> if n > uint (concurrent_requests pol)
        then (\<exists>y e. release_key R (concurrency_counter_key scope) s1 = (y, s') \<and> r = Inl e)
        else r = Inr (Some (concurrency_counter_key scope)) \<and> s' = s1"
proof -
  obtain y s2 where "release_key R (concurrency_counter_key scope) s1 = (y, s2)" by fastforce
  then show ?thesis
    using assms by (cases x; cases y) (auto simp: acquire_concurrency_lease_def)
qed

lemma acquire_lease_run:
  assumes ok: "redis_ok R view" and nn: "nonneg view s"
    and run: "acquire_concurrency_lease R pol scope s = (r, s')"
  shows "lm_fault s' = lm_fault s" "nonneg view s'"
    "case r of
       Inl e \<Rightarrow> leased view s sc \<le> leased view s' sc
     | Inr None \<Rightarrow> s' = s
     | Inr (Some key) \<Rightarrow> key = concurrency_counter_key scope
         \<and> leased view s' sc = leased view s sc + (if sc = scope then 1 else 0)
         \<and> leased view s' scope \<le> uint (concurrent_requests pol)"
    "reliable R s \<Longrightarrow> r = Inl e \<Longrightarrow> leased view s' sc = leased view s sc"
proof -
  define key where "key = concurrency_counter_key scope"
  have inj: "concurrency_counter_key sc = key \<longleftrightarrow> sc = scope" for sc by (simp add: key_def)
  have "lm_fault s' = lm_fault s \<and> nonneg view s' \<and> (case r of
       Inl e \<Rightarrow> leased view s sc \<le> leased view s' sc
     | Inr None \<Rightarrow> s' = s
     | Inr (Some k) \<Rightarrow> k = key \<and> leased view s' sc = leased view s sc + (if sc = scope then 1 else 0)
         \<and> leased view s' scope \<le> uint (concurrent_requests pol))
     \<and> (reliable R s \<longrightarrow> (\<forall>e. r = Inl e \<longrightarrow> leased view s' sc = leased view s sc))"
  proof (cases "concurrent_requests pol = 0")
    case True
    then show ?thesis using run nn by (simp add: acquire_concurrency_lease_def)
  next
    case False
    obtain x s1 where x: "increment_window_counter R key (lease_seconds pol) 1 s = (x, s1)" by fastforce
    note inc = increment_run [OF ok nn x]
    note step = acquire_lease_cases [OF run False, folded key_def, OF x]
    consider e where "x = Inl e" | n where "x = Inr n" "n \<le> uint (concurrent_requests pol)"
      | n where "x = Inr n" "n > uint (concurrent_requests pol)" by (metis sum.exhaust not_le)
    then show ?thesis
    proof cases
      case 1
      then show ?thesis using inc step by (auto simp: leased_def)
    next
      case 2
      then show ?thesis using inc step by (auto simp: leased_def inj simp flip: key_def)
    next
      case 3
      then obtain y e where y: "release_key R key s1 = (y, s')" "r = Inl e" using step by auto
      have n: "counter view s1 = (counter view s)(key := counter view s key + 1)" "lm_fault s1 = lm_fault s" "nonneg view s1"
        using inc 3 by auto
      note rel = release_key_run [OF ok n(3) y(1)]
      have "reliable R s1 = reliable R s" by (simp add: reliable_def n(2))
      then have "counter view s k \<le> counter view s' k \<and> (reliable R s \<longrightarrow> counter view s' k = counter view s k)" for k
        using rel n nn by (auto simp: nonneg_def)
      then show ?thesis using rel n y(2) by (auto simp: leased_def)
    qed
  qed
  then show "lm_fault s' = lm_fault s" "nonneg view s'"
    "case r of Inl e \<Rightarrow> leased view s sc \<le> leased view s' sc
     | Inr None \<Rightarrow> s' = s
     | Inr (Some key) \<Rightarrow> key = concurrency_counter_key scope
         \<and> leased view s' sc = leased view s sc + (if sc = scope then 1 else 0)
         \<and> leased view s' scope \<le> uint (concurrent_requests pol)"
    "reliable R s \<Longrightarrow> r = Inl e \<Longrightarrow> leased view s' sc = leased view s sc"
    unfolding key_def by (blast, blast, blast, blast)
qed

text \<open>
  While a request collects its leases: on top of \<open>b\<close> leases of others, the counters cover the keys
  it holds, and every scope it holds a key of is within the limit.
\<close>

definition covers :: "('r \<Rightarrow> str \<Rightarrow> int option) \<Rightarrow> (limit_scope \<Rightarrow> int) \<Rightarrow> int \<Rightarrow> lease \<Rightarrow> 'r limiter \<Rightarrow> bool" where
  "covers view b limit keys s \<longleftrightarrow> nonneg view s
     \<and> (\<forall>sc. 0 \<le> b sc \<and> b sc + holds keys sc \<le> leased view s sc)
     \<and> (\<forall>sc. 0 < holds keys sc \<longrightarrow> b sc + holds keys sc \<le> limit)"

definition exactly :: "('r \<Rightarrow> str \<Rightarrow> int option) \<Rightarrow> (limit_scope \<Rightarrow> int) \<Rightarrow> lease \<Rightarrow> 'r limiter \<Rightarrow> bool" where
  "exactly view b keys s \<longleftrightarrow> (\<forall>sc. leased view s sc = b sc + holds keys sc)"

lemma covers_none: "covers view b limit keys s \<Longrightarrow> covers view b limit [] s"
  using holds_nonneg by (auto simp: covers_def) (smt (verit) holds_nonneg)

lemma give_back_run:
  assumes ok: "redis_ok R view" and c: "covers view b limit acq s" and run: "give_back R acq e s = (r, s')"
  shows "r = Inl e" "lm_fault s' = lm_fault s" "covers view b limit [] s'"
    "reliable R s \<Longrightarrow> exactly view b acq s \<Longrightarrow> exactly view b [] s'"
proof -
  obtain x s1 where x: "release_keys R acq s = (x, s1)" by fastforce
  have s1: "s' = s1" and r: "r = Inl e" using run x by (auto simp: give_back_def bind_op_def try_op_def)
  show "r = Inl e" by (fact r)
  have nn: "nonneg view s" using c by (simp add: covers_def)
  note rel = release_keys_run [OF ok nn x]
  show "lm_fault s' = lm_fault s" using rel(1) s1 by simp
  show "covers view b limit [] s'"
    unfolding covers_def
  proof (intro conjI allI impI)
    show "nonneg view s'" using rel(2) s1 by simp
    fix sc
    show "0 \<le> b sc" using c by (simp add: covers_def)
    have "b sc + holds acq sc \<le> leased view s sc" using c by (simp add: covers_def)
    then show "b sc + holds [] sc \<le> leased view s' sc"
      using rel(3) [of "concurrency_counter_key sc"] s1 by (simp add: leased_def holds_def)
  qed simp
  show "exactly view b [] s'" if "reliable R s" "exactly view b acq s"
    unfolding exactly_def
  proof
    fix sc
    have "leased view s sc = b sc + holds acq sc" "0 \<le> b sc"
      using that c by (auto simp: exactly_def covers_def)
    then show "leased view s' sc = b sc + holds [] sc"
      using rel(4) [OF that(1), of "concurrency_counter_key sc"] s1 by (simp add: leased_def holds_def)
  qed
qed

text \<open>How far a request that started at \<open>s0\<close> has come: it holds \<open>keys\<close>.\<close>

definition collected :: "'r redis \<Rightarrow> ('r \<Rightarrow> str \<Rightarrow> int option) \<Rightarrow> (limit_scope \<Rightarrow> int) \<Rightarrow> int \<Rightarrow> 'r limiter \<Rightarrow> lease \<Rightarrow> 'r limiter \<Rightarrow> bool" where
  "collected R view b limit s0 keys s \<longleftrightarrow> lm_fault s = lm_fault s0 \<and> covers view b limit keys s
     \<and> (reliable R s0 \<longrightarrow> exactly view b [] s0 \<longrightarrow> exactly view b keys s)"

lemma collected_reliable: "collected R view b limit s0 keys s \<Longrightarrow> reliable R s = reliable R s0"
  by (simp add: collected_def reliable_def)

lemma collected_nonneg: "collected R view b limit s0 keys s \<Longrightarrow> nonneg view s"
  by (simp add: collected_def covers_def)

lemma collected_same:
  assumes "collected R view b limit s0 keys s" "lm_fault s' = lm_fault s" "nonneg view s'"
    and "\<And>sc. leased view s' sc = leased view s sc"
  shows "collected R view b limit s0 keys s'"
  using assms by (simp add: collected_def covers_def exactly_def)

lemma collected_counters:
  assumes "redis_ok R view" "collected R view b limit s0 keys s"
    and "check_request_counter R pol scope s = (r, s') \<or> check_token_counter R pol scope tokens s = (r, s')"
  shows "collected R view b limit s0 keys s'"
  using check_counters_run [OF assms(1) collected_nonneg [OF assms(2)] assms(3)]
  by (intro collected_same [OF assms(2)])

lemma collected_give_back:
  assumes "redis_ok R view" "collected R view b limit s0 acq s" "give_back R acq e s = (r, s')"
  shows "r = Inl e \<and> collected R view b limit s0 [] s'"
  using give_back_run [OF assms(1) _ assms(3)] assms(2) collected_reliable [OF assms(2)]
  by (auto simp: collected_def)

lemma collected_lease:
  assumes ok: "redis_ok R view" and c: "collected R view b (uint (concurrent_requests pol)) s0 acq s"
    and run: "acquire_concurrency_lease R pol scope s = (r, s')"
  shows "collected R view b (uint (concurrent_requests pol)) s0
    (acq @ (case r of Inr (Some key) \<Rightarrow> [key] | _ \<Rightarrow> [])) s'"
proof -
  note l = acquire_lease_run [OF ok collected_nonneg [OF c] run]
  note rel = collected_reliable [OF c]
  consider e where "r = Inl e" | "r = Inr None" | key where "r = Inr (Some key)"
    by (metis sum.exhaust option.exhaust)
  then show ?thesis
  proof cases
    case 1
    have "leased view s sc \<le> leased view s' sc" for sc using l(3) [of sc] 1 by simp
    then have "covers view b (uint (concurrent_requests pol)) acq s'"
      using c l(2) unfolding collected_def covers_def by (meson order_trans)
    then show ?thesis using c l(1) l(4) [OF _ 1] 1 rel by (simp add: collected_def exactly_def)
  next
    case 2
    then show ?thesis using l(3) c by simp
  next
    case 3
    have "key = concurrency_counter_key scope
        \<and> leased view s' sc = leased view s sc + (if sc = scope then 1 else 0)
        \<and> leased view s' scope \<le> uint (concurrent_requests pol)" for sc
      using l(3) [of sc] 3 by simp
    then have k: "key = concurrency_counter_key scope"
      "\<And>sc. leased view s' sc = leased view s sc + (if sc = scope then 1 else 0)"
      "leased view s' scope \<le> uint (concurrent_requests pol)"
      by blast+
    have b: "0 \<le> b sc" "b sc + holds acq sc \<le> leased view s sc"
        "0 < holds acq sc \<longrightarrow> b sc + holds acq sc \<le> uint (concurrent_requests pol)" for sc
      using c by (auto simp: collected_def covers_def)
    have "b sc + holds (acq @ [key]) sc \<le> leased view s' sc
        \<and> (0 < holds (acq @ [key]) sc \<longrightarrow> b sc + holds (acq @ [key]) sc \<le> uint (concurrent_requests pol))" for sc
      using b(2,3) [of sc] k(2) [of sc] k(3) by (cases "sc = scope") (simp_all add: k(1))
    then have "covers view b (uint (concurrent_requests pol)) (acq @ [key]) s'"
      using b(1) l(2) by (simp add: covers_def)
    moreover have "exactly view b acq s \<Longrightarrow> exactly view b (acq @ [key]) s'"
      by (simp add: exactly_def k)
    ultimately show ?thesis using c l(1) 3 by (simp add: collected_def)
  qed
qed

lemma acquire_scopes_run:
  assumes ok: "redis_ok R view"
  shows "collected R view b (uint (concurrent_requests pol)) s0 acq s \<Longrightarrow> acquire_scopes R pol tok scs acq s = (r, s')
    \<Longrightarrow> collected R view b (uint (concurrent_requests pol)) s0 (case r of Inl _ \<Rightarrow> [] | Inr keys \<Rightarrow> keys) s'"
proof (induction scs arbitrary: acq s)
  case Nil
  then show ?case by auto
next
  case (Cons scope scs)
  obtain x1 s1 where x1: "check_request_counter R pol scope s = (x1, s1)" by fastforce
  note c1 = collected_counters [OF ok Cons.prems(1) disjI1, OF x1]
  obtain x2 s2 where x2: "check_token_counter R pol scope tok s1 = (x2, s2)" by fastforce
  note c2 = collected_counters [OF ok c1 disjI2, OF x2]
  obtain x3 s3 where x3: "acquire_concurrency_lease R pol scope s2 = (x3, s3)" by fastforce
  note c3 = collected_lease [OF ok c2 x3]
  note run = Cons.prems(2) x1 x2 x3
  consider e where "x1 = Inl e" | u e where "x1 = Inr u" "x2 = Inl e" | u v e where "x1 = Inr u" "x2 = Inr v" "x3 = Inl e"
    | u v where "x1 = Inr u" "x2 = Inr v" "x3 = Inr None" | u v k where "x1 = Inr u" "x2 = Inr v" "x3 = Inr (Some k)"
    by (metis sum.exhaust option.exhaust)
  then show ?case
  proof cases
    case 1
    then have "give_back R acq e s1 = (r, s')" using run by (simp add: bind_op_def try_op_def)
    from collected_give_back [OF ok c1 this] show ?thesis by simp
  next
    case 2
    then have "give_back R acq e s2 = (r, s')" using run by (simp add: bind_op_def try_op_def)
    from collected_give_back [OF ok c2 this] show ?thesis by simp
  next
    case 3
    then have "give_back R acq e s3 = (r, s')" using run by (simp add: bind_op_def try_op_def)
    from collected_give_back [OF ok _ this] show ?thesis using c3 3 by simp
  next
    case 4
    then have "acquire_scopes R pol tok scs acq s3 = (r, s')" using run by (simp add: bind_op_def try_op_def)
    then show ?thesis using Cons.IH c3 4 by simp
  next
    case 5
    then have "acquire_scopes R pol tok scs (acq @ [k]) s3 = (r, s')" using run by (simp add: bind_op_def try_op_def)
    then show ?thesis using Cons.IH c3 5 by simp
  qed
qed

lemma get_connection_run:
  assumes "get_connection s = (r, s')"
  shows "lm_fault s' = lm_fault s" "counter view s' = counter view s" "reliable R s \<Longrightarrow> r = Inr ()"
  using assms
  by (auto simp: get_connection_def eval_script_def Let_def counter_def reliable_def fun_eq_iff
      split: option.splits)

lemma check_and_acquire_run:
  assumes ok: "redis_ok R view" and c: "covers view b (uint (concurrent_requests pol)) [] s"
    and run: "check_and_acquire R pol req s = (r, s')"
  shows "collected R view b (uint (concurrent_requests pol)) s (case r of Inl _ \<Rightarrow> [] | Inr keys \<Rightarrow> keys) s'"
proof (cases "is_disabled pol \<or> scopes req = []")
  case True
  then show ?thesis using run c by (auto simp: check_and_acquire_def collected_def)
next
  case False
  obtain x s1 where x: "get_connection s = (x, s1)" by fastforce
  note g = get_connection_run [OF x]
  have start: "collected R view b (uint (concurrent_requests pol)) s [] s" and nn: "nonneg view s"
    using c by (auto simp: collected_def covers_def)
  have here: "collected R view b (uint (concurrent_requests pol)) s [] s1"
    using start g(1) by (rule collected_same) (use nn in \<open>simp_all add: nonneg_def leased_def g(2)\<close>)
  show ?thesis
  proof (cases x)
    case (Inl e)
    then have "r = Inl e" "s' = s1" using run False x by (auto simp: check_and_acquire_def)
    then show ?thesis using here by simp
  next
    case (Inr u)
    then have "acquire_scopes R pol (estimated_prompt_tokens req) (scopes req) [] s1 = (r, s')"
      using run False x by (simp add: check_and_acquire_def)
    from acquire_scopes_run [OF ok here this] show ?thesis .
  qed
qed

lemma release_run:
  assumes ok: "redis_ok R view" and nn: "nonneg view s" and run: "release R keys s = (r, s')"
  shows "lm_fault s' = lm_fault s" "nonneg view s'" "leased view s sc - holds keys sc \<le> leased view s' sc"
    "reliable R s \<Longrightarrow> leased view s' sc = max 0 (leased view s sc - holds keys sc)"
proof -
  have "lm_fault s' = lm_fault s \<and> nonneg view s' \<and> leased view s sc - holds keys sc \<le> leased view s' sc
    \<and> (reliable R s \<longrightarrow> leased view s' sc = max 0 (leased view s sc - holds keys sc))"
  proof (cases "keys = []")
    case True
    then show ?thesis using run nn by (auto simp: release_def nonneg_def leased_def)
  next
    case False
    obtain x s1 where x: "get_connection s = (x, s1)" by fastforce
    note g = get_connection_run [OF x]
    have nn1: "nonneg view s1" using nn g(2) [of view] by (simp add: nonneg_def)
    have same: "leased view s1 sc = leased view s sc" using g(2) [of view] by (simp add: leased_def)
    have rel: "reliable R s1 = reliable R s" using g(1) by (simp add: reliable_def)
    show ?thesis
    proof (cases x)
      case (Inl e)
      then have "s' = s1" "\<not> reliable R s" using run False x g(3) by (auto simp: release_def)
      then show ?thesis using g(1) nn1 same by simp
    next
      case (Inr u)
      then have rk: "release_keys R keys s1 = (r, s')" using run False x by (simp add: release_def)
      note rr = release_keys_run(1,2) [OF ok nn1 rk]
        release_keys_run(3,4) [OF ok nn1 rk, of "concurrency_counter_key sc"]
      have "leased view s' sc = counter view s' (concurrency_counter_key sc)"
        "leased view s sc = counter view s1 (concurrency_counter_key sc)"
        "holds keys sc = int (count_list keys (concurrency_counter_key sc))"
        using same by (simp_all add: leased_def holds_def)
      then show ?thesis using rr rel g(1) by simp
    qed
  qed
  then show "lm_fault s' = lm_fault s" "nonneg view s'"
    "leased view s sc - holds keys sc \<le> leased view s' sc"
    "reliable R s \<Longrightarrow> leased view s' sc = max 0 (leased view s sc - holds keys sc)" by blast+
qed

section \<open>Many clients\<close>

text \<open>
  The store and the leases that are out. A request is admitted or refused, a lease is given back
  (whatever the release reports), and, when \<open>ttl\<close> is set, Redis drops a key that timed out.
\<close>

inductive lim_step ::
  "'r redis \<Rightarrow> ('r \<Rightarrow> str \<Rightarrow> int option) \<Rightarrow> runtime_limit_policy \<Rightarrow> bool
    \<Rightarrow> 'r limiter \<times> lease list \<Rightarrow> 'r limiter \<times> lease list \<Rightarrow> bool"
  for R view pol ttl where
  admit: "check_and_acquire R pol req s = (Inr keys, s') \<Longrightarrow>
     lim_step R view pol ttl (s, out) (s', keys # out)"
| refuse: "check_and_acquire R pol req s = (Inl e, s') \<Longrightarrow> lim_step R view pol ttl (s, out) (s', out)"
| finish: "keys \<in> set out \<Longrightarrow> release R keys s = (r, s') \<Longrightarrow>
     lim_step R view pol ttl (s, out) (s', remove1 keys out)"
| expire: "ttl \<Longrightarrow> view (lm_store s') = (view (lm_store s))(k := None) \<Longrightarrow> lm_fault s' = lm_fault s \<Longrightarrow>
     lim_step R view pol ttl (s, out) (s', out)"

inductive_cases lim_stepE: "lim_step R view pol ttl (s, out) (s', out')"

definition outstanding :: "lease list \<Rightarrow> limit_scope \<Rightarrow> int" where
  "outstanding out sc = sum_list (map (\<lambda>keys. holds keys sc) out)"

lemma outstanding_simps [simp]:
  "outstanding [] sc = 0" "outstanding (keys # out) sc = holds keys sc + outstanding out sc"
  by (simp_all add: outstanding_def)

lemma outstanding_nonneg [simp]: "0 \<le> outstanding out sc"
  by (induction out) auto

lemma outstanding_remove1: "keys \<in> set out \<Longrightarrow> outstanding (remove1 keys out) sc = outstanding out sc - holds keys sc"
  by (induction out) auto

text \<open>The leases that are out never exceed the limit, and the counters cover them.\<close>

definition lease_inv :: "('r \<Rightarrow> str \<Rightarrow> int option) \<Rightarrow> runtime_limit_policy \<Rightarrow> 'r limiter \<times> lease list \<Rightarrow> bool" where
  "lease_inv view pol c \<longleftrightarrow> covers view (outstanding (snd c)) (uint (concurrent_requests pol)) [] (fst c)
     \<and> (\<forall>sc. outstanding (snd c) sc \<le> uint (concurrent_requests pol))"

definition lease_exact :: "('r \<Rightarrow> str \<Rightarrow> int option) \<Rightarrow> 'r limiter \<times> lease list \<Rightarrow> bool" where
  "lease_exact view c \<longleftrightarrow> exactly view (outstanding (snd c)) [] (fst c)"

lemma lease_inv_taken:
  assumes "lease_inv view pol (s, out)" "collected R view (outstanding out) (uint (concurrent_requests pol)) s keys s'"
  shows "lease_inv view pol (s', keys # out) \<and> lm_fault s' = lm_fault s
    \<and> (reliable R s \<longrightarrow> lease_exact view (s, out) \<longrightarrow> lease_exact view (s', keys # out))"
proof -
  have "outstanding (keys # out) sc \<le> uint (concurrent_requests pol)" for sc
  proof -
    have "outstanding out sc \<le> uint (concurrent_requests pol)"
        "0 < holds keys sc \<longrightarrow> outstanding out sc + holds keys sc \<le> uint (concurrent_requests pol)"
      using assms by (simp_all add: collected_def covers_def lease_inv_def)
    then show ?thesis using holds_nonneg [of keys sc] by (cases "0 < holds keys sc") simp_all
  qed
  then show ?thesis
    using assms by (simp add: collected_def covers_def lease_inv_def lease_exact_def exactly_def add.commute)
qed

lemma lease_inv_released:
  assumes ok: "redis_ok R view" and inv: "lease_inv view pol (s, out)"
    and a: "out' = remove1 keys out" "keys \<in> set out" "release R keys s = (r, s')"
  shows "lease_inv view pol (s', out') \<and> lm_fault s' = lm_fault s
    \<and> (reliable R s \<longrightarrow> lease_exact view (s, out) \<longrightarrow> lease_exact view (s', out'))"
proof -
  have out: "outstanding out sc \<le> leased view s sc" "outstanding out sc \<le> uint (concurrent_requests pol)" for sc
    using inv by (simp_all add: lease_inv_def covers_def)
  have nn: "nonneg view s" using inv by (simp add: lease_inv_def covers_def)
  note rr = release_run [OF ok nn a(3)]
  have o: "outstanding out' sc = outstanding out sc - holds keys sc" for sc
    using outstanding_remove1 a by simp
  have "outstanding out' sc \<le> leased view s' sc \<and> outstanding out' sc \<le> uint (concurrent_requests pol)" for sc
    using rr(3) [of sc] o [of sc] out [of sc] holds_nonneg [of keys sc] by linarith
  moreover have "leased view s' sc = outstanding out' sc"
    if "reliable R s" "leased view s sc = outstanding out sc" for sc
    using rr(4) [OF that(1), of sc] that(2) o [of sc] outstanding_nonneg [of out' sc] by simp
  ultimately show ?thesis
    using rr by (simp add: lease_inv_def covers_def lease_exact_def exactly_def)
qed

lemma lease_inv_step:
  assumes ok: "redis_ok R view" and inv: "lease_inv view pol (s, out)"
    and st: "lim_step R view pol False (s, out) (s', out')"
  shows "lease_inv view pol (s', out') \<and> lm_fault s' = lm_fault s
    \<and> (reliable R s \<longrightarrow> lease_exact view (s, out) \<longrightarrow> lease_exact view (s', out'))"
  using st
proof (rule lim_stepE)
  fix req keys
  assume a: "out' = keys # out" "check_and_acquire R pol req s = (Inr keys, s')"
  have "collected R view (outstanding out) (uint (concurrent_requests pol)) s keys s'"
    using check_and_acquire_run [OF ok _ a(2), of "outstanding out"] inv by (simp add: lease_inv_def)
  from lease_inv_taken [OF inv this] show ?thesis by (simp add: a(1))
next
  fix req e
  assume "out' = out" "check_and_acquire R pol req s = (Inl e, s')"
  then show ?thesis
    using check_and_acquire_run [OF ok, of "outstanding out" pol s req "Inl e" s'] inv
    by (simp add: lease_inv_def lease_exact_def collected_def)
qed (use lease_inv_released [OF ok inv] in auto)

definition fresh_limiter :: "('r \<Rightarrow> str \<Rightarrow> int option) \<Rightarrow> 'r limiter \<Rightarrow> bool" where
  "fresh_limiter view s \<longleftrightarrow> view (lm_store s) = Map.empty"

lemma fresh_limiter_inv: "fresh_limiter view s \<Longrightarrow> lease_inv view pol (s, []) \<and> lease_exact view (s, [])"
  by (simp add: fresh_limiter_def lease_inv_def lease_exact_def covers_def exactly_def nonneg_def
      leased_def counter_def)

lemma lease_inv_reachable:
  assumes ok: "redis_ok R view" and start: "fresh_limiter view s0"
    and run: "(lim_step R view pol False)\<^sup>*\<^sup>* (s0, []) c"
  shows "lease_inv view pol c \<and> lm_fault (fst c) = lm_fault s0 \<and> (reliable R s0 \<longrightarrow> lease_exact view c)"
  using run
proof (induction rule: rtranclp_induct)
  case base
  then show ?case using fresh_limiter_inv [OF start] by simp
next
  case (step c c')
  then show ?case
    using lease_inv_step [OF ok, of pol "fst c" "snd c" "fst c'" "snd c'"] by (auto simp: reliable_def)
qed

section \<open>Properties\<close>

text \<open>A store with the documented behaviour, for the instances below.\<close>

definition map_redis :: "(str \<Rightarrow> int option) redis" where
  "map_redis =
     \<lparr>r_incrby = (\<lambda>k n st. let c = (case st k of None \<Rightarrow> 0 | Some v \<Rightarrow> v) + n in Inr (c, st(k \<mapsto> c))),
      r_expire = (\<lambda>k t st. st),
      r_exists = (\<lambda>k st. st k \<noteq> None),
      r_decr = (\<lambda>k st. let c = (case st k of None \<Rightarrow> 0 | Some v \<Rightarrow> v) - 1 in Inr (c, st(k \<mapsto> c))),
      r_del = (\<lambda>k st. st(k := None)),
      r_conversion_error = lit ''not an unsigned integer''\<rparr>"

lemma map_redis_ok [simp]: "redis_ok map_redis id"
  by (simp add: redis_ok_def map_redis_def Let_def)

definition calm_limiter :: "(str \<Rightarrow> int option) limiter" where
  "calm_limiter = \<lparr>lm_store = Map.empty, lm_tick = 0, lm_fault = (\<lambda>_. None)\<rparr>"

lemma calm_limiter_ok [simp]: "fresh_limiter id calm_limiter" "reliable map_redis calm_limiter"
  by (simp_all add: fresh_limiter_def calm_limiter_def reliable_def map_redis_def Let_def)

definition one_at_a_time :: runtime_limit_policy where
  "one_at_a_time = disabled\<lparr>concurrent_requests := 1\<rparr>"

definition one_user :: runtime_limit_request where
  "one_user = \<lparr>scopes = [User [7]], estimated_prompt_tokens = 10\<rparr>"

lemmas limits_run = check_and_acquire_def acquire_concurrency_lease_def increment_window_counter_def
  increment_script_def release_def release_keys_def release_key_def release_script_def eval_script_def
  get_connection_def check_request_counter_def check_token_counter_def give_back_def
  bind_op_def try_op_def ret_def throw_def Let_def is_disabled_def disabled_def

text \<open>C10. As long as no lease key times out, however many requests arrive, fail half-way and
  release in whatever order, and whatever calls to Redis are lost, the leases that are out for an
  API key, a user or a provider never exceed the limit; and over a reliable store each counter
  is exactly the number of leases that are out, so a refused or failed request leaves no trace
  and a released lease is available again.\<close>

theorem leases_within_limit:
  assumes "redis_ok R view" "fresh_limiter view s0"
    and "(lim_step R view pol False)\<^sup>*\<^sup>* (s0, []) (s, out)"
  shows "outstanding out sc \<le> uint (concurrent_requests pol)
    \<and> outstanding out sc \<le> leased view s sc
    \<and> (reliable R s0 \<longrightarrow> leased view s sc = outstanding out sc)"
  using lease_inv_reachable [OF assms]
  by (simp add: lease_inv_def covers_def lease_exact_def exactly_def)

lemma sample_admit:
  "check_and_acquire map_redis one_at_a_time one_user calm_limiter
     = (Inr [concurrency_counter_key (User [7])],
        \<lparr>lm_store = [concurrency_counter_key (User [7]) \<mapsto> 1], lm_tick = 2, lm_fault = (\<lambda>_. None)\<rparr>)"
  by (simp add: limits_run one_at_a_time_def one_user_def calm_limiter_def map_redis_def)

theorem leases_within_limit_witness:
  "\<exists>s. (lim_step map_redis id one_at_a_time False)\<^sup>*\<^sup>* (calm_limiter, [])
       (s, [[concurrency_counter_key (User [7])]])
     \<and> outstanding [[concurrency_counter_key (User [7])]] (User [7]) \<le> 1"
proof -
  obtain s where "(lim_step map_redis id one_at_a_time False)\<^sup>*\<^sup>* (calm_limiter, [])
      (s, [[concurrency_counter_key (User [7])]])"
    using lim_step.admit [OF sample_admit, of id False "[]"] by blast
  then show ?thesis
    using leases_within_limit [OF map_redis_ok calm_limiter_ok(1), of one_at_a_time s
        "[[concurrency_counter_key (User [7])]]" "User [7]"]
    by (auto simp: one_at_a_time_def disabled_def)
qed



text \<open>The lease timeout defeats the limit: its expiry is set when the counter is created
  and never renewed, so when the key times out while a request is still running, the next request
  is admitted on a fresh counter and two leases are out under a limit of one.\<close>

theorem expired_lease_key_overshoots:
  "\<exists>s out. (lim_step map_redis id one_at_a_time True)\<^sup>*\<^sup>* (calm_limiter, []) (s, out)
     \<and> outstanding out (User [7]) = 2 \<and> concurrent_requests one_at_a_time = 1"
proof -
  let ?k = "concurrency_counter_key (User [7])"
  let ?empty = "\<lambda>n. \<lparr>lm_store = Map.empty, lm_tick = n, lm_fault = (\<lambda>_. None)\<rparr>"
  have one: "lim_step map_redis id one_at_a_time True (calm_limiter, [])
      (\<lparr>lm_store = [?k \<mapsto> 1], lm_tick = 2, lm_fault = (\<lambda>_. None)\<rparr>, [[?k]])"
    using lim_step.admit [OF sample_admit] by blast
  have two: "lim_step map_redis id one_at_a_time True
      (\<lparr>lm_store = [?k \<mapsto> 1], lm_tick = 2, lm_fault = (\<lambda>_. None)\<rparr>, [[?k]]) (?empty 2, [[?k]])"
    by (rule lim_step.expire [where k = ?k]) auto
  have again: "check_and_acquire map_redis one_at_a_time one_user (?empty 2)
     = (Inr [?k], \<lparr>lm_store = [?k \<mapsto> 1], lm_tick = 4, lm_fault = (\<lambda>_. None)\<rparr>)"
    by (simp add: limits_run one_at_a_time_def one_user_def map_redis_def)
  have three: "lim_step map_redis id one_at_a_time True (?empty 2, [[?k]])
      (\<lparr>lm_store = [?k \<mapsto> 1], lm_tick = 4, lm_fault = (\<lambda>_. None)\<rparr>, [[?k], [?k]])"
    using lim_step.admit [OF again] by blast
  have "(lim_step map_redis id one_at_a_time True)\<^sup>*\<^sup>* (calm_limiter, [])
      (\<lparr>lm_store = [?k \<mapsto> 1], lm_tick = 4, lm_fault = (\<lambda>_. None)\<rparr>, [[?k], [?k]])"
    using one two three by (meson converse_rtranclp_into_rtranclp rtranclp.rtrancl_refl)
  moreover have "outstanding [[?k], [?k]] (User [7]) = 2" by (simp add: holds_def)
  moreover have "concurrent_requests one_at_a_time = 1" by (simp add: one_at_a_time_def)
  ultimately show ?thesis by blast
qed

text \<open>C28. The request window counts every request and the token window every estimated prompt
  token, also of refused requests: over a reliable store the counter grows by exactly that amount,
  the check passes exactly when the new count is within the limit, and a limit of zero is no
  limit at all and touches nothing.\<close>

theorem window_checks_are_exact:
  assumes ok: "redis_ok R view" "reliable R s" "nonneg view s"
    and run: "check_request_counter R pol sc s = (r, s1)" "check_token_counter R pol sc tokens s = (t, s2)"
  shows "(if requests_per_window pol = 0 then r = Inr () \<and> s1 = s
      else counter view s1 = (counter view s)(request_counter_key sc := counter view s (request_counter_key sc) + 1)
        \<and> r = (if counter view s (request_counter_key sc) + 1 \<le> uint (requests_per_window pol) then Inr ()
               else Inl (exceeded ''requests_per_window'' sc)))
   \<and> (if tokens_per_window pol = 0 \<or> tokens = 0 then t = Inr () \<and> s2 = s
      else counter view s2 = (counter view s)(token_counter_key sc := counter view s (token_counter_key sc) + uint tokens)
        \<and> t = (if counter view s (token_counter_key sc) + uint tokens \<le> uint (tokens_per_window pol) then Inr ()
               else Inl (exceeded ''tokens_per_window'' sc)))"
proof
  obtain x s' where x: "increment_window_counter R (request_counter_key sc) (window_seconds pol) 1 s = (x, s')"
    by fastforce
  show "if requests_per_window pol = 0 then r = Inr () \<and> s1 = s
      else counter view s1 = (counter view s)(request_counter_key sc := counter view s (request_counter_key sc) + 1)
        \<and> r = (if counter view s (request_counter_key sc) + 1 \<le> uint (requests_per_window pol) then Inr ()
               else Inl (exceeded ''requests_per_window'' sc))"
    using increment_run [OF ok(1,3) x] ok(2) run(1) x
    by (auto simp: check_request_counter_def bind_op_def split: if_splits)
  obtain y s'' where y: "increment_window_counter R (token_counter_key sc) (window_seconds pol) tokens s = (y, s'')"
    by fastforce
  show "if tokens_per_window pol = 0 \<or> tokens = 0 then t = Inr () \<and> s2 = s
      else counter view s2 = (counter view s)(token_counter_key sc := counter view s (token_counter_key sc) + uint tokens)
        \<and> t = (if counter view s (token_counter_key sc) + uint tokens \<le> uint (tokens_per_window pol) then Inr ()
               else Inl (exceeded ''tokens_per_window'' sc))"
    using increment_run [OF ok(1,3) y] ok(2) run(2) y
    by (auto simp: check_token_counter_def bind_op_def split: if_splits)
qed

theorem window_checks_are_exact_witness:
  "fst (check_request_counter map_redis (disabled\<lparr>requests_per_window := 1\<rparr>) (User [7]) calm_limiter) = Inr ()"
  using window_checks_are_exact [OF map_redis_ok calm_limiter_ok(2) _ prod.collapse [symmetric]
      prod.collapse [symmetric], of "disabled\<lparr>requests_per_window := 1\<rparr>" "User [7]" 5]
  by (simp add: nonneg_def counter_def calm_limiter_def disabled_def)

end
