(* ===== verification/Row_Lifecycle.thy ===== *)
theory Row_Lifecycle
  imports Main
begin

text \<open>
  The contract of a table whose rows reach a final state: steps never delete a row, never move or
  reuse a key, and a row that is final stays final and keeps what \<open>keep\<close> protects. It then holds
  after any number of steps. Theories Dispatch, Auth and Daemon_Nodes interpret it on their
  statements.
\<close>

locale row_lifecycle =
  fixes key :: "'r \<Rightarrow> 'k"
    and final :: "'r \<Rightarrow> bool"
    and keep :: "'r \<Rightarrow> 'r \<Rightarrow> bool"
    and step :: "'r list \<Rightarrow> 'r list \<Rightarrow> bool"
  assumes keep_refl: "keep r r"
    and keep_trans: "keep a b \<Longrightarrow> keep b c \<Longrightarrow> keep a c"
    and step_keys: "step rs rs' \<Longrightarrow> \<exists>new. map key rs' = map key rs @ new"
    and step_final: "step rs rs' \<Longrightarrow> r \<in> set rs \<Longrightarrow> final r \<Longrightarrow>
      \<exists>r' \<in> set rs'. key r' = key r \<and> final r' \<and> keep r r'"
    and step_distinct: "step rs rs' \<Longrightarrow> distinct (map key rs) \<Longrightarrow> distinct (map key rs')"
begin

lemma final_forever:
  "step\<^sup>*\<^sup>* rs rs' \<Longrightarrow> r \<in> set rs \<Longrightarrow> final r \<Longrightarrow>
     \<exists>r' \<in> set rs'. key r' = key r \<and> final r' \<and> keep r r'"
proof (induction rule: rtranclp_induct)
  case base
  then show ?case using keep_refl by blast
next
  case (step y z)
  then obtain r1 where r1: "r1 \<in> set y" "key r1 = key r" "final r1" "keep r r1" by blast
  then show ?case using step_final [OF step.hyps(2) r1(1,3)] keep_trans by metis
qed

lemma keys_forever: "step\<^sup>*\<^sup>* rs rs' \<Longrightarrow> \<exists>new. map key rs' = map key rs @ new"
proof (induction rule: rtranclp_induct)
  case (step y z)
  then show ?case using step_keys [OF step.hyps(2)] by auto
qed simp

lemma distinct_forever: "step\<^sup>*\<^sup>* rs rs' \<Longrightarrow> distinct (map key rs) \<Longrightarrow> distinct (map key rs')"
  by (induction rule: rtranclp_induct) (auto simp: step_distinct)

lemma row_is_final:
  assumes "step\<^sup>*\<^sup>* rs rs'" "distinct (map key rs)" "r \<in> set rs" "final r" "r' \<in> set rs'" "key r' = key r"
  shows "final r' \<and> keep r r'"
proof -
  obtain x where x: "x \<in> set rs'" "key x = key r" "final x" "keep r x"
    using final_forever [OF assms(1,3,4)] by blast
  have "distinct (map key rs')" using distinct_forever assms by blast
  then have "x = r'" using x assms(5,6) by (auto simp: distinct_map inj_on_def)
  then show ?thesis using x by simp
qed

end

end
