(* ===== verification/Dispatch.thy ===== *)
theory Dispatch
  imports Billing Row_Lifecycle
begin

text \<open>
  Jobs handed to daemon nodes (crates/mizan-api/src/dispatch.rs): creation, leasing, completion,
  the polling wait of the gateway and the two timeouts. Each statement is a function on the job
  table; the handlers are composed of them. \<open>serde_json\<close> of requests and responses is a
  parameter. While the gateway sleeps between two polls, \<open>others\<close> is whatever the rest of the
  system does to the world, and \<open>elapsed n\<close> the milliseconds on the clock at the \<open>n\<close>-th poll.
\<close>

record chat_codec =
  encode_request :: "chat_request \<Rightarrow> str + str"
  decode_request :: "str \<Rightarrow> str + chat_request"
  encode_response :: "chat_response \<Rightarrow> str + str"
  decode_response :: "str \<Rightarrow> str + chat_response"

definition codec_ok :: "chat_codec \<Rightarrow> bool" where
  "codec_ok c \<longleftrightarrow> (\<forall>r s. encode_request c r = Inr s \<longrightarrow> decode_request c s = Inr r)
     \<and> (\<forall>r s. encode_response c r = Inr s \<longrightarrow> decode_response c s = Inr r)"

definition STATUS_ACCEPTED :: str where "STATUS_ACCEPTED = lit ''accepted''"
definition STATUS_LEASED :: str where "STATUS_LEASED = lit ''leased''"
definition STATUS_SUCCEEDED :: str where "STATUS_SUCCEEDED = lit ''succeeded''"
definition STATUS_FAILED :: str where "STATUS_FAILED = lit ''failed''"
definition STATUS_TIMED_OUT :: str where "STATUS_TIMED_OUT = lit ''timed_out''"

lemmas status_defs = STATUS_ACCEPTED_def STATUS_LEASED_def STATUS_SUCCEEDED_def STATUS_FAILED_def
  STATUS_TIMED_OUT_def

record dispatch_job_input =
  ji_request_id :: uuid
  ji_node_id :: uuid
  ji_user_id :: "uuid option"
  ji_api_key_id :: "uuid option"
  ji_model :: str
  ji_request :: chat_request
  ji_timeout_seconds :: u32

record job_lease =
  jl_id :: uuid
  jl_request_id :: uuid
  jl_model :: str
  jl_request :: chat_request
  jl_deadline_at :: str

record job_complete_request =
  jc_status :: str
  jc_response :: "chat_response option"
  jc_error_code :: "str option"
  jc_error_message :: "str option"

datatype dispatch_job_result =
    Succeeded chat_response
  | Failed "str option" str
  | TimedOut

section \<open>Statements\<close>

definition insert_job :: "dispatch_job_row \<Rightarrow> unit stmt" where
  "insert_job row d =
     (if dj_id row \<in> dj_id ` set (dispatch_jobs d) then None
      else Some (d\<lparr>dispatch_jobs := dispatch_jobs d @ [row]\<rparr>, ()))"

definition update_jobs :: "(dispatch_job_row \<Rightarrow> bool) \<Rightarrow> (dispatch_job_row \<Rightarrow> dispatch_job_row) \<Rightarrow> nat stmt" where
  "update_jobs p f d = (case update_rows p f (dispatch_jobs d) of
      (rows, n) \<Rightarrow> Some (d\<lparr>dispatch_jobs := rows\<rparr>, n))"

definition leasable_jobs :: "uuid \<Rightarrow> str \<Rightarrow> database \<Rightarrow> dispatch_job_row list" where
  "leasable_jobs node_id now d = take 5 (order_by dj_created_at (filter (\<lambda>j.
     dj_node_id j = node_id \<and> dj_status j = STATUS_ACCEPTED \<and> str_le now (dj_deadline_at j))
     (dispatch_jobs d)))"

definition lease_rows :: "str \<Rightarrow> uuid \<Rightarrow> str \<Rightarrow> nat stmt" where
  "lease_rows job_id node_id now = update_jobs
     (\<lambda>j. dj_id j = job_id \<and> dj_node_id j = node_id \<and> dj_status j = STATUS_ACCEPTED)
     (\<lambda>j. j\<lparr>dj_status := STATUS_LEASED, dj_leased_at := Some now, dj_updated_at := now\<rparr>)"

definition complete_rows ::
  "uuid \<Rightarrow> uuid \<Rightarrow> str \<Rightarrow> str option \<Rightarrow> str option \<Rightarrow> str option \<Rightarrow> str \<Rightarrow> nat stmt" where
  "complete_rows job_id node_id status response error_code error_message now = update_jobs
     (\<lambda>j. dj_id j = job_id \<and> dj_node_id j = node_id \<and> dj_status j = STATUS_LEASED)
     (\<lambda>j. j\<lparr>dj_status := status, dj_response_json := response, dj_error_code := error_code,
           dj_error_message := error_message, dj_completed_at := Some now, dj_updated_at := now\<rparr>)"

definition time_out :: "str \<Rightarrow> dispatch_job_row \<Rightarrow> dispatch_job_row" where
  "time_out now j = j\<lparr>dj_status := STATUS_TIMED_OUT, dj_error_code := Some (lit ''timeout''),
     dj_error_message := Some (lit ''daemon dispatch timed out''), dj_completed_at := Some now,
     dj_updated_at := now\<rparr>"

definition job_open :: "dispatch_job_row \<Rightarrow> bool" where
  "job_open j \<longleftrightarrow> dj_status j = STATUS_ACCEPTED \<or> dj_status j = STATUS_LEASED"

definition time_out_rows :: "uuid \<Rightarrow> str \<Rightarrow> nat stmt" where
  "time_out_rows job_id now = update_jobs (\<lambda>j. dj_id j = job_id \<and> job_open j) (time_out now)"

definition expire_rows :: "str \<Rightarrow> nat stmt" where
  "expire_rows now = update_jobs (\<lambda>j. job_open j \<and> str_less (dj_deadline_at j) now) (time_out now)"

lemma update_jobs_eq: "update_jobs p f d =
    Some (d\<lparr>dispatch_jobs := fst (update_rows p f (dispatch_jobs d))\<rparr>, snd (update_rows p f (dispatch_jobs d)))"
  by (simp add: update_jobs_def case_prod_beta)

section \<open>Handlers\<close>

definition create_dispatch_job :: "chat_codec \<Rightarrow> dispatch_job_input \<Rightarrow> uuid op" where
  "create_dispatch_job c input =
     bind_op uuid_now_v7 (\<lambda>job_id.
     bind_op unix_timestamp_string (\<lambda>now.
     bind_op now_utc_epoch_seconds (\<lambda>seconds.
     bind_op (ret (show_int (i64_saturating_add (int seconds)
         (uint (max (ji_timeout_seconds input) 1))))) (\<lambda>deadline_at.
     bind_op (of_result (map_err (infra ''dispatch request encode failed: '')
         (encode_request c (ji_request input)))) (\<lambda>request_json.
     bind_op (err_op Infrastructure (exec (insert_job
         \<lparr>dj_id = job_id, dj_request_id = ji_request_id input, dj_node_id = ji_node_id input,
          dj_user_id = ji_user_id input, dj_api_key_id = ji_api_key_id input,
          dj_model = ji_model input, dj_status = STATUS_ACCEPTED, dj_request_json = request_json,
          dj_response_json = None, dj_error_code = None, dj_error_message = None,
          dj_leased_at = None, dj_completed_at = None, dj_deadline_at = deadline_at,
          dj_created_at = now, dj_updated_at = now\<rparr>))) (\<lambda>_.
     ret job_id))))))"

definition mark_expired_jobs_timed_out :: "unit op" where
  "mark_expired_jobs_timed_out =
     bind_op unix_timestamp_string (\<lambda>now.
     bind_op (err_op Infrastructure (exec (expire_rows now))) (\<lambda>_. ret ()))"

definition mark_job_timed_out :: "uuid \<Rightarrow> unit op" where
  "mark_job_timed_out job_id =
     bind_op unix_timestamp_string (\<lambda>now.
     bind_op (err_op Infrastructure (exec (time_out_rows job_id now))) (\<lambda>_. ret ()))"

text \<open>The loop over the selected rows: the first one whose update takes effect is leased.\<close>

fun lease_first :: "chat_codec \<Rightarrow> uuid \<Rightarrow> str \<Rightarrow> dispatch_job_row list \<Rightarrow> job_lease option op" where
  "lease_first c node_id now [] = ret None"
| "lease_first c node_id now (row # rows) =
     bind_op (err_op Infrastructure (exec (lease_rows (dj_id row) node_id now))) (\<lambda>affected.
     if affected \<noteq> 1 then lease_first c node_id now rows
     else
       bind_op (uuid_parse ''stored dispatch id is invalid: '' (dj_id row)) (\<lambda>job_id.
       bind_op (uuid_parse ''stored dispatch request id is invalid: '' (dj_request_id row)) (\<lambda>request_id.
       bind_op (of_result (map_err (infra ''stored dispatch request is invalid: '')
           (decode_request c (dj_request_json row)))) (\<lambda>request.
       ret (Some \<lparr>jl_id = job_id, jl_request_id = request_id, jl_model = dj_model row,
                  jl_request = request, jl_deadline_at = dj_deadline_at row\<rparr>)))))"

definition lease_next_job_for_node :: "chat_codec \<Rightarrow> uuid \<Rightarrow> job_lease option op" where
  "lease_next_job_for_node c node_id =
     bind_op mark_expired_jobs_timed_out (\<lambda>_.
     bind_op unix_timestamp_string (\<lambda>now.
     bind_op (err_op Infrastructure (exec (query_stmt (leasable_jobs node_id now)))) (\<lambda>rows.
     lease_first c node_id now rows)))"

definition lease_next_dispatch_job :: "chat_codec \<Rightarrow> uuid \<Rightarrow> job_lease option handler" where
  "lease_next_dispatch_job c identity_node_id =
     err_op from_app_error (lease_next_job_for_node c identity_node_id)"

definition complete_job :: "chat_codec \<Rightarrow> uuid \<Rightarrow> uuid \<Rightarrow> job_complete_request \<Rightarrow> str op" where
  "complete_job c node_id job_id payload =
     bind_op (of_result
       (if trim (jc_status payload) = STATUS_SUCCEEDED then Inr STATUS_SUCCEEDED
        else if trim (jc_status payload) = STATUS_FAILED then Inr STATUS_FAILED
        else Inl (InvalidConfig (lit ''dispatch_job.status'') (lit ''status must be succeeded or failed'')))) (\<lambda>status.
     if status = STATUS_SUCCEEDED \<and> jc_response payload = None then
       throw (InvalidConfig (lit ''dispatch_job.response'')
         (lit ''response is required when status is succeeded''))
     else
     bind_op (of_result (case jc_response payload of
         None \<Rightarrow> Inr None
       | Some r \<Rightarrow> and_then (map_err (infra ''dispatch response encode failed: '')
                      (encode_response c r)) (\<lambda>s. Inr (Some s)))) (\<lambda>response_json.
     bind_op unix_timestamp_string (\<lambda>now.
     bind_op (ret (case jc_error_message payload of
         None \<Rightarrow> None | Some m \<Rightarrow> if trim m = [] then None else Some (trim m))) (\<lambda>error_message.
     bind_op (err_op Infrastructure (exec (complete_rows job_id node_id status response_json
         (jc_error_code payload) error_message now))) (\<lambda>affected.
     if affected \<noteq> 1 then throw (NotFound (lit ''leased dispatch job not found''))
     else ret status)))))"

record job_status_response =
  js_id :: uuid
  js_status :: str

definition complete_dispatch_job ::
  "chat_codec \<Rightarrow> uuid \<Rightarrow> uuid \<Rightarrow> job_complete_request \<Rightarrow> job_status_response handler" where
  "complete_dispatch_job c identity_node_id job_id payload =
     bind_op (err_op from_app_error (complete_job c identity_node_id job_id payload)) (\<lambda>status.
     ret \<lparr>js_id = job_id, js_status = status\<rparr>)"

definition terminal_result :: "chat_codec \<Rightarrow> dispatch_job_row \<Rightarrow> app_error + dispatch_job_result option" where
  "terminal_result c row =
     (if dj_status row = STATUS_SUCCEEDED then
        and_then (ok_or (Infrastructure (lit ''dispatch job succeeded without response_json''))
          (dj_response_json row)) (\<lambda>raw.
        and_then (map_err (infra ''stored dispatch response is invalid: '') (decode_response c raw)) (\<lambda>response.
        Inr (Some (Succeeded response))))
      else if dj_status row = STATUS_FAILED then
        Inr (Some (Failed (dj_error_code row)
          (case dj_error_message row of Some m \<Rightarrow> m | None \<Rightarrow> lit ''daemon job failed'')))
      else if dj_status row = STATUS_TIMED_OUT then Inr (Some TimedOut)
      else Inr None)"

definition fetch_terminal_result :: "chat_codec \<Rightarrow> uuid \<Rightarrow> dispatch_job_result option op" where
  "fetch_terminal_result c job_id =
     bind_op (err_op Infrastructure (exec (query_stmt
         (\<lambda>d. find (\<lambda>j. dj_id j = job_id) (dispatch_jobs d))))) (\<lambda>row.
     case row of
       None \<Rightarrow> throw (NotFound (lit ''dispatch job not found''))
     | Some row \<Rightarrow> of_result (terminal_result c row))"

text \<open>The polling loop. \<open>None\<close> means that the fuel ran out before the loop returned.\<close>

fun wait_loop ::
  "chat_codec \<Rightarrow> (nat \<Rightarrow> world \<Rightarrow> world) \<Rightarrow> (nat \<Rightarrow> nat) \<Rightarrow> uuid \<Rightarrow> nat \<Rightarrow> nat \<Rightarrow> nat \<Rightarrow> world
    \<Rightarrow> ((app_error + dispatch_job_result) \<times> world) option" where
  "wait_loop c others elapsed job_id timeout_ms n 0 w = None"
| "wait_loop c others elapsed job_id timeout_ms n (Suc fuel) w =
     (case fetch_terminal_result c job_id w of
        (Inl e, w') \<Rightarrow> Some (Inl e, w')
      | (Inr (Some result), w') \<Rightarrow> Some (Inr result, w')
      | (Inr None, w') \<Rightarrow>
          if timeout_ms \<le> elapsed n then Some (Inr TimedOut, w')
          else wait_loop c others elapsed job_id timeout_ms (Suc n) fuel (others n w'))"

definition wait_fuel :: "nat \<Rightarrow> nat" where
  "wait_fuel timeout_ms = timeout_ms div 100 + 2"

definition wait_for_dispatch_result ::
  "chat_codec \<Rightarrow> (nat \<Rightarrow> world \<Rightarrow> world) \<Rightarrow> (nat \<Rightarrow> nat) \<Rightarrow> uuid \<Rightarrow> nat \<Rightarrow> world
    \<Rightarrow> ((app_error + dispatch_job_result) \<times> world) option" where
  "wait_for_dispatch_result c others elapsed job_id timeout_seconds w =
     wait_loop c others elapsed job_id (timeout_seconds * 1000) 0 (wait_fuel (timeout_seconds * 1000)) w"

definition dispatch_to_daemon_node ::
  "chat_codec \<Rightarrow> (nat \<Rightarrow> world \<Rightarrow> world) \<Rightarrow> (nat \<Rightarrow> nat) \<Rightarrow> dispatch_job_input \<Rightarrow> world
    \<Rightarrow> ((app_error + dispatch_job_result) \<times> world) option" where
  "dispatch_to_daemon_node c others elapsed input w =
     (case create_dispatch_job c input w of
        (Inl e, w1) \<Rightarrow> Some (Inl e, w1)
      | (Inr job_id, w1) \<Rightarrow>
          (case wait_for_dispatch_result c others elapsed job_id
                  (unat (max (ji_timeout_seconds input) 1)) w1 of
             None \<Rightarrow> None
           | Some (Inr TimedOut, w2) \<Rightarrow>
               Some (bind_op (mark_job_timed_out job_id) (\<lambda>_. ret TimedOut) w2)
           | Some (r, w2) \<Rightarrow> Some (r, w2)))"

section \<open>The life of a job\<close>

definition terminal :: "dispatch_job_row \<Rightarrow> bool" where
  "terminal j \<longleftrightarrow> dj_status j \<in> {STATUS_SUCCEEDED, STATUS_FAILED, STATUS_TIMED_OUT}"

definition new_job :: "dispatch_job_row \<Rightarrow> bool" where
  "new_job j \<longleftrightarrow> dj_status j = STATUS_ACCEPTED \<and> dj_response_json j = None \<and> dj_leased_at j = None
     \<and> dj_completed_at j = None"

inductive job_step :: "dispatch_job_row list \<Rightarrow> dispatch_job_row list \<Rightarrow> bool" where
  create: "dj_id j \<notin> dj_id ` set js \<Longrightarrow> new_job j \<Longrightarrow> job_step js (js @ [j])"
| lease: "job_step js (fst (update_rows
     (\<lambda>j. dj_id j = i \<and> dj_node_id j = n \<and> dj_status j = STATUS_ACCEPTED)
     (\<lambda>j. j\<lparr>dj_status := STATUS_LEASED, dj_leased_at := Some now, dj_updated_at := now\<rparr>) js))"
| complete: "st = STATUS_SUCCEEDED \<and> response \<noteq> None \<or> st = STATUS_FAILED \<Longrightarrow> job_step js (fst (update_rows
     (\<lambda>j. dj_id j = i \<and> dj_node_id j = n \<and> dj_status j = STATUS_LEASED)
     (\<lambda>j. j\<lparr>dj_status := st, dj_response_json := response, dj_error_code := code,
           dj_error_message := message, dj_completed_at := Some now, dj_updated_at := now\<rparr>) js))"
| time_out: "job_step js (fst (update_rows (\<lambda>j. p j \<and> job_open j) (time_out now) js))"

text \<open>What is true of every stored job.\<close>

definition job_wf :: "dispatch_job_row \<Rightarrow> bool" where
  "job_wf j \<longleftrightarrow> (job_open j \<or> terminal j)
     \<and> (dj_completed_at j \<noteq> None \<longleftrightarrow> terminal j)
     \<and> (dj_status j = STATUS_SUCCEEDED \<longrightarrow> dj_response_json j \<noteq> None)
     \<and> (dj_status j = STATUS_ACCEPTED \<longrightarrow> dj_leased_at j = None)
     \<and> (dj_status j \<in> {STATUS_LEASED, STATUS_SUCCEEDED, STATUS_FAILED} \<longrightarrow> dj_leased_at j \<noteq> None)"

text \<open>What a job keeps from its creation on.\<close>

definition same_job :: "dispatch_job_row \<Rightarrow> dispatch_job_row \<Rightarrow> bool" where
  "same_job a b \<longleftrightarrow> dj_id b = dj_id a \<and> dj_node_id b = dj_node_id a \<and> dj_model b = dj_model a
     \<and> dj_request_json b = dj_request_json a \<and> dj_deadline_at b = dj_deadline_at a"

lemma status_distinct [simp]:
  "STATUS_ACCEPTED \<noteq> STATUS_LEASED" "STATUS_ACCEPTED \<noteq> STATUS_SUCCEEDED" "STATUS_ACCEPTED \<noteq> STATUS_FAILED"
  "STATUS_ACCEPTED \<noteq> STATUS_TIMED_OUT" "STATUS_LEASED \<noteq> STATUS_SUCCEEDED" "STATUS_LEASED \<noteq> STATUS_FAILED"
  "STATUS_LEASED \<noteq> STATUS_TIMED_OUT" "STATUS_SUCCEEDED \<noteq> STATUS_FAILED" "STATUS_SUCCEEDED \<noteq> STATUS_TIMED_OUT"
  "STATUS_FAILED \<noteq> STATUS_TIMED_OUT"
  by (simp_all add: status_defs)

lemmas status_distinct_sym [simp] = status_distinct [symmetric]

lemma time_out_fields [simp]:
  "dj_id (time_out now j) = dj_id j" "dj_status (time_out now j) = STATUS_TIMED_OUT"
  "dj_completed_at (time_out now j) = Some now" "dj_leased_at (time_out now j) = dj_leased_at j"
  "dj_node_id (time_out now j) = dj_node_id j" "dj_model (time_out now j) = dj_model j"
  "dj_request_json (time_out now j) = dj_request_json j" "dj_deadline_at (time_out now j) = dj_deadline_at j"
  by (simp_all add: time_out_def)

text \<open>Every step either adds a new job or rewrites rows in place under a guard.\<close>

lemma job_step_shape:
  assumes "job_step js js'"
  shows "(\<exists>j. dj_id j \<notin> dj_id ` set js \<and> new_job j \<and> js' = js @ [j])
    \<or> (\<exists>f. js' = map f js \<and> (\<forall>j. same_job j (f j)
         \<and> (terminal j \<longrightarrow> f j = j)
         \<and> (dj_status j \<noteq> STATUS_ACCEPTED \<longrightarrow> dj_status (f j) \<noteq> STATUS_ACCEPTED)
         \<and> (job_wf j \<longrightarrow> job_wf (f j))))"
  using assms
proof cases
  case (create j)
  then show ?thesis by blast
next
  case (lease i n now)
  show ?thesis
    by (rule disjI2, rule exI [of _ "\<lambda>j. if dj_id j = i \<and> dj_node_id j = n \<and> dj_status j = STATUS_ACCEPTED
        then j\<lparr>dj_status := STATUS_LEASED, dj_leased_at := Some now, dj_updated_at := now\<rparr> else j"])
      (auto simp: lease update_rows_def same_job_def terminal_def job_wf_def job_open_def)
next
  case (complete st response i n now message code)
  show ?thesis
    by (rule disjI2, rule exI [of _ "\<lambda>j. if dj_id j = i \<and> dj_node_id j = n \<and> dj_status j = STATUS_LEASED
        then j\<lparr>dj_status := st, dj_response_json := response, dj_error_code := code,
           dj_error_message := message, dj_completed_at := Some now, dj_updated_at := now\<rparr> else j"])
      (use complete(2) in \<open>auto simp: complete(1) update_rows_def same_job_def terminal_def job_wf_def job_open_def\<close>)
next
  case (time_out p now)
  show ?thesis
    by (rule disjI2, rule exI [of _ "\<lambda>j. if p j \<and> job_open j then Dispatch.time_out now j else j"])
      (auto simp: time_out update_rows_def same_job_def terminal_def job_wf_def job_open_def)
qed

lemma job_step_lifecycle:
  assumes final: "\<And>j. final j \<Longrightarrow> dj_status j \<noteq> STATUS_ACCEPTED \<or> final = (\<lambda>_. True)"
    and keep: "\<And>j j'. final j \<Longrightarrow> same_job j j' \<Longrightarrow> (terminal j \<Longrightarrow> j' = j)
      \<Longrightarrow> (dj_status j \<noteq> STATUS_ACCEPTED \<Longrightarrow> dj_status j' \<noteq> STATUS_ACCEPTED) \<Longrightarrow> final j' \<and> keep j j'"
    and refl: "\<And>j. keep j j" and trans: "\<And>a b c. keep a b \<Longrightarrow> keep b c \<Longrightarrow> keep a c"
  shows "row_lifecycle dj_id final keep job_step"
proof
  fix r a b c :: dispatch_job_row and rs rs' :: "dispatch_job_row list"
  show "keep r r" by (fact refl)
  show "keep a b \<Longrightarrow> keep b c \<Longrightarrow> keep a c" by (fact trans)
  show "\<exists>new. map dj_id rs' = map dj_id rs @ new" if "job_step rs rs'"
    using job_step_shape [OF that]
  proof (elim disjE exE conjE)
    fix f assume "rs' = map f rs" "\<forall>j. same_job j (f j) \<and> (terminal j \<longrightarrow> f j = j)
         \<and> (dj_status j \<noteq> STATUS_ACCEPTED \<longrightarrow> dj_status (f j) \<noteq> STATUS_ACCEPTED)
         \<and> (job_wf j \<longrightarrow> job_wf (f j))"
    then have "map dj_id rs' = map dj_id rs @ []" by (simp add: same_job_def)
    then show ?thesis ..
  qed simp
  show "\<exists>r' \<in> set rs'. dj_id r' = dj_id r \<and> final r' \<and> keep r r'"
    if "job_step rs rs'" "r \<in> set rs" "final r"
    using job_step_shape [OF that(1)]
  proof (elim disjE exE conjE)
    fix f assume f: "rs' = map f rs" "\<forall>j. same_job j (f j) \<and> (terminal j \<longrightarrow> f j = j)
         \<and> (dj_status j \<noteq> STATUS_ACCEPTED \<longrightarrow> dj_status (f j) \<noteq> STATUS_ACCEPTED)
         \<and> (job_wf j \<longrightarrow> job_wf (f j))"
    then have "final (f r) \<and> keep r (f r)" using keep [OF that(3), of "f r"] by blast
    moreover have "dj_id (f r) = dj_id r" using f by (simp add: same_job_def)
    ultimately show ?thesis using f(1) that(2) by auto
  qed (use that refl in auto)
  show "distinct (map dj_id rs')" if "job_step rs rs'" "distinct (map dj_id rs)"
    using job_step_shape [OF that(1)]
  proof (elim disjE exE conjE)
    fix f assume "rs' = map f rs" "\<forall>j. same_job j (f j) \<and> (terminal j \<longrightarrow> f j = j)
         \<and> (dj_status j \<noteq> STATUS_ACCEPTED \<longrightarrow> dj_status (f j) \<noteq> STATUS_ACCEPTED)
         \<and> (job_wf j \<longrightarrow> job_wf (f j))"
    then show ?thesis using that(2) by (auto simp: same_job_def o_def)
  qed (use that in auto)
qed

text \<open>A finished job never changes, a job that was handed out is never handed out again, and a
  job keeps its node, model and request.\<close>

interpretation job_end: row_lifecycle dj_id terminal "(=)" job_step
  by (rule job_step_lifecycle) (auto simp: terminal_def)

interpretation job_out: row_lifecycle dj_id "\<lambda>j. dj_status j \<noteq> STATUS_ACCEPTED" "\<lambda>_ _. True" job_step
  by (rule job_step_lifecycle) auto

interpretation job_same: row_lifecycle dj_id "\<lambda>_. True" same_job job_step
  by (rule job_step_lifecycle) (auto simp: same_job_def)

lemma job_wf_forever: "job_step\<^sup>*\<^sup>* js js' \<Longrightarrow> \<forall>j \<in> set js. job_wf j \<Longrightarrow> \<forall>j \<in> set js'. job_wf j"
proof (induction rule: rtranclp_induct)
  case (step y z)
  have new: "job_wf j" if "new_job j" for j
    using that by (simp add: new_job_def job_wf_def job_open_def terminal_def)
  show ?case using job_step_shape [OF step.hyps(2)] step.IH step.prems new by auto
qed simp

section \<open>The handlers are sequences of steps\<close>

definition jobs_stmt :: "'a stmt \<Rightarrow> bool" where
  "jobs_stmt f \<longleftrightarrow> (\<forall>d d' a. f d = Some (d', a) \<longrightarrow> job_step\<^sup>*\<^sup>* (dispatch_jobs d) (dispatch_jobs d'))"

lemma keeps_jobs:
  "jobs_stmt f \<Longrightarrow> keeps (on_db out (\<lambda>d. job_step\<^sup>*\<^sup>* js (dispatch_jobs d))) (exec f)"
  by (rule keeps_exec) (meson jobs_stmt_def rtranclp_trans)

lemma update_jobs_step:
  "(\<And>js. job_step js (fst (update_rows p f js))) \<Longrightarrow> jobs_stmt (update_jobs p f)"
  by (auto simp: jobs_stmt_def update_jobs_def split: prod.splits) (metis fst_conv r_into_rtranclp)

lemma jobs_stmts:
  "new_job j \<Longrightarrow> jobs_stmt (insert_job j)" "jobs_stmt (lease_rows i n now)"
  "st = STATUS_SUCCEEDED \<and> response \<noteq> None \<or> st = STATUS_FAILED \<Longrightarrow>
     jobs_stmt (complete_rows i n st response code message now)"
  "jobs_stmt (time_out_rows i now)" "jobs_stmt (expire_rows now)"
proof -
  show "new_job j \<Longrightarrow> jobs_stmt (insert_job j)"
    by (auto simp: jobs_stmt_def insert_job_def intro: job_step.create)
  show "jobs_stmt (lease_rows i n now)"
    unfolding lease_rows_def by (rule update_jobs_step) (rule job_step.lease)
  show "st = STATUS_SUCCEEDED \<and> response \<noteq> None \<or> st = STATUS_FAILED \<Longrightarrow>
     jobs_stmt (complete_rows i n st response code message now)"
    unfolding complete_rows_def by (rule update_jobs_step) (rule job_step.complete)
  show "jobs_stmt (time_out_rows i now)"
    unfolding time_out_rows_def by (rule update_jobs_step) (rule job_step.time_out)
  show "jobs_stmt (expire_rows now)"
    unfolding expire_rows_def
    using job_step.time_out [where p = "\<lambda>j. str_less (dj_deadline_at j) now"]
    by (intro update_jobs_step) (simp add: conj_commute)
qed

text \<open>What \<open>complete_job\<close> does: nothing, or the one guarded update, whose count decides the answer.\<close>

definition completing :: "chat_codec \<Rightarrow> job_complete_request \<Rightarrow> str \<Rightarrow> str option \<Rightarrow> bool" where
  "completing c payload st response \<longleftrightarrow> (st = STATUS_SUCCEEDED \<and> response \<noteq> None \<or> st = STATUS_FAILED)
     \<and> trim (jc_status payload) = st
     \<and> (\<forall>x. jc_response payload = Some x \<longrightarrow> (\<exists>s. response = Some s \<and> encode_response c x = Inr s))"

lemma complete_job_validated:
  "(\<exists>e. complete_job c n i payload w = (Inl e, w))
   \<or> (\<exists>st response code message. completing c payload st response \<and> complete_job c n i payload w =
        bind_op unix_timestamp_string (\<lambda>now.
        bind_op (err_op Infrastructure (exec (complete_rows i n st response code message now))) (\<lambda>k.
        if k \<noteq> 1 then throw (NotFound (lit ''leased dispatch job not found'')) else ret st)) w)"
proof -
  define st where "st = trim (jc_status payload)"
  consider "st \<noteq> STATUS_SUCCEEDED \<and> st \<noteq> STATUS_FAILED" | "st = STATUS_SUCCEEDED \<and> jc_response payload = None"
    | "st = STATUS_SUCCEEDED \<and> jc_response payload \<noteq> None \<or> st = STATUS_FAILED" by blast
  then show ?thesis
  proof cases
    case 1
    then show ?thesis by (auto simp: complete_job_def bind_op_def of_result_def st_def)
  next
    case 2
    then show ?thesis by (auto simp: complete_job_def bind_op_def of_result_def throw_def st_def)
  next
    case 3
    let ?enc = "case jc_response payload of
       None \<Rightarrow> Inr None
     | Some r \<Rightarrow> and_then (map_err (infra ''dispatch response encode failed: '')
                    (encode_response c r)) (\<lambda>s. Inr (Some s))"
    define message where "message = (case jc_error_message payload of
       None \<Rightarrow> None | Some m \<Rightarrow> if trim m = [] then None else Some (trim m))"
    have go: "complete_job c n i payload w =
      bind_op (of_result ?enc) (\<lambda>response_json.
      bind_op unix_timestamp_string (\<lambda>now.
      bind_op (err_op Infrastructure (exec (complete_rows i n st response_json
          (jc_error_code payload) message now))) (\<lambda>k.
      if k \<noteq> 1 then throw (NotFound (lit ''leased dispatch job not found'')) else ret st))) w"
      using 3 by (elim disjE; cases "jc_response payload")
        (simp_all add: complete_job_def bind_pure flip: st_def message_def cong: if_cong)
    show ?thesis
    proof (cases ?enc)
      case (Inl e)
      then show ?thesis unfolding go Inl by (auto simp: bind_pure)
    next
      case (Inr response)
      then have "completing c payload st response"
        using 3 by (auto simp: completing_def st_def and_then_Inr split: option.splits)
      then show ?thesis using go unfolding Inr bind_pure(2) by blast
    qed
  qed
qed

lemma complete_job_run:
  assumes "complete_job c n i payload w = (r, w')"
  shows "env w' = env w \<and> (db w' = db w \<and> (\<exists>e. r = Inl e)
    \<or> (\<exists>st response code message now k. completing c payload st response
         \<and> complete_rows i n st response code message now (db w) = Some (db w', k)
         \<and> r = (if k \<noteq> 1 then Inl (NotFound (lit ''leased dispatch job not found'')) else Inr st)))"
proof (rule disjE [OF complete_job_validated [of c n i payload w]], goal_cases)
  case 1
  then show ?case using assms by auto
next
  case 2
  then obtain st response code message where valid: "completing c payload st response"
    and go: "complete_job c n i payload w = bind_op unix_timestamp_string (\<lambda>now.
      bind_op (err_op Infrastructure (exec (complete_rows i n st response code message now))) (\<lambda>k.
      if k \<noteq> 1 then throw (NotFound (lit ''leased dispatch job not found'')) else ret st)) w" by blast
  obtain d k where d: "complete_rows i n st response code message (show_nat (clock (env w) (tick w))) (db w) = Some (d, k)"
    by (auto simp: complete_rows_def update_jobs_eq)
  show ?case
  proof (cases "fault (env w) (Suc (tick w))")
    case None
    then have "db w' = d \<and> env w' = env w
        \<and> r = (if k \<noteq> 1 then Inl (NotFound (lit ''leased dispatch job not found'')) else Inr st)"
      using assms d unfolding go by (auto simp: run_simps split: if_splits)
    then show ?thesis using valid d by blast
  next
    case (Some e)
    then show ?thesis using assms unfolding go by (auto simp: run_simps)
  qed
qed

lemma lease_first_steps:
  "keeps (on_db out (\<lambda>d. job_step\<^sup>*\<^sup>* js (dispatch_jobs d))) (lease_first c n now rows)"
  by (induction rows) (auto intro!: keeps_intros keeps_jobs jobs_stmts)

lemma handler_steps:
  "keeps (on_db out (\<lambda>d. job_step\<^sup>*\<^sup>* js (dispatch_jobs d))) (create_dispatch_job c input)"
  "keeps (on_db out (\<lambda>d. job_step\<^sup>*\<^sup>* js (dispatch_jobs d))) (lease_next_job_for_node c n)"
  "keeps (on_db out (\<lambda>d. job_step\<^sup>*\<^sup>* js (dispatch_jobs d))) (complete_job c n i payload)"
  "keeps (on_db out (\<lambda>d. job_step\<^sup>*\<^sup>* js (dispatch_jobs d))) (mark_job_timed_out i)"
  "keeps (on_db out (\<lambda>d. job_step\<^sup>*\<^sup>* js (dispatch_jobs d))) (fetch_terminal_result c i)"
proof -
  let ?P = "on_db out (\<lambda>d. job_step\<^sup>*\<^sup>* js (dispatch_jobs d))"
  show "keeps ?P (create_dispatch_job c input)"
    unfolding create_dispatch_job_def
    by (intro keeps_intros keeps_jobs jobs_stmts) (simp add: new_job_def)
  show "keeps ?P (lease_next_job_for_node c n)"
    unfolding lease_next_job_for_node_def mark_expired_jobs_timed_out_def
    by (intro keeps_intros keeps_jobs jobs_stmts lease_first_steps)
  show "keeps ?P (mark_job_timed_out i)"
    unfolding mark_job_timed_out_def by (intro keeps_intros keeps_jobs jobs_stmts)
  show "keeps ?P (fetch_terminal_result c i)"
    unfolding fetch_terminal_result_def by (intro keeps_intros)
  show "keeps ?P (complete_job c n i payload)"
    unfolding keeps_def
  proof (intro allI impI)
    fix w assume P: "?P w"
    obtain r w' where run: "complete_job c n i payload w = (r, w')" by fastforce
    have "env w' = env w \<and> job_step\<^sup>*\<^sup>* (dispatch_jobs (db w)) (dispatch_jobs (db w'))"
      using complete_job_run [OF run]
    proof (elim conjE disjE exE)
      fix st response code message now k
      assume "completing c payload st response"
        and "complete_rows i n st response code message now (db w) = Some (db w', k)" "env w' = env w"
      then show ?thesis
        using jobs_stmts(3) [of st response i n code message now] by (auto simp: jobs_stmt_def completing_def)
    qed auto
    then show "?P (snd (complete_job c n i payload w))"
      using P run by (auto simp: on_db_def)
  qed
qed

lemma update_rows_affected:
  "0 < snd (update_rows p f rows) \<Longrightarrow> \<exists>r \<in> set rows. p r \<and> f r \<in> set (fst (update_rows p f rows))"
  by (auto simp: update_rows_def filter_empty_conv)

lemma lease_rows_affected:
  assumes "lease_rows i n now d = Some (d', 1)"
  shows "\<exists>j \<in> set (dispatch_jobs d). dj_id j = i \<and> dj_node_id j = n \<and> dj_status j = STATUS_ACCEPTED"
    "\<exists>j \<in> set (dispatch_jobs d'). dj_id j = i \<and> dj_node_id j = n \<and> dj_status j = STATUS_LEASED"
proof -
  let ?p = "\<lambda>j. dj_id j = i \<and> dj_node_id j = n \<and> dj_status j = STATUS_ACCEPTED"
  let ?f = "\<lambda>j. j\<lparr>dj_status := STATUS_LEASED, dj_leased_at := Some now, dj_updated_at := now\<rparr>"
  have u: "0 < snd (update_rows ?p ?f (dispatch_jobs d))"
    "dispatch_jobs d' = fst (update_rows ?p ?f (dispatch_jobs d))"
    using assms by (auto simp: lease_rows_def update_jobs_eq)
  obtain r where r: "r \<in> set (dispatch_jobs d)" "?p r" "?f r \<in> set (dispatch_jobs d')"
    using update_rows_affected [OF u(1)] u(2) by auto
  show "\<exists>j \<in> set (dispatch_jobs d). dj_id j = i \<and> dj_node_id j = n \<and> dj_status j = STATUS_ACCEPTED"
    using r by blast
  show "\<exists>j \<in> set (dispatch_jobs d'). dj_id j = i \<and> dj_node_id j = n \<and> dj_status j = STATUS_LEASED"
    using r by (intro bexI [of _ "?f r"]) auto
qed

lemma exec_update:
  "exec f w = (Inr k, w') \<Longrightarrow> \<exists>d. f (db w) = Some (d, k) \<and> db w' = d \<and> env w' = env w"
  by (auto simp: exec_Inr)

lemma lease_first_ok:
  "lease_first c n now rows w = (Inr (Some l), w') \<Longrightarrow> env w' = env w \<and>
     (\<exists>row \<in> set rows. \<exists>d0. job_step\<^sup>*\<^sup>* (dispatch_jobs (db w)) (dispatch_jobs d0)
        \<and> lease_rows (dj_id row) n now d0 = Some (db w', 1)
        \<and> parse_uuid (env w) (dj_id row) = Inr (jl_id l)
        \<and> decode_request c (dj_request_json row) = Inr (jl_request l)
        \<and> jl_model l = dj_model row \<and> jl_deadline_at l = dj_deadline_at row)"
proof (induction rows arbitrary: w)
  case (Cons row rows)
  obtain k w1 where k: "exec (lease_rows (dj_id row) n now) w = (Inr k, w1)"
    and rest: "(if k \<noteq> 1 then lease_first c n now rows
     else
       bind_op (uuid_parse ''stored dispatch id is invalid: '' (dj_id row)) (\<lambda>job_id.
       bind_op (uuid_parse ''stored dispatch request id is invalid: '' (dj_request_id row)) (\<lambda>request_id.
       bind_op (of_result (map_err (infra ''stored dispatch request is invalid: '')
           (decode_request c (dj_request_json row)))) (\<lambda>request.
       ret (Some \<lparr>jl_id = job_id, jl_request_id = request_id, jl_model = dj_model row,
                  jl_request = request, jl_deadline_at = dj_deadline_at row\<rparr>))))) w1 = (Inr (Some l), w')"
    using Cons.prems by (auto simp: op_results)
  obtain d where d: "lease_rows (dj_id row) n now (db w) = Some (d, k)" "db w1 = d" "env w1 = env w"
    using exec_update [OF k] by blast
  have st: "job_step\<^sup>*\<^sup>* (dispatch_jobs (db w)) (dispatch_jobs (db w1))"
    using jobs_stmts(2) [of "dj_id row" n now] d by (auto simp: jobs_stmt_def)
  show ?case
  proof (cases "k = 1")
    case True
    then have "env w' = env w \<and> db w' = d \<and> parse_uuid (env w) (dj_id row) = Inr (jl_id l)
        \<and> decode_request c (dj_request_json row) = Inr (jl_request l)
        \<and> jl_model l = dj_model row \<and> jl_deadline_at l = dj_deadline_at row"
      using rest d by (auto simp: op_results uuid_parse_run)
    then show ?thesis using d(1) True by (metis list.set_intros(1) rtranclp.rtrancl_refl)
  next
    case False
    then have "lease_first c n now rows w1 = (Inr (Some l), w')" using rest by simp
    from Cons.IH [OF this] show ?thesis
      using d(3) st by (metis list.set_intros(2) rtranclp_trans)
  qed
qed simp

lemma lease_next_ok:
  assumes "lease_next_job_for_node c n w = (Inr (Some l), w')"
  shows "env w' = env w \<and> (\<exists>(row :: dispatch_job_row) now d0. dj_node_id row = n \<and> str_le now (dj_deadline_at row)
        \<and> job_step\<^sup>*\<^sup>* (dispatch_jobs (db w)) (dispatch_jobs d0)
        \<and> lease_rows (dj_id row) n now d0 = Some (db w', 1)
        \<and> parse_uuid (env w) (dj_id row) = Inr (jl_id l)
        \<and> decode_request c (dj_request_json row) = Inr (jl_request l)
        \<and> jl_model l = dj_model row \<and> jl_deadline_at l = dj_deadline_at row)"
proof -
  obtain w1 where w1: "mark_expired_jobs_timed_out w = (Inr (), w1)"
    and go: "bind_op unix_timestamp_string (\<lambda>now.
      bind_op (err_op Infrastructure (exec (query_stmt (leasable_jobs n now)))) (\<lambda>rows.
      lease_first c n now rows)) w1 = (Inr (Some l), w')"
    using assms by (auto simp: lease_next_job_for_node_def op_results)
  have "keeps (on_db (env w) (\<lambda>d. job_step\<^sup>*\<^sup>* (dispatch_jobs (db w)) (dispatch_jobs d))) mark_expired_jobs_timed_out"
    unfolding mark_expired_jobs_timed_out_def by (intro keeps_intros keeps_jobs jobs_stmts)
  from keepsD' [OF this w1] have s1: "env w1 = env w"
    "job_step\<^sup>*\<^sup>* (dispatch_jobs (db w)) (dispatch_jobs (db w1))"
    by (auto simp: on_db_def)
  obtain now w2 where lf: "lease_first c n now (leasable_jobs n now (db w1)) w2 = (Inr (Some l), w')"
    and w2: "db w2 = db w1" "env w2 = env w1"
    using go by (auto simp: op_results stmt_results query_stmt_def)
  obtain row d0 where row: "row \<in> set (leasable_jobs n now (db w1))"
    "job_step\<^sup>*\<^sup>* (dispatch_jobs (db w2)) (dispatch_jobs d0)"
    "lease_rows (dj_id row) n now d0 = Some (db w', 1)" "parse_uuid (env w2) (dj_id row) = Inr (jl_id l)"
    "decode_request c (dj_request_json row) = Inr (jl_request l)" "jl_model l = dj_model row"
    "jl_deadline_at l = dj_deadline_at row" "env w' = env w2"
    using lease_first_ok [OF lf] by blast
  have "dj_node_id row = n" "str_le now (dj_deadline_at row)"
    using row(1) by (auto simp: leasable_jobs_def dest!: in_set_takeD)
  moreover have "job_step\<^sup>*\<^sup>* (dispatch_jobs (db w)) (dispatch_jobs d0)"
    using s1(2) row(2) w2(1) by simp
  ultimately have all: "dj_node_id row = n \<and> str_le now (dj_deadline_at row)
        \<and> job_step\<^sup>*\<^sup>* (dispatch_jobs (db w)) (dispatch_jobs d0)
        \<and> lease_rows (dj_id row) n now d0 = Some (db w', 1)
        \<and> parse_uuid (env w) (dj_id row) = Inr (jl_id l)
        \<and> decode_request c (dj_request_json row) = Inr (jl_request l)
        \<and> jl_model l = dj_model row \<and> jl_deadline_at l = dj_deadline_at row" and out: "env w' = env w"
    using row s1 w2 by simp_all
  show ?thesis using all out by blast
qed

lemma dispatch_handlers_refine_create:
  "job_step\<^sup>*\<^sup>* (dispatch_jobs (db w)) (dispatch_jobs (db (snd (create_dispatch_job c input w))))"
  using keepsD [OF handler_steps(1), of "env w" "dispatch_jobs (db w)" w] by (simp add: on_db_def)

lemma dispatch_handlers_refine_mark:
  "job_step\<^sup>*\<^sup>* (dispatch_jobs (db w)) (dispatch_jobs (db (snd (mark_job_timed_out i w))))"
  using keepsD [OF handler_steps(4), of "env w" "dispatch_jobs (db w)" w] by (simp add: on_db_def)

lemma complete_job_response:
  "complete_job c n i payload w = (Inr STATUS_SUCCEEDED, w') \<Longrightarrow> jc_response payload \<noteq> None"
  by (auto simp: complete_job_def op_results split: if_splits)

section \<open>Waiting for a job\<close>

definition others_ok :: "(nat \<Rightarrow> world \<Rightarrow> world) \<Rightarrow> bool" where
  "others_ok others \<longleftrightarrow> (\<forall>n w. job_step\<^sup>*\<^sup>* (dispatch_jobs (db w)) (dispatch_jobs (db (others n w))))"

definition clock_ok :: "(nat \<Rightarrow> nat) \<Rightarrow> bool" where
  "clock_ok elapsed \<longleftrightarrow> (\<forall>n. n * 100 \<le> elapsed n)"

lemma fetch_frame: "fetch_terminal_result c i w = (r, w') \<Longrightarrow> env w' = env w \<and> db w' = db w"
  by (erule keeps_frame) (unfold fetch_terminal_result_def, intro keeps_intros)

text \<open>A result that the loop returns is the stored one; a timeout is its own.\<close>

definition result_stored :: "chat_codec \<Rightarrow> dispatch_job_row \<Rightarrow> dispatch_job_result \<Rightarrow> bool" where
  "result_stored c j r \<longleftrightarrow> (case r of
      Succeeded response \<Rightarrow> dj_status j = STATUS_SUCCEEDED
        \<and> (\<exists>raw. dj_response_json j = Some raw \<and> decode_response c raw = Inr response)
    | Failed code _ \<Rightarrow> dj_status j = STATUS_FAILED \<and> dj_error_code j = code
    | TimedOut \<Rightarrow> terminal j)"

lemma fetch_stored:
  assumes "fetch_terminal_result c i w = (Inr (Some r), w')"
  shows "\<exists>j \<in> set (dispatch_jobs (db w)). dj_id j = i \<and> terminal j \<and> result_stored c j r"
  using assms
  by (auto simp: fetch_terminal_result_def op_results stmt_results query_stmt_def terminal_result_def
      result_simps terminal_def result_stored_def find_Some_iff split: option.splits if_splits)

lemma wait_loop_result:
  assumes o: "others_ok others"
  shows "wait_loop c others elapsed i t n fuel w = Some (r, w') \<Longrightarrow>
     job_step\<^sup>*\<^sup>* (dispatch_jobs (db w)) (dispatch_jobs (db w'))
   \<and> (\<forall>x. r = Inr x \<longrightarrow> x \<noteq> TimedOut \<longrightarrow>
       (\<exists>j \<in> set (dispatch_jobs (db w')). dj_id j = i \<and> terminal j \<and> result_stored c j x))"
proof (induction fuel arbitrary: n w)
  case (Suc fuel)
  obtain f w1 where f: "fetch_terminal_result c i w = (f, w1)" by fastforce
  note fr = fetch_frame [OF f]
  show ?case
  proof (cases f)
    case (Inl e)
    then show ?thesis using Suc.prems f fr by auto
  next
    case (Inr x)
    show ?thesis
    proof (cases x)
      case (Some res)
      then show ?thesis using Suc.prems f fr Inr fetch_stored [of c i w res w1] by auto
    next
      case None
      show ?thesis
      proof (cases "t \<le> elapsed n")
        case True
        then show ?thesis using Suc.prems f fr Inr None by auto
      next
        case False
        then have rec: "wait_loop c others elapsed i t (Suc n) fuel (others n w1) = Some (r, w')"
          using Suc.prems f Inr None by simp
        have "job_step\<^sup>*\<^sup>* (dispatch_jobs (db w)) (dispatch_jobs (db (others n w1)))"
          using o fr by (metis others_ok_def)
        then show ?thesis using Suc.IH [OF rec] by (meson rtranclp_trans)
      qed
    qed
  qed
qed simp

lemma wait_loop_terminates:
  assumes "clock_ok elapsed"
  shows "t + 100 \<le> (n + fuel) * 100 \<Longrightarrow> 0 < fuel \<Longrightarrow> \<exists>x. wait_loop c others elapsed i t n fuel w = Some x"
proof (induction fuel arbitrary: n w)
  case (Suc fuel)
  obtain f w1 where f: "fetch_terminal_result c i w = (f, w1)" by fastforce
  show ?case
  proof (cases "t \<le> elapsed n")
    case True
    then show ?thesis using f by (auto split: sum.split option.split)
  next
    case False
    moreover have "n * 100 \<le> elapsed n" using assms by (simp add: clock_ok_def)
    ultimately have "0 < fuel" "t + 100 \<le> (Suc n + fuel) * 100" using Suc.prems(1) by simp_all
    then show ?thesis using Suc.IH [of "Suc n" "others n w1"] f False by (auto split: sum.split option.split)
  qed
qed simp

section \<open>Properties\<close>

text \<open>C11. Whatever a handler does and however it fails, the job table only changes by the steps of
  the job protocol (a new job, a lease, a completion, a timeout): the handlers refine the state
  machine that the properties below speak about.\<close>

theorem dispatch_handlers_refine:
  "job_step\<^sup>*\<^sup>* (dispatch_jobs (db w)) (dispatch_jobs (db (snd (create_dispatch_job c input w))))
   \<and> job_step\<^sup>*\<^sup>* (dispatch_jobs (db w)) (dispatch_jobs (db (snd (lease_next_job_for_node c n w))))
   \<and> job_step\<^sup>*\<^sup>* (dispatch_jobs (db w)) (dispatch_jobs (db (snd (complete_job c n i payload w))))
   \<and> job_step\<^sup>*\<^sup>* (dispatch_jobs (db w)) (dispatch_jobs (db (snd (mark_job_timed_out i w))))"
proof -
  have start: "on_db (env w) (\<lambda>d. job_step\<^sup>*\<^sup>* (dispatch_jobs (db w)) (dispatch_jobs d)) w"
    by (simp add: on_db_def)
  show ?thesis
    using handler_steps(1-4) [THEN keepsD, OF start] by (simp add: on_db_def)
qed


definition sample_job :: dispatch_job_row where
  "sample_job = \<lparr>dj_id = [1], dj_request_id = [2], dj_node_id = [3], dj_user_id = None,
     dj_api_key_id = None, dj_model = [109], dj_status = STATUS_ACCEPTED, dj_request_json = [],
     dj_response_json = None, dj_error_code = None, dj_error_message = None, dj_leased_at = None,
     dj_completed_at = None, dj_deadline_at = [57], dj_created_at = [48], dj_updated_at = [48]\<rparr>"


text \<open>C17. A job is handed out at most once: after a node got a lease, no later lease request, by any
  node and after any further activity of the system, returns the same job. The leased job was an
  accepted job of that node, its request is the stored one, and it is leased to that node now.\<close>

theorem job_leased_at_most_once:
  assumes lease: "lease_next_job_for_node c n w = (Inr (Some l), w1)"
    and later: "job_step\<^sup>*\<^sup>* (dispatch_jobs (db w1)) (dispatch_jobs (db w2))" "env w2 = env w"
    and again: "lease_next_job_for_node c m w2 = (Inr (Some l2), w3)"
    and table: "distinct (map dj_id (dispatch_jobs (db w)))"
      "\<forall>j \<in> set (dispatch_jobs (db w3)). uuid_ok (env w) (dj_id j)"
  shows "jl_id l2 \<noteq> jl_id l
    \<and> (\<exists>j \<in> set (dispatch_jobs (db w1)). dj_id j = jl_id l \<and> dj_node_id j = n \<and> dj_status j = STATUS_LEASED)"
proof -
  have all: "uuid_ok (env w) (dj_id j)" if "j \<in> set js" "job_step\<^sup>*\<^sup>* js (dispatch_jobs (db w3))" for js j
    using job_same.final_forever [OF that(2,1)] table(2) by metis
  obtain r1 :: dispatch_job_row and d1 now1 where r1: "job_step\<^sup>*\<^sup>* (dispatch_jobs (db w)) (dispatch_jobs d1)"
    "lease_rows (dj_id r1) n now1 d1 = Some (db w1, 1)" "parse_uuid (env w) (dj_id r1) = Inr (jl_id l)"
    using lease_next_ok [OF lease] by blast
  obtain r2 :: dispatch_job_row and d2 now2 where r2: "job_step\<^sup>*\<^sup>* (dispatch_jobs (db w2)) (dispatch_jobs d2)"
    "lease_rows (dj_id r2) m now2 d2 = Some (db w3, 1)" "parse_uuid (env w) (dj_id r2) = Inr (jl_id l2)"
    using lease_next_ok [OF again] later(2) by auto
  have s1: "job_step\<^sup>*\<^sup>* (dispatch_jobs d1) (dispatch_jobs (db w1))"
    and s2: "job_step\<^sup>*\<^sup>* (dispatch_jobs d2) (dispatch_jobs (db w3))"
    using jobs_stmts(2) r1(2) r2(2) by (meson jobs_stmt_def)+
  have mid: "job_step\<^sup>*\<^sup>* (dispatch_jobs (db w1)) (dispatch_jobs d2)"
    using later(1) r2(1) by (rule rtranclp_trans)
  obtain a where a: "a \<in> set (dispatch_jobs (db w1))" "dj_id a = dj_id r1" "dj_node_id a = n"
    "dj_status a = STATUS_LEASED"
    using lease_rows_affected(2) [OF r1(2)] by blast
  obtain b where b: "b \<in> set (dispatch_jobs d2)" "dj_id b = dj_id r2" "dj_status b = STATUS_ACCEPTED"
    using lease_rows_affected(1) [OF r2(2)] by blast
  have ida: "dj_id a = jl_id l"
    using all [OF a(1) rtranclp_trans [OF mid s2]] r1(3) a(2) by (simp add: uuid_ok_def)
  have idb: "dj_id b = jl_id l2"
    using all [OF b(1) s2] r2(3) b(2) by (simp add: uuid_ok_def)
  have "distinct (map dj_id (dispatch_jobs (db w1)))"
    using job_out.distinct_forever [OF rtranclp_trans [OF r1(1) s1] table(1)] .
  then have "dj_id b \<noteq> dj_id a"
    using job_out.row_is_final [OF mid _ a(1) _ b(1)] a(4) b(3) by auto
  then show ?thesis using a ida idb by auto
qed

text \<open>A codec and a world for the instances below.\<close>

definition no_codec :: chat_codec where
  "no_codec = \<lparr>encode_request = (\<lambda>_. Inr []),
     decode_request = (\<lambda>_. Inr \<lparr>cr_model = [], cr_messages = [], cr_stream = False, cr_max_tokens = None\<rparr>),
     encode_response = (\<lambda>_. Inr []),
     decode_response = (\<lambda>_. Inl [])\<rparr>"

definition two_jobs :: world where
  "two_jobs = (calm_world (empty_database\<lparr>dispatch_jobs :=
     [sample_job, sample_job\<lparr>dj_id := [4], dj_created_at := [49]\<rparr>]\<rparr>))
     \<lparr>env := calm\<lparr>clock := (\<lambda>_. 1)\<rparr>\<rparr>"

lemma show_small [simp]: "show_nat 1 = [49]" "show_nat (Suc 0) = [49]"
  by (simp_all add: show_nat.simps)

lemmas dispatch_run = run_simps lease_next_job_for_node_def mark_expired_jobs_timed_out_def expire_rows_def
  lease_rows_def update_jobs_eq leasable_jobs_def two_jobs_def calm_world_def calm_def sample_job_def
  empty_database_def str_less_def job_open_def no_codec_def infra_def

lemma two_leases:
  "\<exists>l w1 l2 w3. lease_next_job_for_node no_codec [3] two_jobs = (Inr (Some l), w1)
     \<and> lease_next_job_for_node no_codec [3] w1 = (Inr (Some l2), w3) \<and> env w1 = env two_jobs
     \<and> (\<forall>j \<in> set (dispatch_jobs (db w3)). uuid_ok (env two_jobs) (dj_id j))"
  by (simp add: dispatch_run uuid_ok_def)

theorem job_leased_at_most_once_witness:
  "\<exists>l w1 l2 w3. lease_next_job_for_node no_codec [3] two_jobs = (Inr (Some l), w1)
     \<and> lease_next_job_for_node no_codec [3] w1 = (Inr (Some l2), w3) \<and> jl_id l2 \<noteq> jl_id l"
proof -
  obtain l w1 l2 w3 where r: "lease_next_job_for_node no_codec [3] two_jobs = (Inr (Some l), w1)"
    "lease_next_job_for_node no_codec [3] w1 = (Inr (Some l2), w3)" "env w1 = env two_jobs"
    "\<forall>j \<in> set (dispatch_jobs (db w3)). uuid_ok (env two_jobs) (dj_id j)"
    using two_leases by blast
  have "distinct (map dj_id (dispatch_jobs (db two_jobs)))"
    by (simp add: two_jobs_def calm_world_def sample_job_def)
  then show ?thesis
    using job_leased_at_most_once [OF r(1) rtranclp.rtrancl_refl r(3) r(2) _ r(4)] r by blast
qed

lemma complete_rows_effect:
  assumes rows: "complete_rows i n st response code message now d = Some (d', k)" and d: "distinct (map dj_id (dispatch_jobs d))"
  shows "k = 0 \<and> d' = d
    \<or> k = 1 \<and> (\<exists>j \<in> set (dispatch_jobs d). dj_id j = i \<and> dj_node_id j = n \<and> dj_status j = STATUS_LEASED)
      \<and> (\<exists>j \<in> set (dispatch_jobs d'). dj_id j = i \<and> dj_status j = st \<and> dj_response_json j = response)
      \<and> {j \<in> set (dispatch_jobs d'). dj_id j \<noteq> i} = {j \<in> set (dispatch_jobs d). dj_id j \<noteq> i}"
proof -
  let ?p = "\<lambda>j. dj_id j = i \<and> dj_node_id j = n \<and> dj_status j = STATUS_LEASED"
  let ?f = "\<lambda>j. j\<lparr>dj_status := st, dj_response_json := response, dj_error_code := code,
           dj_error_message := message, dj_completed_at := Some now, dj_updated_at := now\<rparr>"
  have u: "d' = d\<lparr>dispatch_jobs := fst (update_rows ?p ?f (dispatch_jobs d))\<rparr>" "k = snd (update_rows ?p ?f (dispatch_jobs d))"
    using rows by (auto simp: complete_rows_def update_jobs_eq)
  then have js: "dispatch_jobs d' = fst (update_rows ?p ?f (dispatch_jobs d))" by simp
  have "length (filter ?p (dispatch_jobs d)) \<le> 1" using d by (rule filter_key_le_1) auto
  then have "k \<le> 1" using u(2) by (simp add: update_rows_def)
  show ?thesis
  proof (cases "k = 1")
    case False
    then have "k = 0" using \<open>k \<le> 1\<close> by simp
    moreover have "d' = d" unfolding u(1) using \<open>k = 0\<close> u(2) by (simp add: update_rows_none)
    ultimately show ?thesis by simp
  next
    case True
    then obtain j where j: "j \<in> set (dispatch_jobs d)" "?p j" "?f j \<in> set (dispatch_jobs d')"
      using update_rows_affected [of ?p ?f "dispatch_jobs d"] u(2) js by auto
    have "dj_id (?f j) = i \<and> dj_status (?f j) = st \<and> dj_response_json (?f j) = response" using j(2) by simp
    moreover have "{j \<in> set (dispatch_jobs d'). dj_id j \<noteq> i} = {j \<in> set (dispatch_jobs d). dj_id j \<noteq> i}"
      by (auto simp: js update_rows_def)
    ultimately show ?thesis using True j by blast
  qed
qed


definition leased_world :: world where
  "leased_world = calm_world (empty_database\<lparr>dispatch_jobs := [sample_job\<lparr>dj_status := STATUS_LEASED\<rparr>]\<rparr>)"

definition failed_payload :: job_complete_request where
  "failed_payload = \<lparr>jc_status = STATUS_FAILED, jc_response = None, jc_error_code = None,
     jc_error_message = None\<rparr>"

lemma trim_failed [simp]: "trim STATUS_FAILED = STATUS_FAILED"
  by (simp add: STATUS_FAILED_def lit_def trim_def trim_start_def trim_end_def is_whitespace_def)

lemma leased_world_run:
  "fst (complete_job no_codec [3] [1] failed_payload leased_world) = Inr STATUS_FAILED"
  by (simp add: complete_job_def complete_rows_def failed_payload_def leased_world_def dispatch_run)


lemma create_job_ok:
  assumes "create_dispatch_job c input w = (Inr i, w')"
  shows "\<exists>j \<in> set (dispatch_jobs (db w')). dj_id j = i \<and> dj_node_id j = ji_node_id input
    \<and> dj_model j = ji_model input"
  using assms
  by (auto simp: create_dispatch_job_def op_results stmt_results insert_job_def split: if_splits)

lemma mark_timed_out_ok:
  assumes "mark_job_timed_out i w = (Inr u, w')" "\<forall>j \<in> set (dispatch_jobs (db w)). job_wf j"
  shows "\<forall>j \<in> set (dispatch_jobs (db w')). dj_id j = i \<longrightarrow> terminal j"
proof -
  define now where "now = show_nat (clock (env w) (tick w))"
  have "dispatch_jobs (db w')
      = map (\<lambda>j. if dj_id j = i \<and> job_open j then time_out now j else j) (dispatch_jobs (db w))"
    using assms(1) unfolding now_def
    by (auto simp: mark_job_timed_out_def op_results stmt_results time_out_rows_def update_jobs_eq
        update_rows_def)
  moreover have "terminal (time_out now j)" for j by (simp add: terminal_def)
  ultimately show ?thesis using assms(2) by (auto simp: job_wf_def)
qed

lemma created_job_stays:
  assumes new: "create_dispatch_job c input w = (Inr i, w1)" and d: "distinct (map dj_id (dispatch_jobs (db w)))"
    and steps: "job_step\<^sup>*\<^sup>* (dispatch_jobs (db w1)) js"
  shows "\<exists>k \<in> set js. dj_id k = i"
    "k \<in> set js \<Longrightarrow> dj_id k = i \<Longrightarrow> dj_node_id k = ji_node_id input \<and> dj_model k = ji_model input"
proof -
  have s1: "job_step\<^sup>*\<^sup>* (dispatch_jobs (db w)) (dispatch_jobs (db w1))"
    using dispatch_handlers_refine_create [of w c input] new by simp
  obtain j where j: "j \<in> set (dispatch_jobs (db w1))" "dj_id j = i" "dj_node_id j = ji_node_id input"
    "dj_model j = ji_model input"
    using create_job_ok new by blast
  show "\<exists>k \<in> set js. dj_id k = i"
    using job_same.final_forever [OF steps j(1) TrueI] j(2) by auto
  show "dj_node_id k = ji_node_id input \<and> dj_model k = ji_model input" if "k \<in> set js" "dj_id k = i"
    using job_same.row_is_final [OF steps job_same.distinct_forever [OF s1 d] j(1) TrueI that(1)] that(2) j
    by (simp add: same_job_def)
qed

lemma timed_out_dispatch:
  assumes new: "create_dispatch_job c input w = (Inr i, w1)" and d: "distinct (map dj_id (dispatch_jobs (db w)))"
    and steps: "job_step\<^sup>*\<^sup>* (dispatch_jobs (db w1)) (dispatch_jobs (db w2))"
    and wf: "\<forall>j \<in> set (dispatch_jobs (db w2)). job_wf j"
    and marked: "mark_job_timed_out i w2 = (Inr u, w3)"
  shows "\<exists>k \<in> set (dispatch_jobs (db w3)). dj_node_id k = ji_node_id input
     \<and> dj_model k = ji_model input \<and> terminal k \<and> result_stored c k TimedOut"
proof -
  have "job_step\<^sup>*\<^sup>* (dispatch_jobs (db w2)) (dispatch_jobs (db w3))"
    using dispatch_handlers_refine_mark [of w2 i] marked by simp
  note stays = created_job_stays [OF new d rtranclp_trans [OF steps this]]
  then obtain k where "k \<in> set (dispatch_jobs (db w3))" "dj_id k = i" by blast
  then show ?thesis
    using stays(2) [of k] mark_timed_out_ok [OF marked wf] by (auto simp: result_stored_def)
qed

text \<open>C18. The gateway always gets an answer from a dispatch: with a clock that advances with the
  polls, the fuel of the model suffices for every timeout, so the wait returns whatever the rest of the system
  does meanwhile. An answer that is not an error means that a job of the requested node and model
  is finished, and a success carries the response that was stored for it.\<close>

theorem dispatch_always_answers:
  assumes o: "others_ok others" and clk: "clock_ok elapsed"
    and start: "distinct (map dj_id (dispatch_jobs (db w)))" "\<forall>j \<in> set (dispatch_jobs (db w)). job_wf j"
  shows "\<exists>r w'. dispatch_to_daemon_node c others elapsed input w = Some (r, w')
    \<and> (\<forall>x. r = Inr x \<longrightarrow> (\<exists>j \<in> set (dispatch_jobs (db w')). dj_node_id j = ji_node_id input
          \<and> dj_model j = ji_model input \<and> terminal j \<and> result_stored c j x))"
proof -
  obtain cr w1 where cr: "create_dispatch_job c input w = (cr, w1)" by fastforce
  show ?thesis
  proof (cases cr)
    case (Inl e)
    then show ?thesis using cr by (simp add: dispatch_to_daemon_node_def)
  next
    case (Inr i)
    let ?t = "unat (max (ji_timeout_seconds input) 1)"
    obtain r w2 where w2: "wait_for_dispatch_result c others elapsed i ?t w1 = Some (r, w2)"
      using wait_loop_terminates [OF clk, of "?t * 1000" 0 "wait_fuel (?t * 1000)"]
      by (fastforce simp: wait_for_dispatch_result_def wait_fuel_def)
    note wl = wait_loop_result [OF o w2 [unfolded wait_for_dispatch_result_def]]
    note stays = created_job_stays [OF cr [unfolded Inr] start(1) conjunct1 [OF wl]]
    have "job_step\<^sup>*\<^sup>* (dispatch_jobs (db w)) (dispatch_jobs (db w1))"
      using dispatch_handlers_refine_create [of w c input] cr by simp
    then have wf: "\<forall>j \<in> set (dispatch_jobs (db w2)). job_wf j"
      using job_wf_forever [OF rtranclp_trans [OF _ conjunct1 [OF wl]] start(2)] by blast
    show ?thesis
    proof (cases "r = Inr TimedOut")
      case False
      then have "dispatch_to_daemon_node c others elapsed input w = Some (r, w2)"
        using cr Inr w2
        by (cases r) (auto simp: dispatch_to_daemon_node_def split: dispatch_job_result.splits)
      then show ?thesis using wl stays(2) False by fastforce
    next
      case True
      then have run: "dispatch_to_daemon_node c others elapsed input w
          = Some (bind_op (mark_job_timed_out i) (\<lambda>_. ret TimedOut) w2)"
        using cr Inr w2 by (simp add: dispatch_to_daemon_node_def)
      obtain mr w3 where m: "mark_job_timed_out i w2 = (mr, w3)" by fastforce
      show ?thesis
        using run m timed_out_dispatch [OF cr [unfolded Inr] start(1) conjunct1 [OF wl] wf]
        by (cases mr) (auto simp: ret_def)
    qed
  qed
qed

definition sample_dispatch :: dispatch_job_input where
  "sample_dispatch = \<lparr>ji_request_id = [2], ji_node_id = [3], ji_user_id = None, ji_api_key_id = None,
     ji_model = [109], ji_request = \<lparr>cr_model = [109], cr_messages = [], cr_stream = False,
     cr_max_tokens = None\<rparr>, ji_timeout_seconds = 1\<rparr>"

theorem dispatch_always_answers_witness:
  "\<exists>r w'. dispatch_to_daemon_node no_codec (\<lambda>_ w. w) (\<lambda>n. n * 100) sample_dispatch (calm_world empty_database)
     = Some (r, w')"
proof -
  have "others_ok (\<lambda>_ w. w)" "clock_ok (\<lambda>n. n * 100)" by (simp_all add: others_ok_def clock_ok_def)
  moreover have "dispatch_jobs (db (calm_world empty_database)) = []" by (simp add: empty_database_def)
  ultimately show ?thesis
    using dispatch_always_answers [of "\<lambda>_ w. w" "\<lambda>n. n * 100" "calm_world empty_database"] by fastforce
qed

end
