(* ===== verification/Auth.thy ===== *)
theory Auth
  imports Billing Row_Lifecycle
begin

text \<open>
  Users, sessions and API keys (crates/mizan-api/src/auth.rs). SHA-256 and bcrypt are parameters
  (\<open>auth_env\<close>), as is the failure of the blocking task that verifies a password. A header
  value that is not visible ASCII has no text (\<open>to_str().ok()\<close>).
\<close>

record auth_env =
  sha256 :: "str \<Rightarrow> nat list"
  bcrypt_hash :: "str \<Rightarrow> nat \<Rightarrow> str + str"
  bcrypt_verify :: "str \<Rightarrow> str \<Rightarrow> str + bool"
  join_error :: "nat \<Rightarrow> str option"

text \<open>Documented behaviour of bcrypt: a hash verifies with the password it was made from.\<close>

definition bcrypt_ok :: "auth_env \<Rightarrow> bool" where
  "bcrypt_ok a \<longleftrightarrow> (\<forall>pw salt h. bcrypt_hash a pw salt = Inr h \<longrightarrow> bcrypt_verify a pw h = Inr True)"

type_synonym headers = "str \<Rightarrow> str option option"

definition header_text :: "headers \<Rightarrow> string \<Rightarrow> str option" where
  "header_text h name = (case h (lit name) of Some (Some v) \<Rightarrow> Some v | _ \<Rightarrow> None)"

definition SESSION_TOKEN_PREFIX :: str where "SESSION_TOKEN_PREFIX = lit ''mizan_sess_''"
definition API_KEY_PREFIX :: str where "API_KEY_PREFIX = lit ''mizan_sk_live_''"
definition SESSION_TTL_SECONDS :: int where "SESSION_TTL_SECONDS = 60 * 60 * 24 * 30"
definition EMAIL_ALREADY_REGISTERED_ERROR :: str where
  "EMAIL_ALREADY_REGISTERED_ERROR = lit ''email is already registered''"

record register_response =
  rr_user_id :: uuid
  rr_email :: str
  rr_role :: str

record credentials =
  cd_email :: str
  cd_password :: str

record login_response =
  lr_access_token :: str
  lr_expires_at :: str
  lr_user_id :: uuid
  lr_role :: str

record api_key_create_response =
  ac_id :: uuid
  ac_key :: str
  ac_label :: "str option"
  ac_created_at :: str

record api_key_list_item =
  ai_id :: uuid
  ai_label :: "str option"
  ai_created_at :: str

record api_key_identity =
  id_api_key_id :: uuid
  id_user_id :: uuid
  id_user_role :: str

record db_user =
  du_id :: uuid
  du_password_hash :: str
  du_role :: str

section \<open>Tokens and headers\<close>

definition hash_value :: "auth_env \<Rightarrow> str \<Rightarrow> str" where
  "hash_value a v = hex_bytes (sha256 a v)"

definition normalize_email :: "outside \<Rightarrow> str \<Rightarrow> str" where
  "normalize_email out email = lowercase out (trim email)"

definition authorization_token :: "str \<Rightarrow> str option" where
  "authorization_token raw = (case split_whitespace raw of
      scheme # token # _ \<Rightarrow> if eq_ignore_ascii_case scheme (lit ''Bearer'') then Some token else None
    | _ \<Rightarrow> None)"

definition session_token_from_headers :: "headers \<Rightarrow> str option" where
  "session_token_from_headers h =
     (case Option.bind (header_text h ''authorization'') authorization_token of
        Some t \<Rightarrow> Some t
      | None \<Rightarrow> (case header_text h ''x-session-token'' of
            None \<Rightarrow> None
          | Some v \<Rightarrow> if trim v = [] then None else Some (trim v)))"

definition is_unique_constraint_error :: "outside \<Rightarrow> str \<Rightarrow> bool" where
  "is_unique_constraint_error out message = (let n = lowercase out message in
     str_contains n (lit ''unique'')
     \<and> (str_contains n (lit ''constraint'') \<or> str_contains n (lit ''already exists'')))"

section \<open>Users\<close>

definition insert_user :: "user_row \<Rightarrow> nat stmt" where
  "insert_user row d =
     (if u_id row \<in> u_id ` set (users d) \<or> u_email row \<in> u_email ` set (users d) then None
      else Some (d\<lparr>users := users d @ [row]\<rparr>, 1))"

definition create_user :: "auth_env \<Rightarrow> str \<Rightarrow> str \<Rightarrow> str \<Rightarrow> register_response op" where
  "create_user a email password role w =
     (bind_op (of_result (map_err (infra ''password hash failed: '') (bcrypt_hash a password (tick w)))) (\<lambda>hashed.
      bind_op unix_timestamp_string (\<lambda>now.
      bind_op uuid_now_v7 (\<lambda>user_id.
      bind_op (err_op (\<lambda>message. if is_unique_constraint_error (env w) message
            then InvalidConfig (lit ''email'') EMAIL_ALREADY_REGISTERED_ERROR
            else Infrastructure message)
          (exec (insert_user \<lparr>u_id = user_id, u_email = email, u_password_hash = hashed, u_role = role,
             u_created_at = now, u_updated_at = now\<rparr>))) (\<lambda>affected.
      if affected \<noteq> 1 then throw (Infrastructure (lit ''unable to insert user''))
      else ret \<lparr>rr_user_id = user_id, rr_email = email, rr_role = role\<rparr>)))) w)"

definition find_user_by_email :: "str \<Rightarrow> db_user option op" where
  "find_user_by_email email =
     bind_op (err_op Infrastructure (exec (query_stmt (\<lambda>d. find (\<lambda>u. u_email u = email) (users d))))) (\<lambda>row.
     case row of
       None \<Rightarrow> ret None
     | Some u \<Rightarrow>
         bind_op (uuid_parse ''invalid user id in users table: '' (u_id u)) (\<lambda>user_id.
         ret (Some \<lparr>du_id = user_id, du_password_hash = u_password_hash u, du_role = u_role u\<rparr>)))"

definition find_user_role_by_id :: "uuid \<Rightarrow> str op" where
  "find_user_role_by_id user_id =
     bind_op (err_op Infrastructure (exec (query_stmt
       (\<lambda>d. map_option u_role (find (\<lambda>u. u_id u = user_id) (users d)))))) (\<lambda>role.
     of_result (ok_or (NotFound (lit ''user not found'')) role))"

definition set_user_role :: "uuid \<Rightarrow> str \<Rightarrow> nat stmt" where
  "set_user_role user_id role d =
     (case update_rows (\<lambda>u. u_id u = user_id) (\<lambda>u. u\<lparr>u_role := role\<rparr>) (users d) of
        (rows, n) \<Rightarrow> Some (d\<lparr>users := rows\<rparr>, n))"

text \<open>Bring the role of an existing user in line with the seed.\<close>

definition align_role :: "string \<Rightarrow> db_user \<Rightarrow> str \<Rightarrow> unit op" where
  "align_role what user role =
     (if du_role user \<noteq> role then
        bind_op (err_op (infra what) (exec (set_user_role (du_id user) role))) (\<lambda>_. ret ())
      else ret ())"

definition ensure_admin_seed :: "auth_env \<Rightarrow> str \<Rightarrow> str \<Rightarrow> str \<Rightarrow> unit op" where
  "ensure_admin_seed a raw_email password role w =
     (let email = normalize_email (env w) raw_email in
      if email = [] \<or> password = [] then
        throw (InvalidConfig (lit ''admin seed'')
          (lit ''MIZAN_ADMIN_EMAIL and MIZAN_ADMIN_PASSWORD must be non-empty'')) w
      else bind_op (find_user_by_email email) (\<lambda>found.
        case found of
          Some user \<Rightarrow> align_role ''cannot update seeded admin role: '' user role
        | None \<Rightarrow>
            bind_op (try_op (create_user a email password role)) (\<lambda>created.
            case created of
              Inr _ \<Rightarrow> ret ()
            | Inl e \<Rightarrow>
                if e = InvalidConfig (lit ''email'') EMAIL_ALREADY_REGISTERED_ERROR then
                  bind_op (find_user_by_email email) (\<lambda>again.
                  bind_op (of_result (ok_or (Infrastructure
                    (lit ''admin user existed concurrently but cannot be resolved'')) again)) (\<lambda>user.
                  align_role ''cannot update seeded admin role after duplicate insert: '' user role))
                else throw e)) w)"

definition register :: "auth_env \<Rightarrow> credentials \<Rightarrow> register_response handler" where
  "register a payload w =
     (let email = normalize_email (env w) (cd_email payload) in
      if email = [] \<or> cd_password payload = [] then
        throw (map_error 400 (InvalidConfig (lit ''auth'') (lit ''email and password are required''))) w
      else err_op from_app_error (create_user a email (cd_password payload) (lit ''member'')) w)"

section \<open>Sessions\<close>

definition insert_session :: "session_row \<Rightarrow> nat stmt" where
  "insert_session row d =
     (if s_id row \<in> s_id ` set (sessions d) \<or> s_token_hash row \<in> s_token_hash ` set (sessions d) then None
      else Some (d\<lparr>sessions := sessions d @ [row]\<rparr>, 1))"

definition create_session :: "auth_env \<Rightarrow> uuid \<Rightarrow> (str \<times> str) op" where
  "create_session a user_id =
     bind_op uuid_now_v7 (\<lambda>session_id.
     bind_op (ret (SESSION_TOKEN_PREFIX @ session_id)) (\<lambda>token.
     bind_op now_utc_epoch_seconds (\<lambda>now.
     bind_op (ret (show_int (int now + SESSION_TTL_SECONDS))) (\<lambda>expires_at.
     bind_op (err_op Infrastructure (exec (insert_session
         \<lparr>s_id = session_id, s_user_id = user_id, s_token_hash = hash_value a token,
          s_expires_at = Some expires_at, s_revoked = 0, s_created_at = show_nat now,
          s_updated_at = show_nat now\<rparr>))) (\<lambda>affected.
     if affected \<noteq> 1 then throw (Infrastructure (lit ''unable to create session''))
     else ret (token, expires_at))))))"

definition verify_password :: "auth_env \<Rightarrow> str \<Rightarrow> str \<Rightarrow> bool handler" where
  "verify_password a password password_hash w =
     (case join_error a (tick w) of
        Some e \<Rightarrow> (Inl (map_error 500 (infra ''password verification task failed: '' e)), tick_world w)
      | None \<Rightarrow> (map_err (\<lambda>e. map_error 500 (infra ''password verification failed: '' e))
                  (bcrypt_verify a password password_hash), tick_world w))"

definition login :: "auth_env \<Rightarrow> credentials \<Rightarrow> login_response handler" where
  "login a payload w =
     (let email = normalize_email (env w) (cd_email payload) in
      if email = [] \<or> cd_password payload = [] then
        throw (map_error 400 (InvalidConfig (lit ''auth'') (lit ''email and password are required''))) w
      else
        bind_op (err_op from_app_error (find_user_by_email email)) (\<lambda>found.
        bind_op (of_result (ok_or (map_error 401 Unauthorized) found)) (\<lambda>user.
        bind_op (verify_password a (cd_password payload) (du_password_hash user)) (\<lambda>verified.
        if \<not> verified then throw (map_error 401 Unauthorized)
        else
          bind_op (err_op from_app_error (create_session a (du_id user))) (\<lambda>(token, expires_at).
          ret \<lparr>lr_access_token = token, lr_expires_at = expires_at, lr_user_id = du_id user,
               lr_role = du_role user\<rparr>)))) w)"

definition update_sessions :: "(session_row \<Rightarrow> bool) \<Rightarrow> (session_row \<Rightarrow> session_row) \<Rightarrow> nat stmt" where
  "update_sessions p f d = Some (d\<lparr>sessions := fst (update_rows p f (sessions d))\<rparr>,
     snd (update_rows p f (sessions d)))"

definition logout :: "auth_env \<Rightarrow> headers \<Rightarrow> bool handler" where
  "logout a h =
     bind_op (of_result (ok_or (map_error 401 Unauthorized) (session_token_from_headers h))) (\<lambda>raw_token.
     bind_op unix_timestamp_string (\<lambda>updated_at.
     bind_op (err_op (\<lambda>e. from_app_error (Infrastructure e)) (exec (update_sessions
         (\<lambda>s. s_token_hash s = hash_value a raw_token \<and> s_revoked s = 0)
         (\<lambda>s. s\<lparr>s_revoked := 1, s_updated_at := updated_at\<rparr>)))) (\<lambda>affected.
     ret (affected > 0))))"

definition session_user_id_from_header :: "auth_env \<Rightarrow> headers \<Rightarrow> uuid handler" where
  "session_user_id_from_header a h =
     bind_op (of_result (ok_or (map_error 401 Unauthorized) (session_token_from_headers h))) (\<lambda>raw_token.
     bind_op (err_op (\<lambda>e. map_error 500 (Infrastructure e)) (exec (query_stmt (\<lambda>d. find (\<lambda>s.
         s_token_hash s = hash_value a raw_token \<and> s_revoked s = 0) (sessions d))))) (\<lambda>found.
     bind_op (of_result (ok_or (map_error 401 Unauthorized) found)) (\<lambda>row.
     bind_op now_utc_epoch_seconds (\<lambda>now.
     case Option.bind (s_expires_at row) parse_i64 of
       None \<Rightarrow> throw (map_error 401 (InvalidConfig (lit ''session'')
                 (lit ''missing or invalid session expiry'')))
     | Some expiry \<Rightarrow>
         if expiry \<le> int now then
           bind_op (try_op (exec (update_sessions (\<lambda>s. s_id s = s_id row) (\<lambda>s. s\<lparr>s_revoked := 1\<rparr>)))) (\<lambda>_.
           throw (map_error 401 Unauthorized))
         else (\<lambda>w. (map_err (\<lambda>e. map_error 401 (InvalidConfig (lit ''session'') e))
                 (parse_uuid (env w) (s_user_id row)), w))))))"

section \<open>API keys\<close>

definition insert_api_key :: "api_key_row \<Rightarrow> nat stmt" where
  "insert_api_key row d =
     (if k_id row \<in> k_id ` set (api_keys d) \<or> k_key_hash row \<in> k_key_hash ` set (api_keys d) then None
      else Some (d\<lparr>api_keys := api_keys d @ [row]\<rparr>, 1))"

definition create_api_key_for_user :: "auth_env \<Rightarrow> uuid \<Rightarrow> str option \<Rightarrow> api_key_create_response op" where
  "create_api_key_for_user a user_id label =
     bind_op uuid_now_v7 (\<lambda>key_id.
     bind_op (ret (API_KEY_PREFIX @ key_id)) (\<lambda>key.
     bind_op unix_timestamp_string (\<lambda>now.
     bind_op (err_op Infrastructure (exec (insert_api_key
         \<lparr>k_id = key_id, k_user_id = user_id, k_key_hash = hash_value a key, k_label = label,
          k_revoked = 0, k_created_at = now, k_updated_at = now\<rparr>))) (\<lambda>affected.
     if affected \<noteq> 1 then throw (Infrastructure (lit ''unable to create API key''))
     else ret \<lparr>ac_id = key_id, ac_key = key, ac_label = label, ac_created_at = now\<rparr>))))"

definition list_api_keys_for_user :: "uuid \<Rightarrow> api_key_list_item list op" where
  "list_api_keys_for_user user_id =
     bind_op (err_op Infrastructure (exec (query_stmt (\<lambda>d. order_by_desc k_created_at
         (filter (\<lambda>k. k_user_id k = user_id \<and> k_revoked k = 0) (api_keys d)))))) (\<lambda>rows w.
     (collect_results (\<lambda>k. and_then (map_err (infra ''invalid api key id: '') (parse_uuid (env w) (k_id k)))
        (\<lambda>key_id. Inr \<lparr>ai_id = key_id, ai_label = k_label k, ai_created_at = k_created_at k\<rparr>)) rows, w))"

definition update_keys :: "(api_key_row \<Rightarrow> bool) \<Rightarrow> (api_key_row \<Rightarrow> api_key_row) \<Rightarrow> nat stmt" where
  "update_keys p f d = Some (d\<lparr>api_keys := fst (update_rows p f (api_keys d))\<rparr>,
     snd (update_rows p f (api_keys d)))"

definition revoke_api_key_by_owner :: "uuid \<Rightarrow> uuid \<Rightarrow> bool op" where
  "revoke_api_key_by_owner user_id api_key_id =
     bind_op unix_timestamp_string (\<lambda>now.
     bind_op (err_op Infrastructure (exec (update_keys
         (\<lambda>k. k_id k = api_key_id \<and> k_user_id k = user_id \<and> k_revoked k = 0)
         (\<lambda>k. k\<lparr>k_revoked := 1, k_updated_at := now\<rparr>)))) (\<lambda>affected.
     ret (affected = 1)))"

text \<open>The join with \<open>COALESCE(u.role, 'member')\<close>.\<close>

definition select_api_key :: "str \<Rightarrow> database \<Rightarrow> (str \<times> str \<times> str) option" where
  "select_api_key token_hash d =
     (case find (\<lambda>k. k_key_hash k = token_hash \<and> k_revoked k = 0) (api_keys d) of
        None \<Rightarrow> None
      | Some k \<Rightarrow> Some (k_id k, k_user_id k,
          (case find (\<lambda>u. u_id u = k_user_id k) (users d) of
             None \<Rightarrow> lit ''member'' | Some u \<Rightarrow> u_role u)))"

definition resolve_api_key_identity :: "auth_env \<Rightarrow> str \<Rightarrow> api_key_identity handler" where
  "resolve_api_key_identity a authorization =
     bind_op (of_result (ok_or (map_error 401 Unauthorized) (authorization_token authorization))) (\<lambda>token.
     bind_op (err_op (\<lambda>e. map_error 500 (Infrastructure e))
         (exec (query_stmt (select_api_key (hash_value a token))))) (\<lambda>found.
     bind_op (of_result (ok_or (map_error 401 Unauthorized) found)) (\<lambda>(key_id, user_id, user_role) w.
     (and_then (map_err (\<lambda>e. map_error 401 (InvalidConfig (lit ''api key identity'') e))
          (parse_uuid (env w) key_id)) (\<lambda>api_key_id.
      and_then (map_err (\<lambda>e. map_error 401 (InvalidConfig (lit ''api key identity'') e))
          (parse_uuid (env w) user_id)) (\<lambda>owner.
      Inr \<lparr>id_api_key_id = api_key_id, id_user_id = owner, id_user_role = user_role\<rparr>)), w))))"

definition api_key_auth :: "auth_env \<Rightarrow> headers \<Rightarrow> (api_key_identity \<Rightarrow> 'a handler) \<Rightarrow> 'a handler" where
  "api_key_auth a h next_handler =
     bind_op (of_result (ok_or (map_error 401 Unauthorized) (header_text h ''authorization''))) (\<lambda>authorization.
     bind_op (resolve_api_key_identity a authorization) next_handler)"

text \<open>\<open>GET /v1/ping\<close>: who the key belongs to.\<close>

record api_key_protected_response =
  ar_user_id :: uuid
  ar_api_key_id :: uuid
  ar_role :: str

definition api_key_ping :: "api_key_identity \<Rightarrow> api_key_protected_response" where
  "api_key_ping who = \<lparr>ar_user_id = id_user_id who, ar_api_key_id = id_api_key_id who, ar_role = id_user_role who\<rparr>"

text \<open>The handlers that need a session.\<close>

definition create_api_key :: "auth_env \<Rightarrow> headers \<Rightarrow> str option \<Rightarrow> api_key_create_response handler" where
  "create_api_key a h label =
     bind_op (session_user_id_from_header a h) (\<lambda>user_id.
     err_op from_app_error (create_api_key_for_user a user_id label))"

definition list_api_keys :: "auth_env \<Rightarrow> headers \<Rightarrow> api_key_list_item list handler" where
  "list_api_keys a h =
     bind_op (session_user_id_from_header a h) (\<lambda>user_id.
     err_op from_app_error (list_api_keys_for_user user_id))"

definition revoke_api_key :: "auth_env \<Rightarrow> headers \<Rightarrow> uuid \<Rightarrow> (bool \<times> uuid) handler" where
  "revoke_api_key a h api_key_id =
     bind_op (session_user_id_from_header a h) (\<lambda>user_id.
     bind_op (err_op from_app_error (revoke_api_key_by_owner user_id api_key_id)) (\<lambda>revoked.
     ret (revoked, api_key_id)))"

definition me :: "auth_env \<Rightarrow> headers \<Rightarrow> (uuid \<times> str) handler" where
  "me a h =
     bind_op (session_user_id_from_header a h) (\<lambda>user_id.
     bind_op (err_op from_app_error (find_user_role_by_id user_id)) (\<lambda>role.
     ret (user_id, role)))"

section \<open>The life of keys and sessions\<close>

definition same_key :: "api_key_row \<Rightarrow> api_key_row \<Rightarrow> bool" where
  "same_key a b \<longleftrightarrow> k_id b = k_id a \<and> k_user_id b = k_user_id a \<and> k_key_hash b = k_key_hash a"

inductive key_step :: "api_key_row list \<Rightarrow> api_key_row list \<Rightarrow> bool" where
  issue: "k_id k \<notin> k_id ` set ks \<Longrightarrow> k_key_hash k \<notin> k_key_hash ` set ks \<Longrightarrow> k_revoked k = 0 \<Longrightarrow>
     key_step ks (ks @ [k])"
| revoke: "key_step ks (fst (update_rows (\<lambda>k. p k \<and> k_revoked k = 0)
     (\<lambda>k. k\<lparr>k_revoked := 1, k_updated_at := now\<rparr>) ks))"

definition same_session :: "session_row \<Rightarrow> session_row \<Rightarrow> bool" where
  "same_session a b \<longleftrightarrow> s_id b = s_id a \<and> s_user_id b = s_user_id a \<and> s_token_hash b = s_token_hash a
     \<and> s_expires_at b = s_expires_at a"

inductive session_step :: "session_row list \<Rightarrow> session_row list \<Rightarrow> bool" where
  start: "s_id r \<notin> s_id ` set ss \<Longrightarrow> s_token_hash r \<notin> s_token_hash ` set ss \<Longrightarrow> s_revoked r = 0 \<Longrightarrow>
     session_step ss (ss @ [r])"
| logout: "session_step ss (fst (update_rows (\<lambda>r. p r \<and> s_revoked r = 0)
     (\<lambda>r. r\<lparr>s_revoked := 1, s_updated_at := now\<rparr>) ss))"
| lapse: "session_step ss (fst (update_rows p (\<lambda>r. r\<lparr>s_revoked := 1\<rparr>) ss))"

lemma key_step_shape:
  assumes "key_step ks ks'"
  shows "(\<exists>k. k_id k \<notin> k_id ` set ks \<and> k_key_hash k \<notin> k_key_hash ` set ks \<and> ks' = ks @ [k])
    \<or> (\<exists>f. ks' = map f ks \<and> (\<forall>k. same_key k (f k) \<and> (k_revoked k \<noteq> 0 \<longrightarrow> k_revoked (f k) \<noteq> 0)))"
  using assms
proof cases
  case (issue k)
  then show ?thesis by blast
next
  case (revoke p now)
  show ?thesis
    by (rule disjI2, rule exI [of _ "\<lambda>k. if p k \<and> k_revoked k = 0
          then k\<lparr>k_revoked := 1, k_updated_at := now\<rparr> else k"])
      (simp add: revoke update_rows_def same_key_def)
qed

lemma session_step_shape:
  assumes "session_step ss ss'"
  shows "(\<exists>r. s_id r \<notin> s_id ` set ss \<and> s_token_hash r \<notin> s_token_hash ` set ss \<and> ss' = ss @ [r])
    \<or> (\<exists>f. ss' = map f ss \<and> (\<forall>r. same_session r (f r) \<and> (s_revoked r \<noteq> 0 \<longrightarrow> s_revoked (f r) \<noteq> 0)))"
  using assms
proof cases
  case (start r)
  then show ?thesis by blast
next
  case (logout p now)
  show ?thesis
    by (rule disjI2, rule exI [of _ "\<lambda>r. if p r \<and> s_revoked r = 0
          then r\<lparr>s_revoked := 1, s_updated_at := now\<rparr> else r"])
      (simp add: logout update_rows_def same_session_def)
next
  case (lapse p)
  show ?thesis
    by (rule disjI2, rule exI [of _ "\<lambda>r. if p r then r\<lparr>s_revoked := 1\<rparr> else r"])
      (simp add: lapse update_rows_def same_session_def)
qed

text \<open>
  A table that only grows by rows with a new key and rewrites rows in place has the life cycle:
  \<open>f\<close> keeps the key, and what is final stays final.
\<close>

lemma row_lifecycle_shape:
  assumes shape: "\<And>rs rs'. step rs rs' \<Longrightarrow> (\<exists>r. key r \<notin> key ` set rs \<and> rs' = rs @ [r])
      \<or> (\<exists>f. rs' = map f rs \<and> (\<forall>r. key (f r) = key r \<and> keep r (f r) \<and> (final r \<longrightarrow> final (f r))))"
    and refl: "\<And>r. keep r r" and trans: "\<And>a b c. keep a b \<Longrightarrow> keep b c \<Longrightarrow> keep a c"
  shows "row_lifecycle key final keep step"
proof
  fix r a b c and rs rs'
  show "keep r r" by (fact refl)
  show "keep a b \<Longrightarrow> keep b c \<Longrightarrow> keep a c" by (fact trans)
  show "\<exists>new. map key rs' = map key rs @ new" if "step rs rs'"
    using shape [OF that]
  proof (elim disjE exE conjE)
    fix f assume "rs' = map f rs" "\<forall>r. key (f r) = key r \<and> keep r (f r) \<and> (final r \<longrightarrow> final (f r))"
    then have "map key rs' = map key rs @ []" by simp
    then show ?thesis ..
  qed simp
  show "\<exists>r' \<in> set rs'. key r' = key r \<and> final r' \<and> keep r r'" if "step rs rs'" "r \<in> set rs" "final r"
    using shape [OF that(1)] that(2,3) refl by auto
  show "distinct (map key rs')" if "step rs rs'" "distinct (map key rs)"
    using shape [OF that(1)] that(2) by (auto simp: o_def)
qed

interpretation key_hash: row_lifecycle k_key_hash "\<lambda>k. k_revoked k \<noteq> 0" same_key key_step
proof (rule row_lifecycle_shape)
  fix ks ks' assume "key_step ks ks'"
  from key_step_shape [OF this]
  show "(\<exists>r. k_key_hash r \<notin> k_key_hash ` set ks \<and> ks' = ks @ [r])
      \<or> (\<exists>f. ks' = map f ks \<and> (\<forall>r. k_key_hash (f r) = k_key_hash r \<and> same_key r (f r)
            \<and> (k_revoked r \<noteq> 0 \<longrightarrow> k_revoked (f r) \<noteq> 0)))"
    by (auto simp: same_key_def)
qed (auto simp: same_key_def)

interpretation session_hash: row_lifecycle s_token_hash "\<lambda>r. s_revoked r \<noteq> 0" same_session session_step
proof (rule row_lifecycle_shape)
  fix ss ss' assume "session_step ss ss'"
  from session_step_shape [OF this]
  show "(\<exists>r. s_token_hash r \<notin> s_token_hash ` set ss \<and> ss' = ss @ [r])
      \<or> (\<exists>f. ss' = map f ss \<and> (\<forall>r. s_token_hash (f r) = s_token_hash r \<and> same_session r (f r)
            \<and> (s_revoked r \<noteq> 0 \<longrightarrow> s_revoked (f r) \<noteq> 0)))"
    by (auto simp: same_session_def)
qed (auto simp: same_session_def)

section \<open>What the handlers do\<close>

lemma key_handler_steps:
  "keeps (on_db out (\<lambda>d. key_step\<^sup>*\<^sup>* ks (api_keys d))) (create_api_key_for_user a u label)"
  "keeps (on_db out (\<lambda>d. key_step\<^sup>*\<^sup>* ks (api_keys d))) (revoke_api_key_by_owner u i)"
proof -
  let ?Q = "\<lambda>d. key_step\<^sup>*\<^sup>* ks (api_keys d)"
  have "?Q d'" if "?Q d" "insert_api_key k d = Some (d', x)" "k_revoked k = 0" for k d d' x
    using that key_step.issue [of k "api_keys d"]
    by (auto simp: insert_api_key_def split: if_splits intro: rtranclp.rtrancl_into_rtrancl)
  then show "keeps (on_db out ?Q) (create_api_key_for_user a u label)"
    unfolding create_api_key_for_user_def by (intro keeps_intros keeps_exec) auto
  have "?Q d'" if "?Q d"
    "update_keys (\<lambda>k. k_id k = i \<and> k_user_id k = u \<and> k_revoked k = 0)
       (\<lambda>k. k\<lparr>k_revoked := 1, k_updated_at := now\<rparr>) d = Some (d', x)" for d d' x now
    using that key_step.revoke [of "api_keys d" "\<lambda>k. k_id k = i \<and> k_user_id k = u" now]
    by (auto simp: update_keys_def intro: rtranclp.rtrancl_into_rtrancl)
  then show "keeps (on_db out ?Q) (revoke_api_key_by_owner u i)"
    unfolding revoke_api_key_by_owner_def by (intro keeps_intros keeps_exec) auto
qed

lemma revoke_by_owner_ok:
  assumes "revoke_api_key_by_owner u i w = (Inr b, w')"
  shows "env w' = env w \<and> (\<exists>now. db w' = (db w)\<lparr>api_keys := map (\<lambda>k.
      if k_id k = i \<and> k_user_id k = u \<and> k_revoked k = 0 then k\<lparr>k_revoked := 1, k_updated_at := now\<rparr> else k)
      (api_keys (db w))\<rparr>)
    \<and> (b \<longleftrightarrow> length (filter (\<lambda>k. k_id k = i \<and> k_user_id k = u \<and> k_revoked k = 0) (api_keys (db w))) = 1)"
proof -
  define now where "now = show_nat (clock (env w) (tick w))"
  have "env w' = env w \<and> db w' = (db w)\<lparr>api_keys := map (\<lambda>k.
      if k_id k = i \<and> k_user_id k = u \<and> k_revoked k = 0 then k\<lparr>k_revoked := 1, k_updated_at := now\<rparr> else k)
      (api_keys (db w))\<rparr>
    \<and> (b \<longleftrightarrow> length (filter (\<lambda>k. k_id k = i \<and> k_user_id k = u \<and> k_revoked k = 0) (api_keys (db w))) = 1)"
    using assms unfolding now_def
    by (auto simp: revoke_api_key_by_owner_def op_results stmt_results update_keys_def update_rows_def)
  then show ?thesis by blast
qed

lemma resolve_ok:
  assumes "resolve_api_key_identity a authz w = (Inr x, w')"
  shows "db w' = db w \<and> (\<exists>token k. authorization_token authz = Some token \<and> k \<in> set (api_keys (db w))
     \<and> k_key_hash k = hash_value a token \<and> k_revoked k = 0
     \<and> parse_uuid (env w) (k_id k) = Inr (id_api_key_id x)
     \<and> parse_uuid (env w) (k_user_id k) = Inr (id_user_id x))"
proof -
  obtain token key_id user_id role w1 where t: "authorization_token authz = Some token"
    "select_api_key (hash_value a token) (db w) = Some (key_id, user_id, role)"
    "parse_uuid (env w) key_id = Inr (id_api_key_id x)" "parse_uuid (env w) user_id = Inr (id_user_id x)"
    and db: "db w' = db w"
    using assms
    by (auto simp: resolve_api_key_identity_def op_results stmt_results query_stmt_def and_then_Inr)
  then obtain k where "find (\<lambda>k. k_key_hash k = hash_value a token \<and> k_revoked k = 0) (api_keys (db w)) = Some k"
    "k_id k = key_id" "k_user_id k = user_id"
    by (auto simp: select_api_key_def split: option.splits)
  then show ?thesis using find_SomeD t db by fastforce
qed

section \<open>Properties\<close>

text \<open>C13. Revocation is final: once the owner has revoked a key, no request that presents the key's
  token is ever authenticated again, whatever keys are issued or revoked afterwards; and only the
  owner can revoke it.\<close>

theorem revoked_key_never_authenticates:
  assumes revoke: "revoke_api_key_by_owner u i w = (Inr True, w1)"
    and key: "k \<in> set (api_keys (db w))" "k_id k = i" "k_key_hash k = hash_value a token"
    and table: "distinct (map k_id (api_keys (db w)))" "distinct (map k_key_hash (api_keys (db w)))"
    and later: "key_step\<^sup>*\<^sup>* (api_keys (db w1)) (api_keys (db w2))"
    and present: "authorization_token authz = Some token"
  shows "k_user_id k = u \<and> (\<forall>x. fst (resolve_api_key_identity a authz w2) \<noteq> Inr x)"
proof -
  obtain now where w1: "db w1 = (db w)\<lparr>api_keys := map (\<lambda>k.
      if k_id k = i \<and> k_user_id k = u \<and> k_revoked k = 0 then k\<lparr>k_revoked := 1, k_updated_at := now\<rparr> else k)
      (api_keys (db w))\<rparr>"
    and one: "length (filter (\<lambda>k. k_id k = i \<and> k_user_id k = u \<and> k_revoked k = 0) (api_keys (db w))) = 1"
    using revoke_by_owner_ok [OF revoke] by auto
  have "filter (\<lambda>k. k_id k = i \<and> k_user_id k = u \<and> k_revoked k = 0) (api_keys (db w)) \<noteq> []"
    using one by auto
  then obtain k' where "k' \<in> set (api_keys (db w))" "k_id k' = i" "k_user_id k' = u" "k_revoked k' = 0"
    unfolding filter_empty_conv by blast
  moreover have "k' = k"
    using calculation key table(1) by (auto simp: distinct_map inj_on_def)
  ultimately have k: "k_user_id k = u" "k_revoked k = 0" by simp_all
  let ?f = "\<lambda>k. if k_id k = i \<and> k_user_id k = u \<and> k_revoked k = 0
      then k\<lparr>k_revoked := 1, k_updated_at := now\<rparr> else k"
  have hd: "distinct (map k_key_hash (api_keys (db w1)))"
    using table(2) by (simp add: w1 o_def if_distrib cong: if_cong)
  have in1: "?f k \<in> set (api_keys (db w1))" "k_revoked (?f k) \<noteq> 0" "k_key_hash (?f k) = hash_value a token"
    using key k by (auto simp: w1)
  have "fst (resolve_api_key_identity a authz w2) \<noteq> Inr x" for x
  proof
    assume x: "fst (resolve_api_key_identity a authz w2) = Inr x"
    obtain k2 where "k2 \<in> set (api_keys (db w2))" "k_key_hash k2 = hash_value a token" "k_revoked k2 = 0"
      using resolve_ok [of a authz w2 x "snd (resolve_api_key_identity a authz w2)"] x present
      by (auto simp: prod_eq_iff)
    then show False using key_hash.row_is_final [OF later hd in1(1,2)] in1(3) by force
  qed
  then show ?thesis using k by blast
qed

text \<open>Concrete cryptography for the instances below.\<close>

definition plain_crypto :: auth_env where
  "plain_crypto = \<lparr>sha256 = id, bcrypt_hash = (\<lambda>pw salt. Inr pw),
     bcrypt_verify = (\<lambda>pw h. Inr (pw = h)), join_error = (\<lambda>_. None)\<rparr>"

definition sample_key :: api_key_row where
  "sample_key = \<lparr>k_id = [1], k_user_id = [2], k_key_hash = hex_bytes [107], k_label = None, k_revoked = 0,
     k_created_at = [48], k_updated_at = [48]\<rparr>"

definition key_world :: world where
  "key_world = calm_world (empty_database\<lparr>api_keys := [sample_key]\<rparr>)"

lemma token_k: "authorization_token (lit ''Bearer k'') = Some [107]"
  by (simp add: authorization_token_def lit_def split_whitespace.simps is_whitespace_def
      eq_ignore_ascii_case_def to_ascii_lowercase_def ascii_lower_def)

theorem revoked_key_never_authenticates_witness:
  "fst (resolve_api_key_identity plain_crypto (lit ''Bearer k'') key_world)
     = Inr \<lparr>id_api_key_id = [1], id_user_id = [2], id_user_role = lit ''member''\<rparr>
   \<and> (\<forall>x. fst (resolve_api_key_identity plain_crypto (lit ''Bearer k'')
        (snd (revoke_api_key_by_owner [2] [1] key_world))) \<noteq> Inr x)"
proof
  show "fst (resolve_api_key_identity plain_crypto (lit ''Bearer k'') key_world)
     = Inr \<lparr>id_api_key_id = [1], id_user_id = [2], id_user_role = lit ''member''\<rparr>"
    by (simp add: resolve_api_key_identity_def token_k run_simps select_api_key_def key_world_def calm_world_def
        calm_def sample_key_def plain_crypto_def hash_value_def empty_database_def)
  have "revoke_api_key_by_owner [2] [1] key_world = (Inr True, snd (revoke_api_key_by_owner [2] [1] key_world))"
    by (simp add: revoke_api_key_by_owner_def run_simps update_keys_def key_world_def calm_world_def
        calm_def sample_key_def empty_database_def)
  then show "\<forall>x. fst (resolve_api_key_identity plain_crypto (lit ''Bearer k'')
        (snd (revoke_api_key_by_owner [2] [1] key_world))) \<noteq> Inr x"
    using revoked_key_never_authenticates [of "[2]" "[1]" key_world _ sample_key plain_crypto "[107]", OF _ _ _ _ _ _
        rtranclp.rtrancl_refl token_k]
    by (simp add: key_world_def sample_key_def hash_value_def plain_crypto_def)
qed


definition sample_session :: session_row where
  "sample_session = \<lparr>s_id = [1], s_user_id = [2], s_token_hash = hex_bytes [107], s_expires_at = Some [57],
     s_revoked = 0, s_created_at = [48], s_updated_at = [48]\<rparr>"

definition session_world :: world where
  "session_world = calm_world (empty_database\<lparr>sessions := [sample_session]\<rparr>)"

definition bearer_k :: headers where
  "bearer_k n = (if n = lit ''authorization'' then Some (Some (lit ''Bearer k'')) else None)"

lemma bearer_k_token: "session_token_from_headers bearer_k = Some [107]"
  by (simp add: session_token_from_headers_def header_text_def bearer_k_def token_k)


lemma create_user_ok:
  assumes "create_user a email pw role w = (Inr x, w')"
  shows "env w' = env w \<and> (\<exists>u. db w' = (db w)\<lparr>users := users (db w) @ [u]\<rparr>
     \<and> u_email u = email \<and> u_role u = role \<and> u_id u = rr_user_id x \<and> u_id u = fresh (env w) (Suc (tick w))
     \<and> bcrypt_hash a pw (tick w) = Inr (u_password_hash u) \<and> email \<notin> u_email ` set (users (db w)))
     \<and> rr_email x = email \<and> rr_role x = role"
proof -
  obtain hashed now where h: "bcrypt_hash a pw (tick w) = Inr hashed"
    and ins: "insert_user \<lparr>u_id = rr_user_id x, u_email = email, u_password_hash = hashed, u_role = role,
        u_created_at = now, u_updated_at = now\<rparr> (db w) = Some (db w', 1)"
    and rest: "env w' = env w" "rr_email x = email" "rr_role x = role"
      "rr_user_id x = fresh (env w) (Suc (tick w))"
    using assms by (auto simp: create_user_def op_results stmt_results split: if_splits)
  let ?u = "\<lparr>u_id = rr_user_id x, u_email = email, u_password_hash = hashed, u_role = role,
        u_created_at = now, u_updated_at = now\<rparr>"
  have "db w' = (db w)\<lparr>users := users (db w) @ [?u]\<rparr>" "email \<notin> u_email ` set (users (db w))"
    using ins by (auto simp: insert_user_def split: if_splits)
  then show ?thesis using h rest by (intro conjI exI [of _ ?u]) simp_all
qed

text \<open>C27. Registration and login fit together: after a registration, a login with the same password
  and any spelling of the address that normalises to the same one is accepted for the new user
  with the role of a member, and a login whose password does not verify is answered with 401;
  and no two users ever share an address.\<close>

theorem registered_user_can_log_in:
  assumes reg: "register a c w = (Inr x, w1)" and crypt: "bcrypt_ok a" and ids: "fresh_ok (env w)"
    and later: "db w2 = db w1" "env w2 = env w" "\<forall>n. fault (env w) n = None" "\<forall>n. join_error a n = None"
    and mail: "normalize_email (env w) (cd_email c') = normalize_email (env w) (cd_email c)"
    and unused: "\<forall>n. fresh (env w) n \<notin> s_id ` set (sessions (db w))"
      "\<forall>n. hash_value a (SESSION_TOKEN_PREFIX @ fresh (env w) n) \<notin> s_token_hash ` set (sessions (db w))"
  shows "(cd_password c' = cd_password c \<longrightarrow>
      (\<exists>l. fst (login a c' w2) = Inr l \<and> lr_user_id l = rr_user_id x \<and> lr_role l = lit ''member''))
    \<and> (\<forall>h. bcrypt_verify a (cd_password c') h = Inr False \<longrightarrow> cd_password c' \<noteq> [] \<longrightarrow>
        bcrypt_hash a (cd_password c) (tick w) = Inr h \<longrightarrow> fst (login a c' w2) = Inl (map_error 401 Unauthorized))
    \<and> rr_email x \<notin> u_email ` set (users (db w))"
proof -
  let ?email = "normalize_email (env w) (cd_email c)"
  have ne: "?email \<noteq> []" "cd_password c \<noteq> []"
    and cu: "create_user a ?email (cd_password c) (lit ''member'') w = (Inr x, w1)"
    using reg by (auto simp: register_def Let_def err_op_Inr split: if_splits)
  obtain u where u: "db w1 = (db w)\<lparr>users := users (db w) @ [u]\<rparr>" "u_email u = ?email"
    "u_role u = lit ''member''" "u_id u = rr_user_id x" "u_id u = fresh (env w) (Suc (tick w))"
    "bcrypt_hash a (cd_password c) (tick w) = Inr (u_password_hash u)" "?email \<notin> u_email ` set (users (db w))"
    and em: "rr_email x = ?email"
    using create_user_ok [OF cu] by blast
  have f: "find (\<lambda>v. u_email v = ?email) (users (db w2)) = Some u"
  proof -
    have "find (\<lambda>v. u_email v = ?email) (users (db w)) = None"
      using u(7) by (force simp: find_None_iff)
    then show ?thesis using u(2) by (simp add: later(1) u(1) find_append)
  qed
  have pu: "parse_uuid (env w) (u_id u) = Inr (u_id u)"
    using ids u(5) by (simp add: fresh_ok_def uuid_ok_def)
  have find: "find_user_by_email ?email w2
      = (Inr (Some \<lparr>du_id = u_id u, du_password_hash = u_password_hash u, du_role = u_role u\<rparr>), tick_world w2)"
    using f pu later(2,3) by (simp add: find_user_by_email_def run_simps)
  have "\<exists>l. fst (login a c' w2) = Inr l \<and> lr_user_id l = rr_user_id x \<and> lr_role l = lit ''member''"
    if pw: "cd_password c' = cd_password c"
  proof -
    have ver: "bcrypt_verify a (cd_password c) (u_password_hash u) = Inr True"
      using crypt u(6) by (simp add: bcrypt_ok_def)
    have ses: "sessions (db w1) = sessions (db w)" by (simp add: u(1))
    show ?thesis
      using ne find ver pw mail later unused u(3,4)
      by (simp add: login_def Let_def bind_op_def err_op_def of_result_def verify_password_def
          create_session_def uuid_now_v7_def now_utc_epoch_seconds_def ret_def exec_def insert_session_def
          tick_world_def ses)
  qed
  moreover have "fst (login a c' w2) = Inl (map_error 401 Unauthorized)"
    if "bcrypt_verify a (cd_password c') h = Inr False" "cd_password c' \<noteq> []"
      "bcrypt_hash a (cd_password c) (tick w) = Inr h" for h
    using that ne find mail later u(6)
    by (simp add: login_def Let_def bind_op_def err_op_def of_result_def verify_password_def throw_def)
  ultimately show ?thesis unfolding em by (intro conjI impI allI u(7))
qed

definition alice :: credentials where
  "alice = \<lparr>cd_email = lit ''Alice@x.org'', cd_password = lit ''pw''\<rparr>"

definition alice_again :: credentials where
  "alice_again = \<lparr>cd_email = lit '' alice@X.org'', cd_password = lit ''pw''\<rparr>"

lemma alice_email:
  "normalize_email calm (cd_email alice) = lit ''alice@x.org''"
  "normalize_email calm (cd_email alice_again) = lit ''alice@x.org''"
  by (simp_all add: normalize_email_def calm_def alice_def alice_again_def lit_def trim_def trim_start_def
      trim_end_def is_whitespace_def to_ascii_lowercase_def ascii_lower_def)

lemma alice_registers:
  "register plain_crypto alice (calm_world empty_database)
     = (Inr \<lparr>rr_user_id = [101], rr_email = lit ''alice@x.org'', rr_role = lit ''member''\<rparr>,
        snd (register plain_crypto alice (calm_world empty_database)))"
  using alice_email(1)
  by (simp add: register_def create_user_def run_simps insert_user_def calm_world_def plain_crypto_def
      empty_database_def prod_eq_iff)
    (simp add: alice_def calm_def insert_user_def tick_world_def ret_def)

theorem registered_user_can_log_in_witness:
  "\<exists>l. fst (login plain_crypto alice_again (snd (register plain_crypto alice (calm_world empty_database)))) = Inr l
     \<and> lr_user_id l = [101]"
proof -
  have e: "env (snd (register plain_crypto alice (calm_world empty_database))) = calm"
    using alice_registers create_user_ok
    by (auto simp: register_def Let_def err_op_Inr split: if_splits)
  have c: "bcrypt_ok plain_crypto" "fresh_ok calm" "fault calm n = None" "join_error plain_crypto n = None"
    "env (calm_world empty_database) = calm" "sessions (db (calm_world empty_database)) = []"
    "cd_password alice_again = cd_password alice" for n
    by (simp_all add: bcrypt_ok_def plain_crypto_def fresh_ok_def uuid_ok_def calm_world_def calm_def
        empty_database_def alice_def alice_again_def)
  have "\<exists>l. fst (login plain_crypto alice_again (snd (register plain_crypto alice (calm_world empty_database)))) = Inr l
     \<and> lr_user_id l = rr_user_id \<lparr>rr_user_id = [101], rr_email = lit ''alice@x.org'', rr_role = lit ''member''\<rparr>
     \<and> lr_role l = lit ''member''"
    by (rule registered_user_can_log_in [OF alice_registers, THEN conjunct1, rule_format])
      (simp_all only: e c alice_email, simp_all)
  then show ?thesis by (elim exE conjE, intro exI conjI) simp_all
qed

end
