(* ===== verification/Utf8.thy ===== *)
theory Utf8
  imports Prelude
begin

text \<open>
  The bytes of a string: \<open>as_bytes\<close> and \<open>str::from_utf8\<close> of the Rust library. A string is a list of
  Unicode scalar values, a byte a natural number below 256 or a word of 8 bits.
\<close>

section \<open>Encoding\<close>

definition utf8_char :: "uchar \<Rightarrow> nat list" where
  "utf8_char c =
     (if c < 128 then [c]
      else if c < 2048 then [192 + c div 64, 128 + c mod 64]
      else if c < 65536 then [224 + c div 4096, 128 + c div 64 mod 64, 128 + c mod 64]
      else [240 + c div 262144, 128 + c div 4096 mod 64, 128 + c div 64 mod 64, 128 + c mod 64])"

definition bytes :: "str \<Rightarrow> u8 list" where
  "bytes s = map word_of_nat (concat (map utf8_char s))"

definition scalar :: "uchar \<Rightarrow> bool" where
  "scalar c \<longleftrightarrow> c < 1114112"

lemma utf8_char_lt: "scalar c \<Longrightarrow> b \<in> set (utf8_char c) \<Longrightarrow> b < 256"
  by (auto simp: utf8_char_def scalar_def split: if_splits)

lemma utf8_ascii:
  assumes "\<forall>c \<in> set l. c < 128" "concat (map utf8_char l) = concat (map utf8_char r)"
  shows "l = r"
  using assms
proof (induction l arbitrary: r)
  case Nil
  then show ?case by (cases r) (auto simp: utf8_char_def split: if_splits)
next
  case (Cons c l)
  then obtain d r' where r: "r = d # r'" by (cases r) (auto simp: utf8_char_def)
  have low: "utf8_char c = [c]" using Cons.prems(1) by (simp add: utf8_char_def)
  have "utf8_char d = [d] \<or> (\<exists>b bs. utf8_char d = b # bs \<and> 128 \<le> b)" by (simp add: utf8_char_def)
  then have "d = c \<and> concat (map utf8_char l) = concat (map utf8_char r')"
    using Cons.prems low by (auto simp: r)
  then show ?case using Cons.IH [of r'] Cons.prems(1) by (simp add: r)
qed

lemma map_word_inj:
  "\<forall>b \<in> set xs. b < 256 \<Longrightarrow> \<forall>b \<in> set ys. b < 256 \<Longrightarrow>
     map word_of_nat xs = (map word_of_nat ys :: u8 list) \<longleftrightarrow> xs = ys"
proof (induction xs arbitrary: ys)
  case (Cons x xs)
  show ?case
  proof (cases ys)
    case (Cons y zs)
    have "word_of_nat x = (word_of_nat y :: u8) \<longleftrightarrow> x = y"
      using Cons.prems by (auto simp: Cons word_of_nat_eq_iff take_bit_nat_eq_self)
    then show ?thesis using Cons.IH [of zs] Cons.prems by (auto simp: Cons)
  qed simp
qed auto

section \<open>Decoding\<close>

text \<open>\<open>str::from_utf8\<close>: shortest forms only, no surrogates, at most \<open>0x10FFFF\<close>.\<close>

definition continuation :: "nat \<Rightarrow> bool" where
  "continuation b \<longleftrightarrow> 128 \<le> b \<and> b < 192"

fun utf8_decode :: "nat list \<Rightarrow> str option" where
  "utf8_decode [] = Some []"
| "utf8_decode (a # bs) =
     (if a < 128 then map_option ((#) a) (utf8_decode bs)
      else if 194 \<le> a \<and> a < 224 then
        (case bs of b # rest \<Rightarrow>
            if continuation b then map_option ((#) ((a - 192) * 64 + (b - 128))) (utf8_decode rest) else None
         | _ \<Rightarrow> None)
      else if 224 \<le> a \<and> a < 240 then
        (case bs of b # c # rest \<Rightarrow>
            if continuation b \<and> continuation c \<and> (a = 224 \<longrightarrow> 160 \<le> b) \<and> (a = 237 \<longrightarrow> b < 160)
            then map_option ((#) ((a - 224) * 4096 + (b - 128) * 64 + (c - 128))) (utf8_decode rest) else None
         | _ \<Rightarrow> None)
      else if 240 \<le> a \<and> a < 245 then
        (case bs of b # c # d # rest \<Rightarrow>
            if continuation b \<and> continuation c \<and> continuation d \<and> (a = 240 \<longrightarrow> 144 \<le> b) \<and> (a = 244 \<longrightarrow> b < 144)
            then map_option ((#) ((a - 240) * 262144 + (b - 128) * 4096 + (c - 128) * 64 + (d - 128)))
              (utf8_decode rest) else None
         | _ \<Rightarrow> None)
      else None)"

lemma utf8_decode_Nil [simp]: "utf8_decode xs = Some [] \<longleftrightarrow> xs = []"
  by (cases xs rule: utf8_decode.cases) (auto split: if_splits list.splits)

section \<open>Round trip\<close>

text \<open>A Rust \<open>char\<close>: no surrogates.\<close>

definition is_char :: "uchar \<Rightarrow> bool" where
  "is_char c \<longleftrightarrow> c < 55296 \<or> 57344 \<le> c \<and> c < 1114112"

definition utf8_encode :: "str \<Rightarrow> nat list" where
  "utf8_encode s = concat (map utf8_char s)"

lemma utf8_encode_simps [simp]: "utf8_encode [] = []" "utf8_encode (c # s) = utf8_char c @ utf8_encode s"
  by (simp_all add: utf8_encode_def)

lemma utf8_encode_eq_Nil [simp]: "utf8_encode s = [] \<longleftrightarrow> s = []"
  by (cases s) (simp_all add: utf8_char_def)

lemma div_64: "(c :: nat) div 4096 = c div 64 div 64" "c div 262144 = c div 64 div 64 div 64"
  by (simp_all add: div_mult2_eq [symmetric])

lemma div_mod_64: "(c :: nat) div 64 * 64 + c mod 64 = c"
  by simp

lemma utf8_decode_char: "is_char c \<Longrightarrow> utf8_decode (utf8_char c @ bs) = map_option ((#) c) (utf8_decode bs)"
proof -
  assume c: "is_char c"
  define q1 q2 q3 r1 r2 r3 where q: "q1 = c div 64" "q2 = q1 div 64" "q3 = q2 div 64"
    "r1 = c mod 64" "r2 = q1 mod 64" "r3 = q2 mod 64"
  have e: "c = q1 * 64 + r1" "q1 = q2 * 64 + r2" "q2 = q3 * 64 + r3" unfolding q by (simp_all only: div_mod_64)
  have r: "r1 < 64" "r2 < 64" "r3 < 64" by (simp_all add: q)
  have u: "utf8_char c = (if c < 128 then [c] else if c < 2048 then [192 + q1, 128 + r1]
      else if c < 65536 then [224 + q2, 128 + r2, 128 + r1] else [240 + q3, 128 + r3, 128 + r2, 128 + r1])"
    unfolding utf8_char_def div_64 q ..
  consider "c < 128" | "128 \<le> c" "c < 2048" | "2048 \<le> c" "c < 65536" | "65536 \<le> c" by linarith
  then show ?thesis
  proof cases
    case 2
    then have "2 \<le> q1" "q1 < 32" using e r by linarith+
    with 2 show ?thesis using r e(1) [symmetric] by (simp add: u continuation_def)
  next
    case 3
    have b: "q2 < 16" "q2 = 0 \<Longrightarrow> 32 \<le> r2" using 3 e r by linarith+
    have hi: "r2 < 32" if "q2 = 13"
      using 3 e r c that unfolding is_char_def by linarith
    have "q2 * 4096 + r2 * 64 + r1 = c" using e by simp
    then show ?thesis using 3 b hi r by (auto simp: u continuation_def)
  next
    case 4
    have b: "q3 < 5" "q3 = 0 \<Longrightarrow> 16 \<le> r3" "q3 = 4 \<Longrightarrow> r3 < 16"
      using 4 e r c unfolding is_char_def by linarith+
    have "q3 * 262144 + r3 * 4096 + r2 * 64 + r1 = c" using e by simp
    then show ?thesis using 4 b r by (auto simp: u continuation_def)
  qed (simp add: utf8_char_def)
qed

lemma utf8_decode_encode: "\<forall>c \<in> set s. is_char c \<Longrightarrow> utf8_decode (utf8_encode s) = Some s"
  by (induction s) (simp_all add: utf8_decode_char)

lemma utf8_encode_lt: "\<forall>c \<in> set s. is_char c \<Longrightarrow> \<forall>b \<in> set (utf8_encode s). b < 256"
  by (force simp: utf8_encode_def is_char_def scalar_def dest: utf8_char_lt [rotated])

end
