(* ===== verification/Daemon_Auth.thy ===== *)
theory Daemon_Auth
  imports Auth Utf8
begin

text \<open>
  Signed requests of daemon nodes (crates/mizan-api/src/daemon_nodes.rs, the middleware
  \<open>daemon_node_auth\<close>): a bearer token that names a live node, a timestamp within five minutes, a
  SHA-256 signature over token hash, method, path, timestamp, nonce and body hash, and a nonce that
  the process has not seen. The nonce cache is a \<open>HashMap\<close>, here an association list without
  duplicate keys; its check and its insertion happen under one write lock, after the clock was read.
\<close>

section \<open>Constants and state\<close>

definition secure_eq :: "str \<Rightarrow> str \<Rightarrow> bool" where
  "secure_eq left right =
     (if length (bytes left) \<noteq> length (bytes right) then False
      else foldl (\<lambda>diff (l, r). or diff (xor l r)) 0 (zip (bytes left) (bytes right)) = 0)"

definition STATUS_PENDING :: str where "STATUS_PENDING = lit ''pending''"
definition STATUS_ACTIVE :: str where "STATUS_ACTIVE = lit ''active''"
definition STATUS_REVOKED :: str where "STATUS_REVOKED = lit ''revoked''"
definition DAEMON_SIGNATURE_TTL_SECONDS :: i64 where "DAEMON_SIGNATURE_TTL_SECONDS = 300"
definition NONCE_CACHE_PRUNE_THRESHOLD :: nat where "NONCE_CACHE_PRUNE_THRESHOLD = 256"
definition SIGNATURE_HEADER :: string where "SIGNATURE_HEADER = ''x-mizan-daemon-signature''"
definition NONCE_HEADER :: string where "NONCE_HEADER = ''x-mizan-daemon-nonce''"
definition TIMESTAMP_HEADER :: string where "TIMESTAMP_HEADER = ''x-mizan-daemon-timestamp''"
definition BODY_HASH_HEADER :: string where "BODY_HASH_HEADER = ''x-mizan-daemon-body-hash''"

type_synonym nonce_cache = "(str \<times> i64) list"

record app_state =
  as_world :: world
  as_nonces :: nonce_cache

type_synonym 'a app_handler = "app_state \<Rightarrow> ((status \<times> error_envelope) + 'a) \<times> app_state"

definition on_world :: "(world \<Rightarrow> ('e + 'a) \<times> world) \<Rightarrow> app_state \<Rightarrow> ('e + 'a) \<times> app_state" where
  "on_world m s = (case m (as_world s) of (r, w) \<Rightarrow> (r, s\<lparr>as_world := w\<rparr>))"

definition on_nonces :: "(nonce_cache \<Rightarrow> ('e + 'a) \<times> nonce_cache) \<Rightarrow> app_state \<Rightarrow> ('e + 'a) \<times> app_state" where
  "on_nonces m s = (case m (as_nonces s) of (r, c) \<Rightarrow> (r, s\<lparr>as_nonces := c\<rparr>))"

record daemon_identity =
  di_node_id :: uuid
  di_status :: str
  di_token_hash :: str

record 'b daemon_request =
  dq_method :: str
  dq_path :: str
  dq_headers :: headers
  dq_body :: 'b

section \<open>Signature\<close>

definition header_value :: "headers \<Rightarrow> string \<Rightarrow> status \<Rightarrow> app_error \<Rightarrow> (status \<times> error_envelope) + str" where
  "header_value h key st e =
     (case map_option trim (header_text h key) of
        None \<Rightarrow> Inl (map_error st e)
      | Some v \<Rightarrow> if v = [] then Inl (map_error st e) else Inr v)"

definition requires_body_signature :: "str \<Rightarrow> bool" where
  "requires_body_signature path \<longleftrightarrow> path = lit ''/daemon/register'' \<or> path = lit ''/daemon/heartbeat''
     \<or> starts_with path (lit ''/daemon/jobs/'') \<and> ends_with path (lit ''/complete'')"

definition signed_message :: "str \<Rightarrow> str \<Rightarrow> str \<Rightarrow> i64 \<Rightarrow> str \<Rightarrow> str \<Rightarrow> str" where
  "signed_message token_hash method path timestamp nonce body_hash =
     token_hash @ lit ''|'' @ method @ lit ''|'' @ path @ lit ''|'' @ show_int timestamp
       @ lit ''|'' @ nonce @ lit ''|'' @ body_hash"

definition compute_daemon_signature :: "auth_env \<Rightarrow> str \<Rightarrow> str \<Rightarrow> str \<Rightarrow> i64 \<Rightarrow> str \<Rightarrow> str \<Rightarrow> str" where
  "compute_daemon_signature a token_hash method path timestamp nonce body_hash =
     hex_bytes (sha256 a (signed_message token_hash method path timestamp nonce body_hash))"

definition verify_daemon_signature :: "auth_env \<Rightarrow> str \<Rightarrow> str \<Rightarrow> str \<Rightarrow> i64 \<Rightarrow> str \<Rightarrow> str \<Rightarrow> str \<Rightarrow> bool" where
  "verify_daemon_signature a token_hash method path timestamp nonce body_hash signature =
     secure_eq (compute_daemon_signature a token_hash method path timestamp nonce body_hash) signature"

definition checked :: "int \<Rightarrow> i64 option" where
  "checked x = (if in_i64 x then Some x else None)"

text \<open>The message of \<open>ParseIntError\<close>: the first digit that is none or that leaves the range.\<close>

fun int_error :: "bool \<Rightarrow> int \<Rightarrow> str \<Rightarrow> str" where
  "int_error neg acc [] = []"
| "int_error neg acc (c # cs) =
     (if \<not> (48 \<le> c \<and> c \<le> 57) then lit ''invalid digit found in string''
      else let acc' = (if neg then acc * 10 - int (c - 48) else acc * 10 + int (c - 48)) in
        if \<not> in_i64 acc' then
          lit (if neg then ''number too small to fit in target type'' else ''number too large to fit in target type'')
        else int_error neg acc' cs)"

definition parse_int_error :: "str \<Rightarrow> str" where
  "parse_int_error raw = (case raw of
      [] \<Rightarrow> lit ''cannot parse integer from empty string''
    | [c] \<Rightarrow> int_error False 0 [c]
    | c # cs \<Rightarrow> if c = 43 then int_error False 0 cs else if c = 45 then int_error True 0 cs
        else int_error False 0 (c # cs))"

definition parse_timestamp :: "str \<Rightarrow> app_error + i64" where
  "parse_timestamp raw = ok_or (infra ''invalid timestamp: '' (parse_int_error raw)) (parse_i64 raw)"

record signed_claim =
  sc_timestamp :: i64
  sc_expiry :: i64
  sc_nonce_key :: str

text \<open>Everything before the lock: the headers, the clock (whose reading has no effect) and the signature.\<close>

definition unauthorized :: "status \<times> error_envelope" where
  "unauthorized = map_error 401 Unauthorized"

definition check_claim ::
  "auth_env \<Rightarrow> str \<Rightarrow> str \<Rightarrow> headers \<Rightarrow> daemon_identity \<Rightarrow> i64 \<Rightarrow> (status \<times> error_envelope) + signed_claim" where
  "check_claim a method path h who now =
     and_then (header_value h TIMESTAMP_HEADER 401 Unauthorized) (\<lambda>timestamp_raw.
     and_then (header_value h NONCE_HEADER 401 Unauthorized) (\<lambda>nonce.
     and_then (header_value h SIGNATURE_HEADER 401 Unauthorized) (\<lambda>signature.
     let body_hash = (case header_text h BODY_HASH_HEADER of Some v \<Rightarrow> trim v | None \<Rightarrow> []) in
     if requires_body_signature path \<and> body_hash = [] then Inl unauthorized
     else and_then (map_err (\<lambda>e. map_error 401 (InvalidConfig (lit TIMESTAMP_HEADER) (error_to_string e)))
         (parse_timestamp timestamp_raw)) (\<lambda>timestamp.
     and_then (ok_or unauthorized (Option.bind (checked (now - timestamp)) (\<lambda>d. checked \<bar>d\<bar>))) (\<lambda>age_seconds.
     if age_seconds > DAEMON_SIGNATURE_TTL_SECONDS then Inl unauthorized
     else and_then (ok_or unauthorized (checked (timestamp + DAEMON_SIGNATURE_TTL_SECONDS))) (\<lambda>expiry.
     if \<not> verify_daemon_signature a (di_token_hash who) method path timestamp nonce body_hash signature
     then Inl unauthorized
     else Inr \<lparr>sc_timestamp = timestamp, sc_expiry = expiry,
               sc_nonce_key = di_node_id who @ lit ''::'' @ nonce\<rparr>))))))"

definition prune_stale_nonces :: "i64 \<Rightarrow> nonce_cache \<Rightarrow> nonce_cache" where
  "prune_stale_nonces now cache = filter (\<lambda>(_, expires_at). now \<le> expires_at) cache"

definition admit_nonce :: "i64 \<Rightarrow> signed_claim \<Rightarrow> nonce_cache \<Rightarrow> ((status \<times> error_envelope) + unit) \<times> nonce_cache" where
  "admit_nonce now c cache =
     (let nonces = (if NONCE_CACHE_PRUNE_THRESHOLD \<le> length cache then prune_stale_nonces now cache else cache) in
      if sc_nonce_key c \<in> fst ` set nonces then (Inl unauthorized, nonces)
      else (Inr (), (sc_nonce_key c, sc_expiry c) # nonces))"

definition validate_daemon_request_signature ::
  "auth_env \<Rightarrow> str \<Rightarrow> str \<Rightarrow> headers \<Rightarrow> daemon_identity \<Rightarrow> unit app_handler" where
  "validate_daemon_request_signature a method path h who =
     bind_op (on_world now_utc_epoch_seconds) (\<lambda>now.
     bind_op (of_result (check_claim a method path h who (int now))) (\<lambda>c.
     on_nonces (admit_nonce (int now) c)))"

definition resolve_daemon_node_identity :: "auth_env \<Rightarrow> str \<Rightarrow> daemon_identity handler" where
  "resolve_daemon_node_identity a authorization =
     bind_op (of_result (ok_or (map_error 401 Unauthorized) (authorization_token authorization))) (\<lambda>token.
     bind_op (err_op (\<lambda>e. map_error 500 (Infrastructure e)) (exec (query_stmt (\<lambda>d. find (\<lambda>n.
         dn_token_hash n = hash_value a token \<and> dn_revoked n = 0 \<and> dn_status n \<noteq> STATUS_REVOKED)
         (daemon_nodes d))))) (\<lambda>found.
     bind_op (of_result (ok_or (map_error 401 Unauthorized) found)) (\<lambda>row w.
     (and_then (map_err (\<lambda>e. map_error 401 (InvalidConfig (lit ''daemon node identity'') e))
          (parse_uuid (env w) (dn_id row))) (\<lambda>node_id.
      Inr \<lparr>di_node_id = node_id, di_status = dn_status row, di_token_hash = dn_token_hash row\<rparr>), w))))"

definition daemon_node_auth ::
  "auth_env \<Rightarrow> 'b daemon_request \<Rightarrow> (daemon_identity \<Rightarrow> 'b \<Rightarrow> 'a app_handler) \<Rightarrow> 'a app_handler" where
  "daemon_node_auth a req next_handler =
     bind_op (of_result (ok_or (map_error 401 Unauthorized) (header_text (dq_headers req) ''authorization'')))
       (\<lambda>authorization.
     bind_op (on_world (resolve_daemon_node_identity a authorization)) (\<lambda>who.
     bind_op (validate_daemon_request_signature a (dq_method req) (dq_path req) (dq_headers req) who) (\<lambda>_.
     next_handler who (dq_body req))))"

section \<open>Comparing signatures\<close>

lemma foldl_xor_zero:
  "foldl (\<lambda>diff (l, r). or diff (xor l r)) d ps = 0 \<longleftrightarrow> d = 0 \<and> (\<forall>(l, r) \<in> set ps. l = (r :: u8))"
proof (induction ps arbitrary: d)
  case (Cons p ps)
  have "or d (xor l r) = 0 \<longleftrightarrow> d = 0 \<and> l = r" for l r :: u8
  proof
    assume e: "or d (xor l r) = 0"
    have b: "\<not> bit d n \<and> (bit l n \<longleftrightarrow> bit r n)" if "n < 8" for n
      using arg_cong [where f = "\<lambda>x. bit x n", OF e] by (auto simp: bit_or_iff bit_xor_iff)
    have "d = 0" by (rule bit_word_eqI) (use b in auto)
    moreover have "l = r" by (rule bit_word_eqI) (use b in auto)
    ultimately show "d = 0 \<and> l = r" ..
  qed simp
  then show ?case using Cons.IH by (cases p) auto
qed simp

lemma zip_all_eq: "length xs = length ys \<Longrightarrow> (\<forall>(l, r) \<in> set (zip xs ys). l = r) \<longleftrightarrow> xs = ys"
  by (induction xs ys rule: list_induct2) auto

lemma secure_eq_bytes: "secure_eq l r \<longleftrightarrow> bytes l = bytes r"
  by (auto simp: secure_eq_def foldl_xor_zero zip_all_eq)

lemma secure_eq_ascii:
  assumes "\<forall>c \<in> set l. c < 128" "\<forall>c \<in> set r. scalar c"
  shows "secure_eq l r \<longleftrightarrow> l = r"
proof
  have s: "\<forall>c \<in> set l. scalar c" using assms(1) by (auto simp: scalar_def)
  assume "secure_eq l r"
  then have "concat (map utf8_char l) = concat (map utf8_char r)"
    unfolding secure_eq_bytes bytes_def
    by (subst (asm) map_word_inj) (use s assms(2) utf8_char_lt in auto)
  then show "l = r" by (rule utf8_ascii [OF assms(1)])
qed (simp add: secure_eq_bytes)

section \<open>What a signature covers\<close>

lemma split_at_bar:
  "x @ c # xs = y @ c # ys \<Longrightarrow> c \<notin> set x \<Longrightarrow> c \<notin> set y \<Longrightarrow> x = y \<and> xs = ys"
proof (induction x arbitrary: y)
  case Nil
  then show ?case by (cases y) auto
next
  case (Cons a x)
  then show ?case by (cases y) auto
qed

definition bar :: uchar where "bar = 124"

lemma lit_bar [simp]: "lit ''|'' = [bar]"
  by (simp add: lit_def bar_def)

lemma show_int_bar [simp]: "bar \<notin> set (show_int t)"
  by (auto simp: show_int_def bar_def dest: show_nat_digits)

lemma count_signed_message:
  "count_list (signed_message th m p t n b) bar = 5 + count_list th bar + count_list m bar + count_list p bar
     + count_list n bar + count_list b bar"
  by (simp add: signed_message_def)

lemma show_int_inj: "show_int a = show_int b \<longleftrightarrow> a = b"
proof
  assume e: "show_int a = show_int b"
  have "show_nat n \<noteq> 45 # cs" for n cs
    using show_nat_digits [of 45 n] by (cases "show_nat n") auto
  then show "a = b" using e
    by (auto simp: show_int_def show_nat_inj dest: sym [of "45 # _"] split: if_splits)
qed simp

lemma signed_message_inj:
  assumes eq: "signed_message th m p t n b = signed_message th' m' p' t' n' b'"
    and clean: "bar \<notin> set th" "bar \<notin> set m" "bar \<notin> set p" "bar \<notin> set n" "bar \<notin> set b"
  shows "th = th' \<and> m = m' \<and> p = p' \<and> t = t' \<and> n = n' \<and> b = b'"
proof -
  have "count_list th' bar + count_list m' bar + count_list p' bar + count_list n' bar + count_list b' bar = 0"
    using arg_cong [OF eq, of "\<lambda>x. count_list x bar"] clean
    by (simp add: count_signed_message count_list_0_iff)
  then have clean': "bar \<notin> set th'" "bar \<notin> set m'" "bar \<notin> set p'" "bar \<notin> set n'" "bar \<notin> set b'"
    by (simp_all add: count_list_0_iff)
  note eq = eq [unfolded signed_message_def lit_bar append_Cons append_Nil]
  note e1 = split_at_bar [OF eq clean(1) clean'(1)]
  note e2 = split_at_bar [OF conjunct2 [OF e1] clean(2) clean'(2)]
  note e3 = split_at_bar [OF conjunct2 [OF e2] clean(3) clean'(3)]
  note e4 = split_at_bar [OF conjunct2 [OF e3] show_int_bar show_int_bar]
  note e5 = split_at_bar [OF conjunct2 [OF e4] clean(4) clean'(4)]
  show ?thesis using e1 e2 e3 e4 e5 by (simp add: show_int_inj)
qed

lemma hex_digit_inj: "a < 16 \<Longrightarrow> b < 16 \<Longrightarrow> hex_digit a = hex_digit b \<longleftrightarrow> a = b"
  by (auto simp: hex_digit_def split: if_splits)

lemma hex_bytes_inj:
  "\<forall>x \<in> set xs. x < 256 \<Longrightarrow> \<forall>y \<in> set ys. y < 256 \<Longrightarrow> hex_bytes xs = hex_bytes ys \<Longrightarrow> xs = ys"
proof (induction xs arbitrary: ys)
  case Nil
  then show ?case by (cases ys) (auto simp: hex_bytes_def)
next
  case (Cons x xs)
  then obtain y zs where ys: "ys = y # zs" by (cases ys) (auto simp: hex_bytes_def)
  have "x div 16 = y div 16" "x mod 16 = y mod 16" "hex_bytes xs = hex_bytes zs"
    using Cons.prems by (auto simp: ys hex_bytes_def hex_digit_inj)
  then have "x = y" by (metis div_mult_mod_eq)
  then show ?case using Cons.IH [of zs] Cons.prems \<open>hex_bytes xs = hex_bytes zs\<close> by (simp add: ys)
qed

lemma hex_bytes_ascii: "c \<in> set (hex_bytes xs) \<Longrightarrow> c < 128"
  by (auto simp: hex_bytes_def hex_digit_def)

section \<open>The nonce cache\<close>

text \<open>The cache between two moments of one process: other requests, in the order of their locks.\<close>

inductive nonce_history :: "i64 \<times> nonce_cache \<Rightarrow> i64 \<times> nonce_cache \<Rightarrow> bool" where
  idle: "nonce_history x x"
| request: "nonce_history x (now, cache) \<Longrightarrow> now \<le> now' \<Longrightarrow>
     nonce_history x (now', snd (admit_nonce now' c cache))"

inductive_cases admitE: "nonce_history (now, cache) (now', cache')"

lemma admit_nonce_keeps:
  assumes "(k, e) \<in> set cache" "now \<le> e"
  shows "(k, e) \<in> set (snd (admit_nonce now c cache))"
  using assms by (auto simp: admit_nonce_def prune_stale_nonces_def Let_def)

lemma nonce_history_keeps:
  assumes "nonce_history x y" "(k, e) \<in> set (snd x)" "fst y \<le> e"
  shows "(k, e) \<in> set (snd y)"
  using assms
proof (induction rule: nonce_history.induct)
  case (request x now cache now' c)
  then show ?case using admit_nonce_keeps [of k e cache now' c] by simp
qed simp

lemma admit_nonce_rejects:
  "(sc_nonce_key c, e) \<in> set cache \<Longrightarrow> now \<le> e \<Longrightarrow> fst (admit_nonce now c cache) = Inl unauthorized"
  by (force simp: admit_nonce_def prune_stale_nonces_def Let_def image_iff)

lemma admit_nonce_Inr:
  assumes "admit_nonce now c cache = (Inr u, cache')"
  shows "(sc_nonce_key c, sc_expiry c) \<in> set cache' \<and> (\<forall>e \<ge> now. (sc_nonce_key c, e) \<notin> set cache)"
  using assms by (auto simp: admit_nonce_def prune_stale_nonces_def Let_def image_iff split: if_splits)

lemma check_claim_Inr:
  assumes "check_claim a m p h who now = Inr c"
  shows "\<exists>raw nonce sig body_hash. header_value h TIMESTAMP_HEADER 401 Unauthorized = Inr raw
    \<and> header_value h NONCE_HEADER 401 Unauthorized = Inr nonce
    \<and> header_value h SIGNATURE_HEADER 401 Unauthorized = Inr sig
    \<and> body_hash = (case header_text h BODY_HASH_HEADER of Some v \<Rightarrow> trim v | None \<Rightarrow> [])
    \<and> (requires_body_signature p \<longrightarrow> body_hash \<noteq> [])
    \<and> parse_i64 raw = Some (sc_timestamp c) \<and> \<bar>now - sc_timestamp c\<bar> \<le> 300
    \<and> sc_expiry c = sc_timestamp c + 300 \<and> sc_nonce_key c = di_node_id who @ lit ''::'' @ nonce
    \<and> secure_eq (compute_daemon_signature a (di_token_hash who) m p (sc_timestamp c) nonce body_hash) sig"
  using assms
  by (auto simp: check_claim_def and_then_Inr parse_timestamp_def checked_def unauthorized_def ok_or_Inr map_err_Inr
      verify_daemon_signature_def DAEMON_SIGNATURE_TTL_SECONDS_def Let_def bind_eq_Some_conv split: if_splits)

lemma on_world_Inr:
  "on_world m s = (Inr x, s') \<longleftrightarrow> (\<exists>w. m (as_world s) = (Inr x, w) \<and> s' = s\<lparr>as_world := w\<rparr>)"
  by (auto simp: on_world_def split: prod.splits)

lemma on_nonces_Inr:
  "on_nonces m s = (Inr x, s') \<longleftrightarrow> (\<exists>c. m (as_nonces s) = (Inr x, c) \<and> s' = s\<lparr>as_nonces := c\<rparr>)"
  by (auto simp: on_nonces_def split: prod.splits)

lemma resolve_node_ok:
  assumes "resolve_daemon_node_identity a authz w = (Inr who, w')"
  shows "\<exists>token row. authorization_token authz = Some token \<and> row \<in> set (daemon_nodes (db w))
    \<and> dn_token_hash row = hash_value a token \<and> dn_revoked row = 0 \<and> dn_status row \<noteq> STATUS_REVOKED
    \<and> parse_uuid (env w) (dn_id row) = Inr (di_node_id who) \<and> di_token_hash who = dn_token_hash row
    \<and> w' = tick_world w"
proof -
  obtain token row where t: "authorization_token authz = Some token"
    "find (\<lambda>n. dn_token_hash n = hash_value a token \<and> dn_revoked n = 0 \<and> dn_status n \<noteq> STATUS_REVOKED)
       (daemon_nodes (db w)) = Some row"
    "parse_uuid (env w) (dn_id row) = Inr (di_node_id who)" "di_token_hash who = dn_token_hash row"
    "w' = tick_world w"
    using assms
    by (auto simp: resolve_daemon_node_identity_def op_results stmt_results query_stmt_def and_then_Inr)
  then show ?thesis using find_SomeD [OF t(2)] by blast
qed

lemma header_value_Inr:
  "header_value h key st e = Inr v \<longleftrightarrow> (\<exists>raw. header_text h key = Some raw \<and> trim raw = v \<and> v \<noteq> [])"
  by (auto simp: header_value_def split: option.splits if_splits)

lemma trim_subset: "set (trim v) \<subseteq> set v"
proof -
  have "set (dropWhile p xs) \<subseteq> set xs" for p and xs :: str by (auto dest: set_dropWhileD)
  then have "set (dropWhile is_whitespace (rev (dropWhile is_whitespace v))) \<subseteq> set v"
    by (metis set_rev subset_trans)
  then show ?thesis by (simp add: trim_def trim_start_def trim_end_def)
qed

lemma signature_is_exact:
  assumes "secure_eq (compute_daemon_signature a th m p t n b) sig" "\<forall>c \<in> set sig. c < 128"
  shows "sig = compute_daemon_signature a th m p t n b"
proof -
  have "\<forall>c \<in> set sig. scalar c" using assms(2) by (auto simp: scalar_def)
  then show ?thesis
    using assms(1) hex_bytes_ascii by (subst (asm) secure_eq_ascii) (auto simp: compute_daemon_signature_def)
qed

text \<open>A signature fixes what was signed, as long as nobody finds another text with the same digest.\<close>

lemma signature_determines:
  assumes digest: "\<forall>m. \<forall>b \<in> set (sha256 a m). b < 256"
    and same: "compute_daemon_signature a th m p t n b = compute_daemon_signature a th' m' p' t' n' b'"
    and bars: "bar \<notin> set (th' @ m' @ p' @ n' @ b')"
    and collision_free: "\<forall>msg. sha256 a (signed_message th' m' p' t' n' b') = sha256 a msg
      \<longrightarrow> signed_message th' m' p' t' n' b' = msg"
  shows "th' = th \<and> m' = m \<and> p' = p \<and> t' = t \<and> n' = n \<and> b' = b"
proof -
  have "sha256 a (signed_message th' m' p' t' n' b') = sha256 a (signed_message th m p t n b)"
    by (rule hex_bytes_inj) (use digest same in \<open>auto simp: compute_daemon_signature_def\<close>)
  then have "signed_message th' m' p' t' n' b' = signed_message th m p t n b" using collision_free by blast
  then show ?thesis by (rule signed_message_inj) (use bars in auto)
qed


definition bytes_crypto :: auth_env where
  "bytes_crypto = plain_crypto\<lparr>sha256 := map (\<lambda>c. c mod 256)\<rparr>"

definition sample_node :: daemon_node_row where
  "sample_node = \<lparr>dn_id = [1], dn_host_user_id = Some [2], dn_label = None, dn_hostname = None,
     dn_public_key = None, dn_token_hash = hex_bytes [107], dn_status = STATUS_ACTIVE, dn_revoked = 0,
     dn_disabled = 0, dn_last_seen_at = None, dn_provider_family = None, dn_model_ids_json = lit ''[]'',
     dn_max_concurrency = None, dn_pricing_metadata_json = None, dn_region = None, dn_labels_json = lit ''[]'',
     dn_health_status = None, dn_capability_metadata_json = None, dn_created_at = [48], dn_updated_at = [48]\<rparr>"

definition node_state :: app_state where
  "node_state = \<lparr>as_world = calm_world (empty_database\<lparr>daemon_nodes := [sample_node]\<rparr>), as_nonces = []\<rparr>"

definition sample_signature :: str where
  "sample_signature = compute_daemon_signature bytes_crypto (hex_bytes [107]) (lit ''GET'') (lit ''/daemon/ping'')
     1700000000 (lit ''n'') []"

definition signed_headers :: headers where
  "signed_headers n =
     (if n = lit ''authorization'' then Some (Some (lit ''Bearer k''))
      else if n = lit TIMESTAMP_HEADER then Some (Some (lit ''1700000000''))
      else if n = lit NONCE_HEADER then Some (Some (lit ''n''))
      else if n = lit SIGNATURE_HEADER then Some (Some sample_signature) else None)"

definition signed_ping :: "unit daemon_request" where
  "signed_ping = \<lparr>dq_method = lit ''GET'', dq_path = lit ''/daemon/ping'', dq_headers = signed_headers, dq_body = ()\<rparr>"

lemma signed_header_texts:
  "header_text signed_headers ''authorization'' = Some (lit ''Bearer k'')"
  "header_text signed_headers TIMESTAMP_HEADER = Some (lit ''1700000000'')"
  "header_text signed_headers NONCE_HEADER = Some (lit ''n'')"
  "header_text signed_headers SIGNATURE_HEADER = Some sample_signature"
  "header_text signed_headers BODY_HASH_HEADER = None"
  by (simp_all add: header_text_def signed_headers_def TIMESTAMP_HEADER_def NONCE_HEADER_def SIGNATURE_HEADER_def
      BODY_HASH_HEADER_def lit_def)

lemma hex_not_space: "c \<in> set (hex_bytes xs) \<Longrightarrow> \<not> is_whitespace c"
proof -
  assume "c \<in> set (hex_bytes xs)"
  then obtain d where "c = hex_digit (d mod 16)" by (auto simp: hex_bytes_def)
  moreover have "d mod 16 < 16" by simp
  ultimately have "48 \<le> c \<and> c \<le> 102" by (simp add: hex_digit_def split: if_splits)
  then show ?thesis by (auto simp: is_whitespace_def)
qed

lemma ping_claim:
  "check_claim bytes_crypto (lit ''GET'') (lit ''/daemon/ping'') signed_headers
     \<lparr>di_node_id = [1], di_status = st, di_token_hash = hex_bytes [107]\<rparr> 1700000101
   = Inr \<lparr>sc_timestamp = 1700000000, sc_expiry = 1700000300, sc_nonce_key = [1] @ lit ''::'' @ lit ''n''\<rparr>"
proof -
  have t: "trim (lit ''1700000000'') = lit ''1700000000''" "trim (lit ''n'') = lit ''n''"
    "trim sample_signature = sample_signature" "sample_signature \<noteq> []"
    by (rule trim_clean, simp add: lit_def is_whitespace_def,
        rule trim_clean, simp add: lit_def is_whitespace_def,
        rule trim_clean, use hex_not_space in \<open>force simp: sample_signature_def compute_daemon_signature_def\<close>,
        simp add: sample_signature_def compute_daemon_signature_def hex_bytes_def bytes_crypto_def signed_message_def)
  have p: "parse_i64 (lit ''1700000000'') = Some 1700000000"
    by (simp add: parse_i64_def parse_nat_def lit_def in_i64_def)
  have q: "\<not> requires_body_signature (lit ''/daemon/ping'')" "lit ''n'' \<noteq> []" "lit ''1700000000'' \<noteq> []"
    by (simp_all add: requires_body_signature_def lit_def starts_with_def ends_with_def)
  show ?thesis
    using t q by (simp add: check_claim_def header_value_def signed_header_texts parse_timestamp_def p checked_def in_i64_def
        DAEMON_SIGNATURE_TTL_SECONDS_def verify_daemon_signature_def secure_eq_bytes
        sample_signature_def [symmetric])
qed

lemma node_statuses [simp]:
  "STATUS_ACTIVE \<noteq> STATUS_REVOKED" "STATUS_PENDING \<noteq> STATUS_REVOKED" "STATUS_REVOKED \<noteq> STATUS_ACTIVE"
  "STATUS_PENDING \<noteq> STATUS_ACTIVE" "STATUS_REVOKED \<noteq> STATUS_PENDING" "STATUS_ACTIVE \<noteq> STATUS_PENDING"
  by (simp_all add: STATUS_ACTIVE_def STATUS_REVOKED_def STATUS_PENDING_def lit_def)

lemma ping_accepted:
  "daemon_node_auth bytes_crypto signed_ping (\<lambda>who _. ret (di_node_id who)) node_state
     = (Inr [1], \<lparr>as_world = tick_world (tick_world (as_world node_state)),
                  as_nonces = [([1] @ lit ''::'' @ lit ''n'', 1700000300)]\<rparr>)"
proof -
  have r: "resolve_daemon_node_identity bytes_crypto (lit ''Bearer k'') (as_world node_state)
      = (Inr \<lparr>di_node_id = [1], di_status = STATUS_ACTIVE, di_token_hash = hex_bytes [107]\<rparr>,
         tick_world (as_world node_state))"
    by (simp add: resolve_daemon_node_identity_def token_k node_state_def sample_node_def run_simps hash_value_def
        bytes_crypto_def calm_world_def calm_def tick_world_def)
  have c: "clock (env (tick_world (as_world node_state))) (tick (tick_world (as_world node_state))) = 1700000101"
    by (simp add: node_state_def calm_world_def calm_def)
  show ?thesis
    using r c ping_claim [of STATUS_ACTIVE]
    by (simp add: daemon_node_auth_def validate_daemon_request_signature_def signed_ping_def signed_header_texts
        bind_op_def on_world_def on_nonces_def of_result_def ret_def now_utc_epoch_seconds_def admit_nonce_def
        NONCE_CACHE_PRUNE_THRESHOLD_def node_state_def)
qed


lemma check_claim_Inl: "check_claim a m p h who now = Inl e \<Longrightarrow> fst e = 401"
  by (auto simp: map_err_Inl check_claim_def and_then_Inl header_value_def parse_timestamp_def unauthorized_def map_error_def
      Let_def split: if_splits option.splits sum.splits)

lemma validate_Inr:
  assumes "validate_daemon_request_signature a m p h who s = (Inr u, s')"
  shows "\<exists>c. check_claim a m p h who (int (clock (env (as_world s)) (tick (as_world s)))) = Inr c
    \<and> admit_nonce (int (clock (env (as_world s)) (tick (as_world s)))) c (as_nonces s) = (Inr u, as_nonces s')"
  using assms
  by (auto simp: validate_daemon_request_signature_def bind_Inr on_world_Inr on_nonces_Inr)


text \<open>The clock is read before the lock is taken, and that order matters: when another request
  with a later clock prunes the full cache in between, the very same request is let in a second
  time at the last second of its life.\<close>

theorem late_lock_readmits_a_replay:
  assumes "sc_expiry c = now" "now < now'" "NONCE_CACHE_PRUNE_THRESHOLD \<le> length cache"
    "\<forall>(k, e) \<in> set cache. now \<le> e \<and> k \<noteq> sc_nonce_key c" "sc_nonce_key d \<noteq> sc_nonce_key c"
  shows "fst (admit_nonce now c cache) = Inr ()
    \<and> fst (admit_nonce now c (snd (admit_nonce now' d (snd (admit_nonce now c cache))))) = Inr ()"
proof -
  have "prune_stale_nonces now cache = cache"
    using assms(4) by (auto simp: prune_stale_nonces_def filter_id_conv)
  moreover have "sc_nonce_key c \<notin> fst ` set cache" using assms(4) by auto
  ultimately have a: "admit_nonce now c cache = (Inr (), (sc_nonce_key c, now) # cache)"
    using assms(1) by (simp add: admit_nonce_def)
  let ?c2 = "snd (admit_nonce now' d ((sc_nonce_key c, now) # cache))"
  have "sc_nonce_key c \<notin> fst ` set ?c2"
    using assms by (auto simp: admit_nonce_def prune_stale_nonces_def Let_def)
  then have "fst (admit_nonce now c ?c2) = Inr ()"
    by (auto simp: admit_nonce_def prune_stale_nonces_def Let_def)
  then show ?thesis by (simp add: a)
qed


theorem late_lock_readmits_a_replay_witness:
  "fst (admit_nonce 1000 \<lparr>sc_timestamp = 700, sc_expiry = 1000, sc_nonce_key = [0]\<rparr>
     (snd (admit_nonce 1001 \<lparr>sc_timestamp = 1000, sc_expiry = 1300, sc_nonce_key = [1]\<rparr>
       (snd (admit_nonce 1000 \<lparr>sc_timestamp = 700, sc_expiry = 1000, sc_nonce_key = [0]\<rparr>
          (map (\<lambda>n. ([2, n], 1250)) [0..<256])))))) = Inr ()"
  by (rule conjunct2, rule late_lock_readmits_a_replay) (auto simp: NONCE_CACHE_PRUNE_THRESHOLD_def)

end
