(* ===== verification/Daemon_Nodes.thy ===== *)
theory Daemon_Nodes
  imports Daemon_Auth
begin

text \<open>
  The registry of daemon nodes (crates/mizan-api/src/daemon_nodes.rs): creation and revocation by an
  administrator, registration, heartbeat and ping by the node itself, the normalisation of the
  capabilities a node reports, and the choice of a node for a model. The JSON text of the stored
  lists and values is written and read by the \<open>json_codec\<close> of the outside.
\<close>

section \<open>Data\<close>

record json_codec =
  encode_json :: "json \<Rightarrow> str + str"
  decode_json :: "str \<Rightarrow> str + json"
  decode_strings :: "str \<Rightarrow> str + str list"

text \<open>Documented behaviour of \<open>serde_json\<close>: what it wrote is read back.\<close>

definition strings_ok :: "json_codec \<Rightarrow> bool" where
  "strings_ok k \<longleftrightarrow> (\<forall>xs s. encode_json k (JArray (map JString xs)) = Inr s \<longrightarrow> decode_strings k s = Inr xs)"

definition DAEMON_TOKEN_PREFIX :: str where "DAEMON_TOKEN_PREFIX = lit ''mizan_sk_daemon_''"
definition HEALTH_STATUS_HEALTHY :: str where "HEALTH_STATUS_HEALTHY = lit ''healthy''"

record node_create_request =
  nc_host_user_id :: "uuid option"
  nc_label :: "str option"
  nc_hostname :: "str option"
  nc_public_key :: "str option"

record node_create_response =
  nr_id :: uuid
  nr_token :: str
  nr_status :: str
  nr_host_user_id :: "uuid option"
  nr_label :: "str option"
  nr_hostname :: "str option"
  nr_public_key :: "str option"
  nr_created_at :: str

record capability_payload =
  cp_provider_family :: str
  cp_model_ids :: "str list"
  cp_max_concurrency :: u32
  cp_pricing_metadata :: "json option"
  cp_region :: "str option"
  cp_labels :: "str list"
  cp_health_status :: "str option"
  cp_metadata :: "json option"

record normalized_capabilities =
  nz_provider_family :: str
  nz_model_ids :: "str list"
  nz_max_concurrency :: u32
  nz_pricing_metadata :: "json option"
  nz_region :: "str option"
  nz_labels :: "str list"
  nz_health_status :: str
  nz_metadata :: "json option"

record capability_response =
  cr_provider_family :: "str option"
  cr_model_ids :: "str list"
  cr_max_concurrency :: "u32 option"
  cr_pricing_metadata :: "json option"
  cr_region :: "str option"
  cr_labels :: "str list"
  cr_health_status :: "str option"
  cr_metadata :: "json option"

record registration_request =
  rg_hostname :: "str option"
  rg_public_key :: "str option"
  rg_capabilities :: "capability_payload option"

record heartbeat_request =
  hb_hostname :: "str option"
  hb_public_key :: "str option"
  hb_capabilities :: capability_payload

record node_seen_response =
  ns_node_id :: uuid
  ns_status :: str
  ns_last_seen_at :: str
  ns_capabilities :: capability_response

record ping_response =
  pg_node_id :: uuid
  pg_status :: str
  pg_last_seen_at :: str

record node_response =
  nd_id :: uuid
  nd_host_user_id :: "uuid option"
  nd_label :: "str option"
  nd_hostname :: "str option"
  nd_public_key :: "str option"
  nd_status :: str
  nd_revoked :: bool
  nd_disabled :: bool
  nd_last_seen_at :: "str option"
  nd_capabilities :: capability_response
  nd_created_at :: str
  nd_updated_at :: str

record eligible_node =
  en_id :: uuid
  en_provider_family :: str
  en_model_id :: str
  en_max_concurrency :: u32
  en_last_seen_at :: str

section \<open>Normalisation\<close>

definition normalize_optional :: "str option \<Rightarrow> str option" where
  "normalize_optional v = (case map_option trim v of
      None \<Rightarrow> None | Some t \<Rightarrow> if t = [] then None else Some t)"

text \<open>The loop over the values, with what it has collected so far.\<close>

fun normalize_loop :: "str list \<Rightarrow> str list \<Rightarrow> str list" where
  "normalize_loop normalized [] = normalized"
| "normalize_loop normalized (v # vs) = (let value = trim v in
     if value = [] \<or> value \<in> set normalized then normalize_loop normalized vs
     else normalize_loop (normalized @ [value]) vs)"

definition normalize_string_list :: "str list \<Rightarrow> str list" where
  "normalize_string_list values = normalize_loop [] values"

definition normalize_capabilities :: "capability_payload \<Rightarrow> app_error + normalized_capabilities" where
  "normalize_capabilities p =
     (let provider_family = to_ascii_lowercase (trim (cp_provider_family p));
          model_ids = normalize_string_list (cp_model_ids p) in
      if provider_family = [] then
        Inl (InvalidConfig (lit ''daemon_capabilities.provider_family'') (lit ''provider_family is required''))
      else if model_ids = [] then
        Inl (InvalidConfig (lit ''daemon_capabilities.model_ids'') (lit ''at least one model id is required''))
      else if cp_max_concurrency p = 0 then
        Inl (InvalidConfig (lit ''daemon_capabilities.max_concurrency'') (lit ''must be greater than zero''))
      else Inr \<lparr>nz_provider_family = provider_family, nz_model_ids = model_ids,
        nz_max_concurrency = cp_max_concurrency p, nz_pricing_metadata = cp_pricing_metadata p,
        nz_region = normalize_optional (cp_region p), nz_labels = normalize_string_list (cp_labels p),
        nz_health_status = to_ascii_lowercase (case normalize_optional (cp_health_status p) of
            Some h \<Rightarrow> h | None \<Rightarrow> HEALTH_STATUS_HEALTHY),
        nz_metadata = cp_metadata p\<rparr>)"

definition normalized_capability_response :: "normalized_capabilities \<Rightarrow> capability_response" where
  "normalized_capability_response v =
     \<lparr>cr_provider_family = Some (nz_provider_family v), cr_model_ids = nz_model_ids v,
      cr_max_concurrency = Some (nz_max_concurrency v), cr_pricing_metadata = nz_pricing_metadata v,
      cr_region = nz_region v, cr_labels = nz_labels v, cr_health_status = Some (nz_health_status v),
      cr_metadata = nz_metadata v\<rparr>"

definition default_capability_response :: capability_response where
  "default_capability_response =
     \<lparr>cr_provider_family = None, cr_model_ids = [], cr_max_concurrency = None, cr_pricing_metadata = None,
      cr_region = None, cr_labels = [], cr_health_status = None, cr_metadata = None\<rparr>"

section \<open>Stored values\<close>

definition serialize_json :: "json_codec \<Rightarrow> json \<Rightarrow> app_error + str" where
  "serialize_json k v = map_err (infra ''json serialization failed: '') (encode_json k v)"

definition transpose_opt :: "('a \<Rightarrow> 'e + 'b) \<Rightarrow> 'a option \<Rightarrow> 'e + 'b option" where
  "transpose_opt f v = (case v of None \<Rightarrow> Inr None | Some a \<Rightarrow> and_then (f a) (\<lambda>b. Inr (Some b)))"

definition serialize_optional_json :: "json_codec \<Rightarrow> json option \<Rightarrow> app_error + str option" where
  "serialize_optional_json k v = transpose_opt (serialize_json k) v"

definition parse_json_vec :: "json_codec \<Rightarrow> str \<Rightarrow> string \<Rightarrow> app_error + str list" where
  "parse_json_vec k raw field = map_err (\<lambda>e. Infrastructure (lit field @ lit '' is invalid: '' @ e)) (decode_strings k raw)"

definition parse_optional_json_value :: "json_codec \<Rightarrow> str option \<Rightarrow> string \<Rightarrow> app_error + json option" where
  "parse_optional_json_value k raw field =
     transpose_opt (\<lambda>v. map_err (\<lambda>e. Infrastructure (lit field @ lit '' is invalid: '' @ e)) (decode_json k v)) raw"

text \<open>\<open>u32::try_from\<close> of a stored \<open>i32\<close>, and back.\<close>

definition u32_try_from :: "i64 \<Rightarrow> u32 option" where
  "u32_try_from v = (if v < 0 then None else Some (word_of_int v))"

definition i32_try_from_u32 :: "u32 \<Rightarrow> i64 option" where
  "i32_try_from_u32 v = (if uint v < 2 ^ 31 then Some (uint v) else None)"

definition stored_max_concurrency :: "i64 \<Rightarrow> app_error + u32" where
  "stored_max_concurrency v = ok_or (Infrastructure (lit ''stored daemon max_concurrency is invalid'')) (u32_try_from v)"

definition daemon_capability_response :: "json_codec \<Rightarrow> daemon_node_row \<Rightarrow> app_error + capability_response" where
  "daemon_capability_response k row =
     and_then (transpose_opt stored_max_concurrency (dn_max_concurrency row)) (\<lambda>max_concurrency.
     and_then (parse_json_vec k (dn_model_ids_json row) ''daemon_node.model_ids_json'') (\<lambda>model_ids.
     and_then (parse_optional_json_value k (dn_pricing_metadata_json row) ''daemon_node.pricing_metadata_json'') (\<lambda>pricing.
     and_then (parse_json_vec k (dn_labels_json row) ''daemon_node.labels_json'') (\<lambda>labels.
     and_then (parse_optional_json_value k (dn_capability_metadata_json row) ''daemon_node.capability_metadata_json'') (\<lambda>metadata.
     Inr \<lparr>cr_provider_family = dn_provider_family row, cr_model_ids = model_ids, cr_max_concurrency = max_concurrency,
       cr_pricing_metadata = pricing, cr_region = dn_region row, cr_labels = labels,
       cr_health_status = dn_health_status row, cr_metadata = metadata\<rparr>)))))"

definition daemon_node_response :: "json_codec \<Rightarrow> outside \<Rightarrow> daemon_node_row \<Rightarrow> app_error + node_response" where
  "daemon_node_response k out row =
     and_then (map_err (infra ''invalid daemon node id: '') (parse_uuid out (dn_id row))) (\<lambda>id.
     and_then (daemon_capability_response k row) (\<lambda>capabilities.
     and_then (map_err (infra ''invalid daemon node host user id: '')
        (transpose_opt (parse_uuid out) (dn_host_user_id row))) (\<lambda>host_user_id.
     Inr \<lparr>nd_id = id, nd_host_user_id = host_user_id, nd_label = dn_label row, nd_hostname = dn_hostname row,
       nd_public_key = dn_public_key row, nd_status = dn_status row, nd_revoked = is_enabled (dn_revoked row),
       nd_disabled = is_enabled (dn_disabled row), nd_last_seen_at = dn_last_seen_at row,
       nd_capabilities = capabilities, nd_created_at = dn_created_at row, nd_updated_at = dn_updated_at row\<rparr>)))"

section \<open>Statements\<close>

definition insert_node :: "daemon_node_row \<Rightarrow> unit stmt" where
  "insert_node row d =
     (if dn_id row \<in> dn_id ` set (daemon_nodes d) \<or> dn_token_hash row \<in> dn_token_hash ` set (daemon_nodes d)
      then None else Some (d\<lparr>daemon_nodes := daemon_nodes d @ [row]\<rparr>, ()))"

definition update_nodes :: "(daemon_node_row \<Rightarrow> bool) \<Rightarrow> (daemon_node_row \<Rightarrow> daemon_node_row) \<Rightarrow> nat stmt" where
  "update_nodes p f d = Some (d\<lparr>daemon_nodes := fst (update_rows p f (daemon_nodes d))\<rparr>,
     snd (update_rows p f (daemon_nodes d)))"

definition coalesce :: "'a option \<Rightarrow> 'a option \<Rightarrow> 'a option" where
  "coalesce a b = (case a of None \<Rightarrow> b | Some _ \<Rightarrow> a)"

definition seen_row :: "str \<Rightarrow> str option \<Rightarrow> str option \<Rightarrow> daemon_node_row \<Rightarrow> daemon_node_row" where
  "seen_row now hostname public_key n = n\<lparr>dn_status := STATUS_ACTIVE, dn_last_seen_at := Some now,
     dn_hostname := coalesce hostname (dn_hostname n), dn_public_key := coalesce public_key (dn_public_key n),
     dn_updated_at := now\<rparr>"

definition may_be_seen :: "uuid \<Rightarrow> daemon_node_row \<Rightarrow> bool" where
  "may_be_seen node_id n \<longleftrightarrow> dn_id n = node_id \<and> dn_revoked n = 0 \<and> dn_status n \<noteq> STATUS_REVOKED"

definition revoke_row :: "str \<Rightarrow> daemon_node_row \<Rightarrow> daemon_node_row" where
  "revoke_row now n = n\<lparr>dn_status := STATUS_REVOKED, dn_revoked := 1, dn_updated_at := now\<rparr>"

section \<open>Operations\<close>

text \<open>What the outside answers, for the errors and parsers that need it.\<close>

definition ask_outside :: "world \<Rightarrow> ('e + outside) \<times> world" where
  "ask_outside w = (Inr (env w), w)"

lemma keeps_ask [keeps_intros]: "keeps P ask_outside"
  by (simp add: keeps_def ask_outside_def)

lemma ask_run [simp]: "ask_outside w = (r, w') \<longleftrightarrow> r = Inr (env w) \<and> w' = w"
  by (auto simp: ask_outside_def)

definition ensure_user_exists :: "uuid \<Rightarrow> unit op" where
  "ensure_user_exists user_id =
     bind_op (err_op Infrastructure (exec (query_stmt (\<lambda>d. find (\<lambda>u. u_id u = user_id) (users d))))) (\<lambda>found.
     if found = None then throw (InvalidConfig (lit ''daemon_node.host_user_id'') (lit ''host_user_id does not exist''))
     else ret ())"

definition map_insert_error :: "outside \<Rightarrow> str \<Rightarrow> app_error" where
  "map_insert_error out e =
     (if is_unique_constraint_error out e
      then InvalidConfig (lit ''daemon_node.token'') (lit ''daemon node token must be unique'')
      else Infrastructure e)"

definition create_daemon_node ::
  "auth_env \<Rightarrow> api_key_identity \<Rightarrow> node_create_request \<Rightarrow> node_create_response handler" where
  "create_daemon_node a who payload =
     (let host_user_id = (case nc_host_user_id payload of Some u \<Rightarrow> u | None \<Rightarrow> id_user_id who);
          label = normalize_optional (nc_label payload);
          hostname = normalize_optional (nc_hostname payload);
          public_key = normalize_optional (nc_public_key payload) in
      bind_op (err_op from_app_error (ensure_user_exists host_user_id)) (\<lambda>_.
      bind_op ask_outside (\<lambda>out.
      bind_op uuid_now_v7 (\<lambda>id.
      bind_op uuid_now_v7 (\<lambda>secret.
      bind_op unix_timestamp_string (\<lambda>now.
      bind_op (err_op (\<lambda>e. from_app_error (map_insert_error out e)) (exec (insert_node
        \<lparr>dn_id = id, dn_host_user_id = Some host_user_id, dn_label = label, dn_hostname = hostname,
         dn_public_key = public_key, dn_token_hash = hash_value a (DAEMON_TOKEN_PREFIX @ secret),
         dn_status = STATUS_PENDING, dn_revoked = 0, dn_disabled = 0, dn_last_seen_at = None,
         dn_provider_family = None, dn_model_ids_json = lit ''[]'', dn_max_concurrency = None,
         dn_pricing_metadata_json = None, dn_region = None, dn_labels_json = lit ''[]'',
         dn_health_status = None, dn_capability_metadata_json = None, dn_created_at = now, dn_updated_at = now\<rparr>)))
        (\<lambda>_.
      bind_op (err_op from_app_error (audit_or_warn (Some (id_user_id who)) ''daemon_node_created'' ''daemon_node'' (Some id)
         (JObject [(lit ''host_user_id'', JString host_user_id),
            (lit ''label'', (case label of None \<Rightarrow> JNull | Some v \<Rightarrow> JString v)),
            (lit ''hostname'', (case hostname of None \<Rightarrow> JNull | Some v \<Rightarrow> JString v)),
            (lit ''public_key_present'', JBool (public_key \<noteq> None)),
            (lit ''raw_secret_returned_once'', JBool True)]))) (\<lambda>_.
      ret \<lparr>nr_id = id, nr_token = DAEMON_TOKEN_PREFIX @ secret, nr_status = STATUS_PENDING,
           nr_host_user_id = Some host_user_id, nr_label = label, nr_hostname = hostname,
           nr_public_key = public_key, nr_created_at = now\<rparr>))))))))"

definition revoke_node :: "uuid \<Rightarrow> bool op" where
  "revoke_node node_id =
     bind_op unix_timestamp_string (\<lambda>now.
     bind_op (err_op Infrastructure (exec (update_nodes
       (\<lambda>n. dn_id n = node_id \<and> dn_revoked n = 0) (revoke_row now)))) (\<lambda>affected.
     ret (affected = 1)))"

definition revoke_daemon_node :: "api_key_identity \<Rightarrow> uuid \<Rightarrow> (uuid \<times> bool) handler" where
  "revoke_daemon_node who node_id =
     bind_op (err_op from_app_error (revoke_node node_id)) (\<lambda>revoked.
     if \<not> revoked then throw (map_error 404 (NotFound (lit ''daemon node not found'')))
     else bind_op (err_op from_app_error (audit_or_warn (Some (id_user_id who)) ''daemon_node_revoked'' ''daemon_node''
         (Some node_id) (JObject [(lit ''revoked'', JBool True)]))) (\<lambda>_.
       ret (node_id, revoked)))"

definition capability_row ::
  "json_codec \<Rightarrow> normalized_capabilities \<Rightarrow> app_error + (daemon_node_row \<Rightarrow> daemon_node_row)" where
  "capability_row k c =
     and_then (serialize_json k (JArray (map JString (nz_model_ids c)))) (\<lambda>model_ids.
     and_then (ok_or (InvalidConfig (lit ''daemon_capabilities.max_concurrency'')
        (lit ''max_concurrency exceeds database integer range'')) (i32_try_from_u32 (nz_max_concurrency c))) (\<lambda>max_concurrency.
     and_then (serialize_optional_json k (nz_pricing_metadata c)) (\<lambda>pricing.
     and_then (serialize_json k (JArray (map JString (nz_labels c)))) (\<lambda>labels.
     and_then (serialize_optional_json k (nz_metadata c)) (\<lambda>metadata.
     Inr (\<lambda>n. n\<lparr>dn_provider_family := Some (nz_provider_family c), dn_model_ids_json := model_ids,
       dn_max_concurrency := Some max_concurrency, dn_pricing_metadata_json := pricing, dn_region := nz_region c,
       dn_labels_json := labels, dn_health_status := Some (nz_health_status c),
       dn_capability_metadata_json := metadata\<rparr>))))))"

definition mark_node_seen ::
  "json_codec \<Rightarrow> uuid \<Rightarrow> str option \<Rightarrow> str option \<Rightarrow> normalized_capabilities option \<Rightarrow> str op" where
  "mark_node_seen k node_id hostname public_key capabilities =
     bind_op unix_timestamp_string (\<lambda>now.
     bind_op (case capabilities of
         Some c \<Rightarrow> bind_op (of_result (capability_row k c)) (\<lambda>f.
           err_op Infrastructure (exec (update_nodes (may_be_seen node_id) (\<lambda>n. f (seen_row now hostname public_key n)))))
       | None \<Rightarrow> err_op Infrastructure (exec (update_nodes (may_be_seen node_id) (seen_row now hostname public_key))))
       (\<lambda>affected.
     if affected \<noteq> 1 then throw Unauthorized else ret now))"

definition register_daemon_node ::
  "json_codec \<Rightarrow> daemon_identity \<Rightarrow> registration_request \<Rightarrow> node_seen_response handler" where
  "register_daemon_node k who payload =
     bind_op (of_result (map_err from_app_error (transpose_opt normalize_capabilities (rg_capabilities payload)))) (\<lambda>capabilities.
     bind_op (err_op from_app_error (mark_node_seen k (di_node_id who) (normalize_optional (rg_hostname payload))
       (normalize_optional (rg_public_key payload)) capabilities)) (\<lambda>last_seen_at.
     ret \<lparr>ns_node_id = di_node_id who, ns_status = STATUS_ACTIVE, ns_last_seen_at = last_seen_at,
          ns_capabilities = (case capabilities of Some c \<Rightarrow> normalized_capability_response c
            | None \<Rightarrow> default_capability_response)\<rparr>))"

definition daemon_heartbeat ::
  "json_codec \<Rightarrow> daemon_identity \<Rightarrow> heartbeat_request \<Rightarrow> node_seen_response handler" where
  "daemon_heartbeat k who payload =
     bind_op (of_result (map_err from_app_error (normalize_capabilities (hb_capabilities payload)))) (\<lambda>c.
     bind_op (err_op from_app_error (mark_node_seen k (di_node_id who) (normalize_optional (hb_hostname payload))
       (normalize_optional (hb_public_key payload)) (Some c))) (\<lambda>last_seen_at.
     ret \<lparr>ns_node_id = di_node_id who, ns_status = STATUS_ACTIVE, ns_last_seen_at = last_seen_at,
          ns_capabilities = normalized_capability_response c\<rparr>))"

definition daemon_ping :: "json_codec \<Rightarrow> daemon_identity \<Rightarrow> ping_response handler" where
  "daemon_ping k who =
     bind_op (err_op from_app_error (mark_node_seen k (di_node_id who) None None None)) (\<lambda>last_seen_at.
     ret \<lparr>pg_node_id = di_node_id who, pg_status = di_status who, pg_last_seen_at = last_seen_at\<rparr>)"

definition list_daemon_nodes :: "json_codec \<Rightarrow> node_response list handler" where
  "list_daemon_nodes k =
     bind_op (err_op (\<lambda>e. from_app_error (Infrastructure e))
       (exec (query_stmt (\<lambda>d. order_by_desc dn_created_at (daemon_nodes d))))) (\<lambda>rows w.
     (map_err from_app_error (collect_results (daemon_node_response k (env w)) rows), w))"

section \<open>Choosing a node\<close>

definition candidate :: "str \<Rightarrow> daemon_node_row \<Rightarrow> bool" where
  "candidate cutoff n \<longleftrightarrow> dn_status n = STATUS_ACTIVE \<and> dn_revoked n = 0 \<and> dn_disabled n = 0
     \<and> dn_health_status n = Some HEALTH_STATUS_HEALTHY \<and> dn_provider_family n \<noteq> None \<and> dn_max_concurrency n \<noteq> None
     \<and> (case dn_last_seen_at n of None \<Rightarrow> False | Some t \<Rightarrow> str_le cutoff t)"

definition last_seen :: "daemon_node_row \<Rightarrow> str" where
  "last_seen n = (case dn_last_seen_at n of Some t \<Rightarrow> t | None \<Rightarrow> [])"

definition candidate_rows :: "str \<Rightarrow> database \<Rightarrow> (str \<times> str \<times> str \<times> i64 \<times> str) list" where
  "candidate_rows cutoff d = map (\<lambda>n. (dn_id n,
       (case dn_provider_family n of Some p \<Rightarrow> p | None \<Rightarrow> []), dn_model_ids_json n,
       (case dn_max_concurrency n of Some m \<Rightarrow> m | None \<Rightarrow> 0), last_seen n))
     (order_by_desc last_seen (order_by dn_created_at (filter (candidate cutoff) (daemon_nodes d))))"

fun first_offering ::
  "json_codec \<Rightarrow> outside \<Rightarrow> str \<Rightarrow> (str \<times> str \<times> str \<times> i64 \<times> str) list \<Rightarrow> app_error + eligible_node option" where
  "first_offering k out model [] = Inr None"
| "first_offering k out model ((row_id, family, models, max_conc, seen) # rows) =
     and_then (parse_json_vec k models ''daemon_node.model_ids_json'') (\<lambda>model_ids.
     if model \<notin> set model_ids then first_offering k out model rows
     else and_then (stored_max_concurrency max_conc) (\<lambda>m.
       if m = 0 then first_offering k out model rows
       else and_then (map_err (infra ''stored daemon node id is invalid: '') (parse_uuid out row_id)) (\<lambda>node_id.
         Inr (Some \<lparr>en_id = node_id, en_provider_family = family, en_model_id = model,
           en_max_concurrency = m, en_last_seen_at = seen\<rparr>))))"

definition select_eligible_daemon_node :: "json_codec \<Rightarrow> str \<Rightarrow> i64 \<Rightarrow> eligible_node option op" where
  "select_eligible_daemon_node k model_id stale_after_seconds =
     (let model = trim model_id in
      if model = [] then ret None
      else bind_op now_utc_epoch_seconds (\<lambda>now.
        bind_op (err_op Infrastructure (exec (query_stmt (candidate_rows
          (show_int (i64_saturating_sub (int now) (max stale_after_seconds 1))))))) (\<lambda>rows w.
        (first_offering k (env w) model rows, w))))"

section \<open>The life of a node\<close>

text \<open>
  What the handlers may do to the table: add a pending node, revoke a live one, mark a live one as
  seen. A revoked row is never written again.
\<close>

inductive node_step :: "daemon_node_row list \<Rightarrow> daemon_node_row list \<Rightarrow> bool" where
  enrol: "dn_id n \<notin> dn_id ` set ns \<Longrightarrow> dn_token_hash n \<notin> dn_token_hash ` set ns \<Longrightarrow> dn_status n = STATUS_PENDING \<Longrightarrow>
     dn_revoked n = 0 \<Longrightarrow> node_step ns (ns @ [n])"
| revoke: "node_step ns (fst (update_rows (\<lambda>n. dn_id n = i \<and> dn_revoked n = 0) (revoke_row now) ns))"
| seen: "(\<And>n. dn_status (f n) = STATUS_ACTIVE) \<Longrightarrow> (\<And>n. dn_revoked (f n) = dn_revoked n) \<Longrightarrow>
     (\<And>n. dn_disabled (f n) = dn_disabled n) \<Longrightarrow> (\<And>n. dn_id (f n) = dn_id n) \<Longrightarrow>
     (\<And>n. dn_token_hash (f n) = dn_token_hash n) \<Longrightarrow> (\<And>n. dn_host_user_id (f n) = dn_host_user_id n) \<Longrightarrow>
     (\<And>n. dn_created_at (f n) = dn_created_at n) \<Longrightarrow>
     node_step ns (fst (update_rows (may_be_seen i) f ns))"

inductive_cases node_stepE: "node_step ns ns'"

definition node_wf :: "daemon_node_row \<Rightarrow> bool" where
  "node_wf n \<longleftrightarrow> (dn_revoked n \<noteq> 0 \<longleftrightarrow> dn_status n = STATUS_REVOKED)"

lemma node_step_shape:
  assumes "node_step ns ns'"
  shows "(\<exists>n. dn_id n \<notin> dn_id ` set ns \<and> dn_token_hash n \<notin> dn_token_hash ` set ns \<and> ns' = ns @ [n])
    \<or> (\<exists>f. ns' = map f ns \<and> (\<forall>n. dn_id (f n) = dn_id n \<and> dn_token_hash (f n) = dn_token_hash n
          \<and> (dn_revoked n \<noteq> 0 \<longrightarrow> f n = n)))"
  using assms
proof cases
  case (enrol n)
  then show ?thesis by blast
next
  case (revoke i now)
  show ?thesis
    by (rule disjI2, rule exI [of _ "\<lambda>n. if dn_id n = i \<and> dn_revoked n = 0 then revoke_row now n else n"])
      (simp add: revoke update_rows_def revoke_row_def)
next
  case (seen f i)
  show ?thesis
    by (rule disjI2, rule exI [of _ "\<lambda>n. if may_be_seen i n then f n else n"])
      (simp add: seen update_rows_def may_be_seen_def)
qed

definition frozen :: "daemon_node_row \<Rightarrow> daemon_node_row \<Rightarrow> bool" where
  "frozen a b \<longleftrightarrow> (dn_revoked a \<noteq> 0 \<longrightarrow> b = a)"

interpretation node_id: row_lifecycle dn_id "\<lambda>n. dn_revoked n \<noteq> 0" frozen node_step
proof (rule row_lifecycle_shape)
  fix ns ns' assume "node_step ns ns'"
  from node_step_shape [OF this]
  show "(\<exists>r. dn_id r \<notin> dn_id ` set ns \<and> ns' = ns @ [r])
      \<or> (\<exists>f. ns' = map f ns \<and> (\<forall>r. dn_id (f r) = dn_id r \<and> frozen r (f r)
            \<and> (dn_revoked r \<noteq> 0 \<longrightarrow> dn_revoked (f r) \<noteq> 0)))"
    by (auto simp: frozen_def)
qed (auto simp: frozen_def)

interpretation node_token: row_lifecycle dn_token_hash "\<lambda>n. dn_revoked n \<noteq> 0" frozen node_step
proof (rule row_lifecycle_shape)
  fix ns ns' assume "node_step ns ns'"
  from node_step_shape [OF this]
  show "(\<exists>r. dn_token_hash r \<notin> dn_token_hash ` set ns \<and> ns' = ns @ [r])
      \<or> (\<exists>f. ns' = map f ns \<and> (\<forall>r. dn_token_hash (f r) = dn_token_hash r \<and> frozen r (f r)
            \<and> (dn_revoked r \<noteq> 0 \<longrightarrow> dn_revoked (f r) \<noteq> 0)))"
    by (auto simp: frozen_def)
qed (auto simp: frozen_def)

lemma node_step_wf:
  assumes step: "node_step ns ns'" and wf: "\<forall>n \<in> set ns. node_wf n"
  shows "\<forall>n \<in> set ns'. node_wf n"
  using step
proof (cases rule: node_step.cases)
  case (enrol n)
  then show ?thesis using wf by (simp add: node_wf_def)
next
  case (revoke i now)
  have "node_wf (revoke_row now n)" for n by (simp add: node_wf_def revoke_row_def)
  then show ?thesis using wf by (auto simp: revoke set_update_rows)
next
  case (seen f i)
  have "node_wf (f n)" if "may_be_seen i n" for n
    using that seen(2,3) by (simp add: node_wf_def may_be_seen_def)
  then show ?thesis using wf by (auto simp: seen(1) set_update_rows)
qed

text \<open>Every handler moves the table by these steps, whatever it returns.\<close>

lemma seen_row_keeps:
  "capability_row k c = Inr f \<Longrightarrow> dn_status (f (seen_row now h p n)) = STATUS_ACTIVE
     \<and> dn_revoked (f (seen_row now h p n)) = dn_revoked n \<and> dn_disabled (f (seen_row now h p n)) = dn_disabled n
     \<and> dn_id (f (seen_row now h p n)) = dn_id n \<and> dn_token_hash (f (seen_row now h p n)) = dn_token_hash n
     \<and> dn_host_user_id (f (seen_row now h p n)) = dn_host_user_id n
     \<and> dn_created_at (f (seen_row now h p n)) = dn_created_at n"
  by (auto simp: capability_row_def and_then_Inr seen_row_def)

lemma insert_node_step:
  "insert_node n d = Some (d', u) \<Longrightarrow> dn_status n = STATUS_PENDING \<Longrightarrow> dn_revoked n = 0 \<Longrightarrow>
     node_step\<^sup>*\<^sup>* ns (daemon_nodes d) \<Longrightarrow> node_step\<^sup>*\<^sup>* ns (daemon_nodes d')"
  using node_step.enrol [of n "daemon_nodes d"]
  by (auto simp: insert_node_def split: if_splits intro: rtranclp.rtrancl_into_rtrancl)

lemma update_nodes_step:
  assumes "update_nodes p f d = Some (d', u)" "node_step\<^sup>*\<^sup>* ns (daemon_nodes d)"
    "node_step (daemon_nodes d) (fst (update_rows p f (daemon_nodes d)))"
  shows "node_step\<^sup>*\<^sup>* ns (daemon_nodes d')"
  using assms by (auto simp: update_nodes_def intro: rtranclp.rtrancl_into_rtrancl)

lemma keeps_audit [keeps_intros]:
  assumes "\<And>d z. Q d \<Longrightarrow> Q (d\<lparr>admin_audit_logs := z\<rparr>)"
  shows "keeps (on_db out Q) (audit_or_warn actor act et eid p)"
  using assms unfolding keeps_def on_db_def
  by (metis audit_frame audited_def prod.collapse)

lemma node_handlers_steps:
  fixes ns out defines "Q \<equiv> on_db out (\<lambda>d. node_step\<^sup>*\<^sup>* ns (daemon_nodes d))"
  shows "keeps Q (create_daemon_node a who cp)" "keeps Q (revoke_daemon_node who i)"
    "keeps Q (mark_node_seen k i h pk c)" "keeps Q (register_daemon_node k idn rp)"
    "keeps Q (daemon_heartbeat k idn hp)" "keeps Q (daemon_ping k idn)"
proof -
  have audit: "keeps Q (audit_or_warn actor act et eid p)" for actor act et eid p
    unfolding Q_def by (rule keeps_audit) simp
  have create: "keeps Q (create_daemon_node a who cp)"
  proof -
    have "keeps Q (exec (insert_node n))" if "dn_status n = STATUS_PENDING" "dn_revoked n = 0" for n
      unfolding Q_def by (rule keeps_exec) (rule insert_node_step, use that in auto)
    then show ?thesis
      unfolding create_daemon_node_def Let_def ensure_user_exists_def
      by (intro keeps_bind keeps_err keeps_if keeps_simple keeps_ask audit) (auto simp: Q_def intro: keeps_intros)
  qed
  show "keeps Q (create_daemon_node a who cp)" by (rule create)
  have rev: "keeps Q (exec (update_nodes (\<lambda>n. dn_id n = i \<and> dn_revoked n = 0) (revoke_row now)))" for i now
    unfolding Q_def by (rule keeps_exec) (rule update_nodes_step, auto intro: node_step.revoke)
  show "keeps Q (revoke_daemon_node who i)"
    unfolding revoke_daemon_node_def revoke_node_def
    by (intro keeps_bind keeps_err keeps_if keeps_simple audit rev) (auto simp: Q_def intro: keeps_intros)
  have plain: "keeps Q (exec (update_nodes (may_be_seen i) (seen_row now h pk)))" for i now h pk
    unfolding Q_def
    by (rule keeps_exec) (rule update_nodes_step, auto intro!: node_step.seen simp: seen_row_def)
  have caps: "keeps Q (exec (update_nodes (may_be_seen i) (\<lambda>n. f (seen_row now h pk n))))"
    if "capability_row k c = Inr f" for i now h pk f c
    unfolding Q_def
    by (rule keeps_exec) (rule update_nodes_step, auto intro!: node_step.seen simp: seen_row_keeps [OF that])
  have opt: "keeps Q (bind_op (of_result (capability_row k c)) (\<lambda>f.
      err_op Infrastructure (exec (update_nodes (may_be_seen i) (\<lambda>n. f (seen_row now h pk n))))))" for c i h pk now
    by (cases "capability_row k c") (auto simp: bind_pure intro!: keeps_simple keeps_err caps)
  have seen: "keeps Q (mark_node_seen k i h pk c)" for i h pk c
    unfolding mark_node_seen_def
    by (intro keeps_bind keeps_err keeps_if keeps_simple keeps_option opt plain) (auto simp: Q_def intro: keeps_intros)
  show "keeps Q (mark_node_seen k i h pk c)" "keeps Q (register_daemon_node k idn rp)"
    "keeps Q (daemon_heartbeat k idn hp)" "keeps Q (daemon_ping k idn)"
    unfolding register_daemon_node_def daemon_heartbeat_def daemon_ping_def
    by (intro keeps_bind keeps_err keeps_simple seen)+
qed

section \<open>Properties\<close>

lemma nodes_wf_forever: "node_step\<^sup>*\<^sup>* ns ns' \<Longrightarrow> Ball (set ns) node_wf \<Longrightarrow> Ball (set ns') node_wf"
  by (induction rule: rtranclp_induct) (auto dest: node_step_wf)

text \<open>C23. Whatever a handler of the registry does and however it fails, the node table only changes
  by the steps of the life cycle (enrol, revoke, seen), in which a revoked row is never written.\<close>

theorem node_handlers_refine:
  "node_step\<^sup>*\<^sup>* (daemon_nodes (db w)) (daemon_nodes (db (snd (create_daemon_node a who cp w))))
   \<and> node_step\<^sup>*\<^sup>* (daemon_nodes (db w)) (daemon_nodes (db (snd (revoke_daemon_node who i w))))
   \<and> node_step\<^sup>*\<^sup>* (daemon_nodes (db w)) (daemon_nodes (db (snd (register_daemon_node k idn rp w))))
   \<and> node_step\<^sup>*\<^sup>* (daemon_nodes (db w)) (daemon_nodes (db (snd (daemon_heartbeat k idn hp w))))
   \<and> node_step\<^sup>*\<^sup>* (daemon_nodes (db w)) (daemon_nodes (db (snd (daemon_ping k idn w))))"
proof -
  have d: "node_step\<^sup>*\<^sup>* (daemon_nodes (db w)) (daemon_nodes (db (snd (m w))))"
    if "keeps (on_db (env w) (\<lambda>d. node_step\<^sup>*\<^sup>* (daemon_nodes (db w)) (daemon_nodes d))) m"
    for m :: "world \<Rightarrow> ('x + 'y) \<times> world"
    using keepsD [OF that, of w] by (simp add: on_db_def)
  then show ?thesis
    by (intro conjI) (rule d, rule node_handlers_steps)+
qed

lemma revoke_ok:
  assumes "revoke_daemon_node who i w = (Inr x, w')"
  shows "\<exists>now. daemon_nodes (db w')
      = map (\<lambda>n. if dn_id n = i \<and> dn_revoked n = 0 then revoke_row now n else n) (daemon_nodes (db w))"
proof -
  define now where "now = show_nat (clock (env w) (tick w))"
  define rows where "rows = map (\<lambda>n. if dn_id n = i \<and> dn_revoked n = 0 then revoke_row now n else n) (daemon_nodes (db w))"
  have au: "audit_or_warn (Some (id_user_id who)) ''daemon_node_revoked'' ''daemon_node'' (Some i)
        (JObject [(lit ''revoked'', JBool True)])
        (tick_world (tick_world w)\<lparr>db := (db w)\<lparr>daemon_nodes := rows\<rparr>\<rparr>) = (Inr (), w')"
    using assms unfolding now_def rows_def
    by (auto simp: revoke_daemon_node_def revoke_node_def op_results stmt_results update_nodes_def update_rows_def
        split: if_splits)
  obtain z where "db w' = (db w)\<lparr>daemon_nodes := rows\<rparr>\<lparr>admin_audit_logs := z\<rparr>"
    using audit_frame [OF au] by (auto simp: audited_def)
  then show ?thesis unfolding rows_def by auto
qed

lemma mark_seen_ok:
  assumes "mark_node_seen k i h p c w = (Inr now, w')"
  shows "\<exists>f. now = show_nat (clock (env w) (tick w)) \<and> env w' = env w
    \<and> daemon_nodes (db w') = map (\<lambda>n. if may_be_seen i n then f (seen_row now h p n) else n) (daemon_nodes (db w))
    \<and> length (filter (may_be_seen i) (daemon_nodes (db w))) = 1
    \<and> (case c of None \<Rightarrow> f = (\<lambda>n. n) | Some c' \<Rightarrow> capability_row k c' = Inr f)"
proof (cases c)
  case None
  then show ?thesis
    using assms
    by (intro exI [of _ "\<lambda>n. n"])
      (auto simp: mark_node_seen_def op_results stmt_results update_nodes_def update_rows_def split: if_splits)
next
  case (Some c')
  obtain f where "capability_row k c' = Inr f"
    using assms by (auto simp: Some mark_node_seen_def op_results)
  then show ?thesis
    using assms
    by (intro exI [of _ f])
      (auto simp: Some mark_node_seen_def op_results stmt_results update_nodes_def update_rows_def bind_pure
        split: if_splits)
qed

lemma revoked_row_is_final:
  assumes revoke: "revoke_daemon_node who i w = (Inr x, w1)"
    and table: "distinct (map dn_id (daemon_nodes (db w)))" "distinct (map dn_token_hash (daemon_nodes (db w)))"
      "Ball (set (daemon_nodes (db w))) node_wf"
    and node: "n \<in> set (daemon_nodes (db w))" "dn_id n = i"
    and later: "node_step\<^sup>*\<^sup>* (daemon_nodes (db w1)) ns"
  shows "\<exists>r \<in> set (daemon_nodes (db w1)). dn_id r = i \<and> dn_status r = STATUS_REVOKED \<and> dn_revoked r \<noteq> 0 \<and> r \<in> set ns
    \<and> (\<forall>m \<in> set ns. dn_id m = i \<or> dn_token_hash m = dn_token_hash n \<longrightarrow> m = r)"
proof -
  obtain now where w1: "daemon_nodes (db w1)
      = map (\<lambda>n. if dn_id n = i \<and> dn_revoked n = 0 then revoke_row now n else n) (daemon_nodes (db w))"
    using revoke_ok [OF revoke] by blast
  define r where "r = (if dn_id n = i \<and> dn_revoked n = 0 then revoke_row now n else n)"
  have r: "r \<in> set (daemon_nodes (db w1))" "dn_id r = i" "dn_revoked r \<noteq> 0" "dn_token_hash r = dn_token_hash n"
    using node by (auto simp: r_def w1 revoke_row_def)
  have st: "dn_status r = STATUS_REVOKED"
    using table(3) node by (auto simp: r_def revoke_row_def node_wf_def)
  have "map dn_id (daemon_nodes (db w1)) = map dn_id (daemon_nodes (db w))"
    "map dn_token_hash (daemon_nodes (db w1)) = map dn_token_hash (daemon_nodes (db w))"
    by (auto simp: w1 revoke_row_def)
  then have dist: "distinct (map dn_id (daemon_nodes (db w1)))" "distinct (map dn_token_hash (daemon_nodes (db w1)))"
    using table(1,2) by simp_all
  have "m = r" if "m \<in> set ns" "dn_id m = i" for m
    using node_id.row_is_final [OF later dist(1) r(1,3) that(1)] that(2) r(2,3) by (simp add: frozen_def)
  moreover have "m = r" if "m \<in> set ns" "dn_token_hash m = dn_token_hash n" for m
    using node_token.row_is_final [OF later dist(2) r(1,3) that(1)] that(2) r(3,4) by (simp add: frozen_def)
  moreover obtain r2 where "r2 \<in> set ns" "frozen r r2"
    using node_id.final_forever [OF later r(1,3)] by blast
  moreover from this have "r2 = r" using r(3) by (simp add: frozen_def)
  ultimately show ?thesis using r(1-3) st by (intro bexI [of _ r]) blast+
qed

lemma revoked_ids_stay_distinct:
  assumes "revoke_daemon_node who i w = (Inr x, w1)" "distinct (map dn_id (daemon_nodes (db w)))"
    and "node_step\<^sup>*\<^sup>* (daemon_nodes (db w1)) ns"
  shows "distinct (map dn_id ns)"
proof -
  obtain now where "daemon_nodes (db w1)
      = map (\<lambda>n. if dn_id n = i \<and> dn_revoked n = 0 then revoke_row now n else n) (daemon_nodes (db w))"
    using revoke_ok [OF assms(1)] by blast
  then have "map dn_id (daemon_nodes (db w1)) = map dn_id (daemon_nodes (db w))" by (auto simp: revoke_row_def)
  then show ?thesis using node_id.distinct_forever [OF assms(3)] assms(2) by simp
qed

text \<open>C24. Revocation of a node is final: whatever the administrators and the nodes do afterwards, its
  row stays exactly as the revocation left it, its token is never accepted again, it can not mark
  itself as seen, and it is never a candidate for a dispatch.\<close>

theorem revoked_node_stays_out:
  assumes revoke: "revoke_daemon_node who i w = (Inr x, w1)"
    and table: "distinct (map dn_id (daemon_nodes (db w)))" "distinct (map dn_token_hash (daemon_nodes (db w)))"
      "Ball (set (daemon_nodes (db w))) node_wf"
    and node: "n \<in> set (daemon_nodes (db w))" "dn_id n = i" "dn_token_hash n = hash_value a token"
    and later: "node_step\<^sup>*\<^sup>* (daemon_nodes (db w1)) (daemon_nodes (db w2))"
    and present: "authorization_token authz = Some token"
  shows "(\<exists>r \<in> set (daemon_nodes (db w1)). dn_id r = i \<and> dn_status r = STATUS_REVOKED
        \<and> filter (\<lambda>n. dn_id n = i) (daemon_nodes (db w2)) = [r])
    \<and> (\<forall>y. fst (resolve_daemon_node_identity a authz w2) \<noteq> Inr y)
    \<and> (\<forall>y k h p c. fst (mark_node_seen k i h p c w2) \<noteq> Inr y)
    \<and> filter (\<lambda>n. dn_id n = i \<and> candidate cutoff n) (daemon_nodes (db w2)) = []"
proof -
  obtain r where r: "r \<in> set (daemon_nodes (db w1))" "dn_id r = i" "dn_status r = STATUS_REVOKED" "dn_revoked r \<noteq> 0"
      "r \<in> set (daemon_nodes (db w2))"
    and unique: "\<forall>m \<in> set (daemon_nodes (db w2)). dn_id m = i \<or> dn_token_hash m = dn_token_hash n \<longrightarrow> m = r"
    using revoked_row_is_final [OF revoke table node(1,2) later] by blast
  have only: "m = r" if "m \<in> set (daemon_nodes (db w2))" "dn_id m = i" for m
    using bspec [OF unique that(1)] that(2) by metis
  have tok: "m = r" if "m \<in> set (daemon_nodes (db w2))" "dn_token_hash m = hash_value a token" for m
    using bspec [OF unique that(1)] that(2) node(3) by metis
  have one: "filter (\<lambda>n. dn_id n = i) (daemon_nodes (db w2)) = [r]"
  proof -
    have "length (filter (\<lambda>n. dn_id n = i) (daemon_nodes (db w2))) \<le> 1"
      using filter_key_le_1 [OF revoked_ids_stay_distinct [OF revoke table(1) later]] by simp
    moreover have "r \<in> set (filter (\<lambda>n. dn_id n = i) (daemon_nodes (db w2)))" using r by simp
    ultimately show ?thesis by (cases "filter (\<lambda>n. dn_id n = i) (daemon_nodes (db w2))") auto
  qed
  have "fst (resolve_daemon_node_identity a authz w2) \<noteq> Inr y" for y
  proof
    assume "fst (resolve_daemon_node_identity a authz w2) = Inr y"
    then show False
      using resolve_node_ok [of a authz w2 y "snd (resolve_daemon_node_identity a authz w2)"] tok present r(4)
      by (auto simp: prod_eq_iff)
  qed
  moreover have "fst (mark_node_seen k i h p c w2) \<noteq> Inr y" for y k h p c
  proof
    assume "fst (mark_node_seen k i h p c w2) = Inr y"
    then have "length (filter (may_be_seen i) (daemon_nodes (db w2))) = 1"
      using mark_seen_ok [of k i h p c w2 y "snd (mark_node_seen k i h p c w2)"] by (auto simp: prod_eq_iff)
    moreover have "filter (may_be_seen i) (daemon_nodes (db w2)) = []"
      using only r(4) by (auto simp: filter_empty_conv may_be_seen_def)
    ultimately show False by simp
  qed
  moreover have "filter (\<lambda>n. dn_id n = i \<and> candidate cutoff n) (daemon_nodes (db w2)) = []"
    using only r(4) by (auto simp: filter_empty_conv candidate_def)
  ultimately show ?thesis using one r(1-3) by blast
qed

definition admin_bob :: api_key_identity where
  "admin_bob = \<lparr>id_api_key_id = [7], id_user_id = [8], id_user_role = lit ''admin''\<rparr>"

lemma bob_revokes:
  "revoke_daemon_node admin_bob [1] (as_world node_state)
     = (Inr ([1], True), snd (revoke_daemon_node admin_bob [1] (as_world node_state)))"
  by (simp add: revoke_daemon_node_def revoke_node_def update_nodes_def update_rows_def run_simps node_state_def
      calm_world_def calm_def sample_node_def audit_or_warn_def serialize_payload_def record_admin_audit_def
      insert_audit_def tick_world_def empty_database_def)

theorem revoked_node_stays_out_witness:
  "\<not> is_ok (fst (resolve_daemon_node_identity bytes_crypto (lit ''Bearer k'')
      (snd (revoke_daemon_node admin_bob [1] (as_world node_state)))))"
proof -
  have rows: "daemon_nodes (db (as_world node_state)) = [sample_node]"
    by (simp add: node_state_def calm_world_def)
  have n: "sample_node \<in> set (daemon_nodes (db (as_world node_state)))" "dn_id sample_node = [1]"
    "dn_token_hash sample_node = hash_value bytes_crypto [107]" "node_wf sample_node"
    unfolding rows by (simp_all add: sample_node_def hash_value_def bytes_crypto_def node_wf_def)
  show ?thesis
    using revoked_node_stays_out [OF bob_revokes _ _ _ n(1-3) rtranclp.rtrancl_refl token_k] rows n(4)
    by (simp add: is_ok_iff)
qed

subsection \<open>Lists of names\<close>

lemma normalize_loop_eq:
  "normalize_loop acc vs = acc @ filter (\<lambda>v. v \<notin> set acc) (rev (remdups (rev (filter (\<lambda>v. v \<noteq> []) (map trim vs)))))"
proof (induction vs arbitrary: acc)
  case (Cons v vs)
  let ?rest = "rev (remdups (rev (filter (\<lambda>v. v \<noteq> []) (map trim vs))))"
  have rem: "remdups (xs @ [x]) = filter (\<lambda>y. y \<noteq> x) (remdups xs) @ [x]" for xs and x :: str
    by (induction xs) auto
  show ?case
  proof (cases "trim v = []")
    case False
    then show ?thesis
      by (auto simp: Cons.IH rem Let_def rev_filter intro!: filter_cong)
  qed (simp add: Cons.IH Let_def)
qed simp

text \<open>Normalising a list of names keeps the first occurrence of every trimmed, non-empty name, in
  the order given, and nothing else; the result has no duplicates, and normalising it again changes
  nothing.\<close>

theorem normalize_string_list_keeps_first_names:
  "normalize_string_list values = rev (remdups (rev (filter (\<lambda>v. v \<noteq> []) (map trim values))))
   \<and> distinct (normalize_string_list values)
   \<and> set (normalize_string_list values) = trim ` set values - {[]}
   \<and> normalize_string_list (normalize_string_list values) = normalize_string_list values"
proof -
  have eq: "normalize_string_list vs = rev (remdups (rev (filter (\<lambda>v. v \<noteq> []) (map trim vs))))" for vs
    by (simp add: normalize_string_list_def normalize_loop_eq)
  have set: "set (normalize_string_list values) = trim ` set values - {[]}"
    by (auto simp: eq)
  have dist: "distinct (normalize_string_list values)" by (simp add: eq)
  let ?n = "normalize_string_list values"
  have "map trim ?n = ?n" by (rule map_idI) (use set in auto)
  moreover have "filter (\<lambda>v. v \<noteq> []) ?n = ?n" using set by (auto simp: filter_id_conv)
  ultimately have "normalize_string_list ?n = ?n" using dist by (simp add: eq [of ?n] distinct_remdups_id)
  then show ?thesis using eq set dist by blast
qed

subsection \<open>Choosing a node\<close>

text \<open>A stored row offers a model: its list decodes and names it, and it has room.\<close>

definition offers_row :: "json_codec \<Rightarrow> str \<Rightarrow> str \<Rightarrow> i64 \<Rightarrow> bool" where
  "offers_row k model models max_conc \<longleftrightarrow>
     (case decode_strings k models of Inl _ \<Rightarrow> False | Inr ms \<Rightarrow> model \<in> set ms)
     \<and> (case u32_try_from max_conc of None \<Rightarrow> False | Some m \<Rightarrow> m \<noteq> 0)"

definition offers :: "json_codec \<Rightarrow> str \<Rightarrow> daemon_node_row \<Rightarrow> bool" where
  "offers k model n \<longleftrightarrow> offers_row k model (dn_model_ids_json n)
     (case dn_max_concurrency n of Some m \<Rightarrow> m | None \<Rightarrow> 0)"

lemma first_offering_Some:
  assumes "first_offering k out model rows = Inr (Some e)"
  shows "\<exists>pre row_id family models max_conc seen post.
      rows = pre @ (row_id, family, models, max_conc, seen) # post \<and> offers_row k model models max_conc
    \<and> parse_uuid out row_id = Inr (en_id e) \<and> en_model_id e = model \<and> en_last_seen_at e = seen
    \<and> en_provider_family e = family \<and> u32_try_from max_conc = Some (en_max_concurrency e)
    \<and> (\<forall>(_, _, ms, mc, _) \<in> set pre. \<not> offers_row k model ms mc)"
  using assms
proof (induction rows)
  case (Cons r rows)
  obtain row_id family models max_conc seen where r: "r = (row_id, family, models, max_conc, seen)"
    by (cases r) auto
  show ?case
  proof (cases "offers_row k model models max_conc")
    case True
    then have "parse_uuid out row_id = Inr (en_id e) \<and> en_model_id e = model \<and> en_last_seen_at e = seen
        \<and> en_provider_family e = family \<and> u32_try_from max_conc = Some (en_max_concurrency e)"
      using Cons.prems by (auto simp: r offers_row_def parse_json_vec_def stored_max_concurrency_def and_then_Inr
          split: sum.splits option.splits if_splits)
    then show ?thesis using True
      by (intro exI [of _ "[]"] exI [of _ row_id] exI [of _ family] exI [of _ models] exI [of _ max_conc]
          exI [of _ seen] exI [of _ rows]) (simp add: r)
  next
    case False
    have "first_offering k out model rows = Inr (Some e)"
      using Cons.prems False by (auto simp: r offers_row_def parse_json_vec_def stored_max_concurrency_def and_then_Inr
          split: if_splits)
    then obtain pre row_id' family' models' mc' seen' post where
      ih: "rows = pre @ (row_id', family', models', mc', seen') # post" "offers_row k model models' mc'"
      "parse_uuid out row_id' = Inr (en_id e)" "en_model_id e = model" "en_last_seen_at e = seen'"
      "en_provider_family e = family'" "u32_try_from mc' = Some (en_max_concurrency e)"
      "\<forall>(_, _, ms, mc, _) \<in> set pre. \<not> offers_row k model ms mc"
      using Cons.IH by blast
    then show ?thesis using False
      by (intro exI [of _ "r # pre"] exI [of _ row_id'] exI [of _ family']
          exI [of _ models'] exI [of _ mc'] exI [of _ seen'] exI [of _ post]) (simp add: r)
  qed
qed simp

definition node_view :: "daemon_node_row \<Rightarrow> str \<times> str \<times> str \<times> i64 \<times> str" where
  "node_view n = (dn_id n, (case dn_provider_family n of Some p \<Rightarrow> p | None \<Rightarrow> []), dn_model_ids_json n,
     (case dn_max_concurrency n of Some m \<Rightarrow> m | None \<Rightarrow> 0), last_seen n)"

lemma candidate_rows_eq: "candidate_rows cutoff d = map node_view
     (order_by_desc last_seen (order_by dn_created_at (filter (candidate cutoff) (daemon_nodes d))))"
  by (simp add: candidate_rows_def node_view_def [abs_def])

text \<open>C26. The node chosen for a model is live, enabled, healthy, was seen after the cutoff, offers the
  model and has room; and among the candidates that offer the model none was seen later. Choosing
  writes nothing.\<close>

theorem selected_node_is_eligible:
  assumes "select_eligible_daemon_node k model_id stale w = (Inr (Some e), w')"
  shows "db w' = db w \<and> en_model_id e = trim model_id \<and> 0 < en_max_concurrency e
    \<and> (\<exists>n \<in> set (daemon_nodes (db w)).
        candidate (show_int (i64_saturating_sub (int (clock (env w) (tick w))) (max stale 1))) n
      \<and> offers k (trim model_id) n \<and> parse_uuid (env w) (dn_id n) = Inr (en_id e)
      \<and> dn_provider_family n = Some (en_provider_family e) \<and> dn_last_seen_at n = Some (en_last_seen_at e)
      \<and> filter (\<lambda>n'. candidate (show_int (i64_saturating_sub (int (clock (env w) (tick w))) (max stale 1))) n'
           \<and> offers k (trim model_id) n' \<and> str_less (en_last_seen_at e) (last_seen n')) (daemon_nodes (db w)) = [])"
proof -
  let ?cutoff = "show_int (i64_saturating_sub (int (clock (env w) (tick w))) (max stale 1))"
  let ?model = "trim model_id"
  define ns where "ns = order_by_desc last_seen (order_by dn_created_at (filter (candidate ?cutoff) (daemon_nodes (db w))))"
  have set_ns: "set ns = {n \<in> set (daemon_nodes (db w)). candidate ?cutoff n}" by (simp add: ns_def)
  have run: "first_offering k (env w) ?model (map node_view ns) = Inr (Some e)" and frame: "db w' = db w"
    using assms by (auto simp: select_eligible_daemon_node_def Let_def op_results stmt_results query_stmt_def
        candidate_rows_eq ns_def split: if_splits)
  obtain pre v post where v: "map node_view ns = pre @ v # post"
    and off: "offers_row k ?model (fst (snd (snd v))) (fst (snd (snd (snd v))))"
    and e: "parse_uuid (env w) (fst v) = Inr (en_id e)" "en_model_id e = ?model"
      "en_last_seen_at e = snd (snd (snd (snd v)))" "en_provider_family e = fst (snd v)"
      "u32_try_from (fst (snd (snd (snd v)))) = Some (en_max_concurrency e)"
    and pre: "\<forall>(_, _, ms, mc, _) \<in> set pre. \<not> offers_row k ?model ms mc"
    using first_offering_Some [OF run] by fastforce
  obtain npre n npost where ns: "ns = npre @ n # npost" and pv: "map node_view npre = pre" "node_view n = v"
    using v by (auto simp: map_eq_append_conv map_eq_Cons_conv)
  have cand: "n \<in> set (daemon_nodes (db w))" "candidate ?cutoff n" using set_ns by (auto simp: ns)
  have "offers k ?model n" using off by (simp add: offers_def pv(2) [symmetric] node_view_def)
  moreover have "dn_provider_family n = Some (en_provider_family e)" "dn_last_seen_at n = Some (en_last_seen_at e)"
    using cand(2) e(3,4) by (auto simp: pv(2) [symmetric] node_view_def candidate_def last_seen_def split: option.splits)
  moreover have "0 < en_max_concurrency e"
    using off e(5) by (simp add: offers_row_def word_gt_0)
  moreover have "\<not> str_less (en_last_seen_at e) (last_seen n')"
    if "n' \<in> set (daemon_nodes (db w))" "candidate ?cutoff n'" "offers k ?model n'" for n'
  proof -
    have "n' \<in> set ns" using that set_ns by simp
    moreover have "n' \<notin> set npre"
      using that(3) pre by (auto simp: pv(1) [symmetric] offers_def node_view_def)
    ultimately have "n' = n \<or> n' \<in> set npost" by (auto simp: ns)
    moreover have "sorted_wrt (\<lambda>a b. str_le (last_seen b) (last_seen a)) ns"
      by (simp add: ns_def sorted_order_by_desc)
    ultimately have "str_le (last_seen n') (last_seen n)" by (auto simp: ns sorted_wrt_append)
    moreover have "en_last_seen_at e = last_seen n" by (simp add: e(3) pv(2) [symmetric] node_view_def)
    ultimately show ?thesis by (simp add: str_less_iff)
  qed
  moreover have "parse_uuid (env w) (dn_id n) = Inr (en_id e)" using e(1) by (simp add: pv(2) [symmetric] node_view_def)
  ultimately show ?thesis
    using frame e(2) cand by (intro conjI bexI [of _ n]) (auto simp: filter_empty_conv)
qed

subsection \<open>From a heartbeat to a dispatch\<close>

lemma str_le_append:
  "length xs = length ys \<Longrightarrow> str_le (xs @ us) (ys @ vs) \<longleftrightarrow> xs \<noteq> ys \<and> str_le xs ys \<or> xs = ys \<and> str_le us vs"
  by (induction xs ys rule: list_induct2) auto

lemma str_le_show_nat:
  "length (show_nat a) = length (show_nat b) \<Longrightarrow> a \<le> b \<Longrightarrow> str_le (show_nat a) (show_nat b)"
proof (induction a arbitrary: b rule: less_induct)
  case (less a)
  show ?case
  proof (cases "b < 10")
    case True
    then show ?thesis using less.prems by (auto simp: show_nat.simps [of a] show_nat.simps [of b])
  next
    case False
    have a: "\<not> a < 10" using less.prems False by (auto simp: show_nat.simps [of a] show_nat.simps [of b])
    have "a div 10 \<le> b div 10" using less.prems(2) by (rule div_le_mono)
    moreover have "length (show_nat (a div 10)) = length (show_nat (b div 10))"
      using less.prems(1) a False by (simp add: show_nat.simps [of a] show_nat.simps [of b])
    ultimately have "str_le (show_nat (a div 10)) (show_nat (b div 10))"
      using less.IH [of "a div 10" "b div 10"] a by simp
    moreover have "a mod 10 \<le> b mod 10" if "a div 10 = b div 10"
      using that less.prems(2) by (metis add_le_cancel_left mult_div_mod_eq)
    ultimately show ?thesis
      using a False \<open>length (show_nat (a div 10)) = length (show_nat (b div 10))\<close>
      by (auto simp: show_nat.simps [of a] show_nat.simps [of b] str_le_append show_nat_inj)
  qed
qed

lemma length_show_nat: "10 ^ d \<le> n \<Longrightarrow> n < 10 ^ Suc d \<Longrightarrow> length (show_nat n) = Suc d"
proof (induction d arbitrary: n)
  case 0
  then show ?case by (simp add: show_nat.simps)
next
  case (Suc d)
  have "1 \<le> (10 :: nat) ^ d" by simp
  then have "\<not> n < 10" using Suc.prems(1) by (simp only: power_Suc)
  moreover have "length (show_nat (n div 10)) = Suc d"
    by (rule Suc.IH) (use Suc.prems in auto)
  ultimately show ?case by (simp add: show_nat.simps [of n])
qed

lemma first_offering_exists:
  assumes "\<forall>(i, _, ms, mc, _) \<in> set rows. is_ok (decode_strings k ms) \<and> 0 \<le> mc \<and> is_ok (parse_uuid out i)"
    and "\<exists>(_, _, ms, mc, _) \<in> set rows. offers_row k model ms mc"
  shows "\<exists>e. first_offering k out model rows = Inr (Some e)"
  using assms
proof (induction rows)
  case (Cons r rows)
  obtain i family ms mc seen where r: "r = (i, family, ms, mc, seen)" by (cases r) auto
  obtain xs j where ok: "decode_strings k ms = Inr xs" "parse_uuid out i = Inr j" "0 \<le> mc"
    using Cons.prems(1) by (auto simp: r is_ok_iff)
  show ?case
  proof (cases "offers_row k model ms mc")
    case True
    then show ?thesis using ok
      by (auto simp: r offers_row_def parse_json_vec_def stored_max_concurrency_def u32_try_from_def)
  next
    case False
    then have "\<exists>e. first_offering k out model rows = Inr (Some e)" using Cons r by auto
    then show ?thesis using ok False
      by (auto simp: r offers_row_def parse_json_vec_def stored_max_concurrency_def u32_try_from_def)
  qed
qed simp

lemma heartbeat_ok:
  assumes "daemon_heartbeat k who payload w = (Inr r, w1)"
  shows "\<exists>c f now. normalize_capabilities (hb_capabilities payload) = Inr c \<and> capability_row k c = Inr f
    \<and> now = show_nat (clock (env w) (tick w)) \<and> env w1 = env w
    \<and> daemon_nodes (db w1) = map (\<lambda>n. if may_be_seen (di_node_id who) n
         then f (seen_row now (normalize_optional (hb_hostname payload)) (normalize_optional (hb_public_key payload)) n)
         else n) (daemon_nodes (db w))
    \<and> (\<exists>n \<in> set (daemon_nodes (db w)). may_be_seen (di_node_id who) n)"
proof -
  obtain c now where c: "normalize_capabilities (hb_capabilities payload) = Inr c"
    and m: "mark_node_seen k (di_node_id who) (normalize_optional (hb_hostname payload))
       (normalize_optional (hb_public_key payload)) (Some c) w = (Inr now, w1)"
    using assms by (auto simp: daemon_heartbeat_def op_results)
  have "\<exists>n \<in> set (daemon_nodes (db w)). may_be_seen (di_node_id who) n"
    if "length (filter (may_be_seen (di_node_id who)) (daemon_nodes (db w))) = 1"
    using that by (metis filter_empty_conv length_0_conv zero_neq_one)
  then show ?thesis using mark_seen_ok [OF m] c by fastforce
qed

lemma normalized_not_empty:
  "normalize_capabilities p = Inr c \<Longrightarrow> nz_model_ids c = normalize_string_list (cp_model_ids p)
     \<and> nz_max_concurrency c = cp_max_concurrency p \<and> cp_max_concurrency p \<noteq> 0"
  by (auto simp: normalize_capabilities_def Let_def split: if_splits)

lemma cutoff_reached:
  assumes "10 ^ 9 \<le> oldest" "oldest \<le> int t" "t < 10 ^ 10"
  shows "str_le (show_int oldest) (show_nat t)"
proof -
  obtain c where c: "oldest = int c" using assms(1) nonneg_int_cases [of oldest] by fastforce
  have "1000000000 \<le> int c" using assms(1) by (simp add: c)
  then have b: "10 ^ 9 \<le> c" "c \<le> t" using assms(2) by (simp_all add: c)
  have "length (show_nat c) = Suc 9" "length (show_nat t) = Suc 9"
    by (rule length_show_nat; use b assms(3) in simp)+
  then show ?thesis using str_le_show_nat [OF _ b(2)] by (simp add: c show_int_def)
qed

text \<open>A row with reported capabilities is a candidate and offers the reported models.\<close>

lemma reported_row:
  assumes f: "capability_row k c = Inr f" and c: "normalize_capabilities p = Inr c" and codec: "strings_ok k"
    and n: "may_be_seen i n" "dn_disabled n = 0"
  shows "nz_health_status c = HEALTH_STATUS_HEALTHY \<Longrightarrow> str_le cutoff now \<Longrightarrow> candidate cutoff (f (seen_row now h pk n))"
    "m \<in> set (nz_model_ids c) \<Longrightarrow> offers k m (f (seen_row now h pk n))"
  using assms normalized_not_empty [OF c]
  by (auto simp: candidate_def offers_def offers_row_def capability_row_def and_then_Inr seen_row_def may_be_seen_def
      serialize_json_def strings_ok_def i32_try_from_u32_def u32_try_from_def split: if_splits sum.splits)

text \<open>C25. A heartbeat makes a node dispatchable: when a node that is not disabled reported itself as
  healthy and offering a model, and the choice for that model runs within the staleness bound after
  it, a node is chosen, provided the rows of the table are readable. The comparison of
  the timestamps as text is sound because between the years 2001 and 2286 they all have ten digits.\<close>

theorem heartbeat_makes_models_dispatchable:
  assumes beat: "daemon_heartbeat k who payload w = (Inr r, w1)" and codec: "strings_ok k"
    and healthy: "cr_health_status (ns_capabilities r) = Some HEALTH_STATUS_HEALTHY"
    and model: "trim model_id \<in> set (cr_model_ids (ns_capabilities r))" "trim model_id \<noteq> []"
    and enabled: "\<forall>n \<in> set (daemon_nodes (db w)). dn_id n = di_node_id who \<longrightarrow> dn_disabled n = 0"
    and readable: "\<forall>n \<in> set (daemon_nodes (db w1)). is_ok (decode_strings k (dn_model_ids_json n))
      \<and> is_ok (parse_uuid (env w) (dn_id n)) \<and> (\<forall>m. dn_max_concurrency n = Some m \<longrightarrow> 0 \<le> m)"
    and later: "db w2 = db w1" "env w2 = env w" "fault (env w) (Suc (tick w2)) = None"
    and time: "10 ^ 9 \<le> int (clock (env w) (tick w2)) - max stale 1"
      "int (clock (env w) (tick w2)) - max stale 1 \<le> int (clock (env w) (tick w))"
      "clock (env w) (tick w) < 10 ^ 10" "clock (env w) (tick w2) < 10 ^ 10" "in_i64 stale"
  shows "\<exists>e. fst (select_eligible_daemon_node k model_id stale w2) = Inr (Some e) \<and> en_model_id e = trim model_id"
proof -
  obtain c f now where c: "normalize_capabilities (hb_capabilities payload) = Inr c" and f: "capability_row k c = Inr f"
    and now: "now = show_nat (clock (env w) (tick w))"
    and db: "daemon_nodes (db w1) = map (\<lambda>n. if may_be_seen (di_node_id who) n
         then f (seen_row now (normalize_optional (hb_hostname payload)) (normalize_optional (hb_public_key payload)) n)
         else n) (daemon_nodes (db w))"
    and ex: "\<exists>n \<in> set (daemon_nodes (db w)). may_be_seen (di_node_id who) n"
    using heartbeat_ok [OF beat] by - (elim exE conjE, rule that, assumption+)
  have rc: "ns_capabilities r = normalized_capability_response c"
    using beat c by (auto simp: daemon_heartbeat_def op_results)
  obtain n where n: "n \<in> set (daemon_nodes (db w))" "may_be_seen (di_node_id who) n" using ex by blast
  define n' where "n' = f (seen_row now (normalize_optional (hb_hostname payload)) (normalize_optional (hb_public_key payload)) n)"
  have n': "n' \<in> set (daemon_nodes (db w1))" using n by (auto simp: db n'_def)
  let ?cut = "int (clock (env w) (tick w2)) - max stale 1"
  have sat: "i64_saturating_sub (int (clock (env w) (tick w2))) (max stale 1) = ?cut"
    using time by (auto simp: i64_saturating_sub_def in_i64_def i64_max_def)
  note row = reported_row [OF f c codec n(2)]
  have "dn_disabled n = 0" using n enabled by (auto simp: may_be_seen_def)
  then have cand: "candidate (show_int ?cut) n'" and off: "offers k (trim model_id) n'"
    using row cutoff_reached [OF time(1-3)] healthy model(1)
    by (simp_all add: n'_def now rc normalized_capability_response_def)
  let ?rows = "candidate_rows (show_int ?cut) (db w1)"
  have "\<forall>(i, _, ms, mc, _) \<in> set ?rows. is_ok (decode_strings k ms) \<and> 0 \<le> mc \<and> is_ok (parse_uuid (env w) i)"
    using readable by (auto simp: candidate_rows_eq node_view_def candidate_def split: option.splits)
  moreover have "node_view n' \<in> set ?rows" using n' cand by (auto simp: candidate_rows_eq)
  then have "\<exists>(_, _, ms, mc, _) \<in> set ?rows. offers_row k (trim model_id) ms mc"
    using off by (intro bexI [of _ "node_view n'"]) (simp_all add: node_view_def offers_def)
  ultimately obtain e where e: "first_offering k (env w) (trim model_id) ?rows = Inr (Some e)"
    using first_offering_exists by blast
  moreover have "en_model_id e = trim model_id" using first_offering_Some [OF e] by blast
  ultimately show ?thesis
    using later sat model(2)
    by (simp add: select_eligible_daemon_node_def bind_op_def err_op_def exec_def query_stmt_def
        now_utc_epoch_seconds_def)
qed

text \<open>A codec for lists of at most one name; longer lists are refused.\<close>

definition one_name_codec :: json_codec where
  "one_name_codec = \<lparr>encode_json = (\<lambda>j. case j of
       JArray [] \<Rightarrow> Inr [1] | JArray [JString m] \<Rightarrow> Inr (0 # m) | _ \<Rightarrow> Inl []),
     decode_json = (\<lambda>_. Inr JNull), decode_strings = (\<lambda>s. case s of 0 # m \<Rightarrow> Inr [m] | _ \<Rightarrow> Inr [])\<rparr>"

lemma one_name_codec_ok: "strings_ok one_name_codec"
  by (auto simp: strings_ok_def one_name_codec_def split: list.splits json.splits)

definition sample_beat :: heartbeat_request where
  "sample_beat = \<lparr>hb_hostname = None, hb_public_key = None, hb_capabilities =
     \<lparr>cp_provider_family = [111], cp_model_ids = [[109]], cp_max_concurrency = 2, cp_pricing_metadata = None,
      cp_region = None, cp_labels = [], cp_health_status = None, cp_metadata = None\<rparr>\<rparr>"

definition node_one :: daemon_identity where
  "node_one = \<lparr>di_node_id = [1], di_status = STATUS_ACTIVE, di_token_hash = hex_bytes [107]\<rparr>"

definition beat_response :: node_seen_response where
  "beat_response = \<lparr>ns_node_id = [1], ns_status = STATUS_ACTIVE, ns_last_seen_at = show_nat 1700000100,
     ns_capabilities = \<lparr>cr_provider_family = Some [111], cr_model_ids = [[109]], cr_max_concurrency = Some 2,
       cr_pricing_metadata = None, cr_region = None, cr_labels = [], cr_health_status = Some HEALTH_STATUS_HEALTHY,
       cr_metadata = None\<rparr>\<rparr>"

definition beat_world :: world where
  "beat_world = snd (daemon_heartbeat one_name_codec node_one sample_beat (as_world node_state))"

definition beaten_node :: daemon_node_row where
  "beaten_node = sample_node\<lparr>dn_last_seen_at := Some (show_nat 1700000100), dn_updated_at := show_nat 1700000100,
     dn_provider_family := Some [111], dn_model_ids_json := [0, 109], dn_max_concurrency := Some 2,
     dn_labels_json := [1], dn_health_status := Some HEALTH_STATUS_HEALTHY\<rparr>"

lemma beat_runs:
  "daemon_heartbeat one_name_codec node_one sample_beat (as_world node_state) = (Inr beat_response,
     \<lparr>db = (db (as_world node_state))\<lparr>daemon_nodes := [beaten_node]\<rparr>, tx = empty_database, tick = 102, env = calm\<rparr>)"
proof -
  have c: "normalize_capabilities (hb_capabilities sample_beat) = Inr \<lparr>nz_provider_family = [111], nz_model_ids = [[109]],
      nz_max_concurrency = 2, nz_pricing_metadata = None, nz_region = None, nz_labels = [],
      nz_health_status = HEALTH_STATUS_HEALTHY, nz_metadata = None\<rparr>"
    by (simp add: normalize_capabilities_def sample_beat_def normalize_string_list_def normalize_optional_def trim_clean
        is_whitespace_def to_ascii_lowercase_def ascii_lower_def HEALTH_STATUS_HEALTHY_def lit_def)
  have st: "db (as_world node_state) = empty_database\<lparr>daemon_nodes := [sample_node]\<rparr>" "env (as_world node_state) = calm"
    "tick (as_world node_state) = 100" "tx (as_world node_state) = empty_database"
    by (simp_all add: node_state_def calm_world_def)
  have h: "normalize_optional (hb_hostname sample_beat) = None" "normalize_optional (hb_public_key sample_beat) = None"
    by (simp_all add: normalize_optional_def sample_beat_def)
  show ?thesis
    by (simp add: daemon_heartbeat_def c h mark_node_seen_def capability_row_def serialize_json_def serialize_optional_json_def
        transpose_opt_def one_name_codec_def i32_try_from_u32_def run_simps update_nodes_def st may_be_seen_def
        normalized_capability_response_def beat_response_def node_one_def
        tick_world_def calm_def)
      (simp add: beaten_node_def sample_node_def seen_row_def coalesce_def empty_database_def node_state_def
        calm_world_def calm_def ret_def)
qed

theorem heartbeat_makes_models_dispatchable_witness:
  "\<exists>e. fst (select_eligible_daemon_node one_name_codec [109] 300 beat_world) = Inr (Some e) \<and> en_model_id e = [109]"
proof -
  have run: "daemon_heartbeat one_name_codec node_one sample_beat (as_world node_state) = (Inr beat_response, beat_world)"
    by (simp add: beat_world_def beat_runs)
  have w: "env beat_world = calm" "tick beat_world = 102" "daemon_nodes (db beat_world) = [beaten_node]"
    by (simp_all add: beat_world_def beat_runs)
  have st: "daemon_nodes (db (as_world node_state)) = [sample_node]" "env (as_world node_state) = calm"
    "tick (as_world node_state) = 100"
    by (simp_all add: node_state_def calm_world_def)
  have t: "trim [109] = [109]" by (rule trim_clean) (simp add: is_whitespace_def)
  have clk: "clock calm n = 1700000000 + n" "fault calm n = None" "parse_uuid calm u = Inr u" for n u
    by (simp_all add: calm_def)
  have "is_ok (decode_strings one_name_codec (dn_model_ids_json beaten_node))" "dn_max_concurrency beaten_node = Some 2"
    "dn_disabled sample_node = 0"
    by (simp_all add: one_name_codec_def beaten_node_def sample_node_def)
  then show ?thesis
    using heartbeat_makes_models_dispatchable [OF run one_name_codec_ok, of "[109]" beat_world 300]
    by (simp add: st w t clk beat_response_def in_i64_def)
qed

lemma beat_selects:
  "select_eligible_daemon_node one_name_codec [109] 300 beat_world
     = (Inr (Some \<lparr>en_id = [1], en_provider_family = [111], en_model_id = [109], en_max_concurrency = 2,
          en_last_seen_at = show_nat 1700000100\<rparr>), tick_world (tick_world beat_world))"
proof -
  have w: "env beat_world = calm" "tick beat_world = 102" "daemon_nodes (db beat_world) = [beaten_node]"
    by (simp_all add: beat_world_def beat_runs)
  have t: "trim [109] = [109]" by (rule trim_clean) (simp add: is_whitespace_def)
  have le: "str_le (show_nat 1699999802) (show_nat 1700000100)"
    by (simp add: show_nat.simps)
  have v: "i64_saturating_sub 1700000102 300 = 1699999802" by (simp add: i64_saturating_sub_def i64_max_def)
  have c: "candidate (show_int 1699999802) beaten_node"
    using le by (simp add: candidate_def beaten_node_def sample_node_def show_int_def)
  have f: "first_offering one_name_codec calm [109] [node_view beaten_node]
      = Inr (Some \<lparr>en_id = [1], en_provider_family = [111], en_model_id = [109], en_max_concurrency = 2,
          en_last_seen_at = show_nat 1700000100\<rparr>)"
    by (simp add: node_view_def beaten_node_def sample_node_def parse_json_vec_def one_name_codec_def
        stored_max_concurrency_def u32_try_from_def last_seen_def calm_def)
  have clk: "clock calm n = 1700000000 + n" "fault calm n = None" for n by (simp_all add: calm_def)
  show ?thesis
    using f c by (simp add: select_eligible_daemon_node_def t bind_op_def err_op_def exec_def query_stmt_def
        now_utc_epoch_seconds_def w clk v candidate_rows_eq)
qed

theorem selected_node_is_eligible_witness:
  "\<exists>n \<in> set (daemon_nodes (db beat_world)). offers one_name_codec [109] n \<and> dn_last_seen_at n = Some (show_nat 1700000100)"
proof -
  have t: "trim [109] = [109]" by (rule trim_clean) (simp add: is_whitespace_def)
  from selected_node_is_eligible [OF beat_selects, unfolded t] show ?thesis
    by (elim conjE bexE) (intro bexI conjI, auto)
qed

end
