(* ===== verification/Sse.thy ===== *)
theory Sse
  imports Chat_Types Database Utf8
begin

text \<open>
  The server-sent events of an upstream provider (crates/mizan-providers/src/lib.rs,
  \<open>stream_sse_chunks\<close>): a state machine that is polled for the next chunk, fed by byte pieces of
  arbitrary size. The pieces are a list; an element \<open>Inl e\<close> is a read error, and a stream that has
  ended stays ended. \<open>serde_json\<close> and the texts of UTF-8 errors are parameters.
\<close>

section \<open>Data\<close>

record openai_usage =
  ou_prompt_tokens :: u64
  ou_completion_tokens :: u64
  ou_total_tokens :: u64
  ou_estimated :: bool

record openai_chunk_choice =
  oc_index :: nat
  oc_content :: "str option"
  oc_finish_reason :: "str option"

record openai_chunk =
  ok_choices :: "openai_chunk_choice list"
  ok_usage :: "openai_usage option"

record stream_codec =
  decode_chunk :: "str \<Rightarrow> str + openai_chunk"
  utf8_error :: "u8 list \<Rightarrow> str"

definition from_utf8 :: "stream_codec \<Rightarrow> u8 list \<Rightarrow> str + str" where
  "from_utf8 k raw = ok_or (utf8_error k raw) (utf8_decode (map unat raw))"

record sse_state =
  ss_byte_stream :: "(str + u8 list) list"
  ss_line_buffer :: "u8 list"
  ss_event_data :: str
  ss_pending :: "(app_error + chat_stream_chunk) list"
  ss_emitted_any :: bool
  ss_finished :: bool

definition new_sse_state :: "(str + u8 list) list \<Rightarrow> sse_state" where
  "new_sse_state byte_stream = \<lparr>ss_byte_stream = byte_stream, ss_line_buffer = [], ss_event_data = [],
     ss_pending = [], ss_emitted_any = False, ss_finished = False\<rparr>"

section \<open>Events\<close>

definition normalize_usage :: "openai_usage \<Rightarrow> token_usage" where
  "normalize_usage u = \<lparr>prompt_tokens = ou_prompt_tokens u, completion_tokens = ou_completion_tokens u,
     total_tokens = ou_total_tokens u, estimated = ou_estimated u\<rparr>"

definition chunk_of_choice :: "openai_usage option \<Rightarrow> openai_chunk_choice \<Rightarrow> chat_stream_chunk list" where
  "chunk_of_choice usage choice =
     (let delta = (case oc_content choice of Some c \<Rightarrow> c | None \<Rightarrow> []) in
      if delta = [] \<and> oc_finish_reason choice = None then []
      else [\<lparr>ck_index = oc_index choice, ck_delta = delta, ck_finish_reason = oc_finish_reason choice,
             ck_usage = map_option normalize_usage usage\<rparr>])"

definition parse_stream_event :: "stream_codec \<Rightarrow> str \<Rightarrow> app_error + chat_stream_chunk list" where
  "parse_stream_event k raw_event_data =
     (let payload = trim raw_event_data in
      if payload = lit ''[DONE]'' then Inr []
      else and_then (map_err (\<lambda>e. Provider (lit ''invalid upstream stream payload: '' @ e)) (decode_chunk k payload))
        (\<lambda>chunk. let chunks = concat (map (chunk_of_choice (ok_usage chunk)) (ok_choices chunk)) in
           if chunks = [] then
             (case ok_usage chunk of
                Some usage \<Rightarrow> Inr [\<lparr>ck_index = 0, ck_delta = [], ck_finish_reason = None,
                  ck_usage = Some (normalize_usage usage)\<rparr>]
              | None \<Rightarrow> Inr chunks)
           else Inr chunks))"

definition flush_pending_sse_event :: "stream_codec \<Rightarrow> sse_state \<Rightarrow> (app_error + unit) \<times> sse_state" where
  "flush_pending_sse_event k s =
     (if trim (ss_event_data s) = [] then (Inr (), s\<lparr>ss_event_data := []\<rparr>)
      else (case parse_stream_event k (ss_event_data s) of
          Inl e \<Rightarrow> (Inl e, s\<lparr>ss_event_data := []\<rparr>)
        | Inr chunks \<Rightarrow> (Inr (), s\<lparr>ss_event_data := [], ss_pending := ss_pending s @ map Inr chunks\<rparr>)))"

definition process_sse_line :: "stream_codec \<Rightarrow> u8 list \<Rightarrow> sse_state \<Rightarrow> (app_error + unit) \<times> sse_state" where
  "process_sse_line k raw_line s =
     (case from_utf8 k raw_line of
        Inl e \<Rightarrow> (Inl (Provider (lit ''invalid upstream stream line: '' @ e)), s)
      | Inr line \<Rightarrow>
          if line = [] then flush_pending_sse_event k s
          else let trimmed = trim_start line in
            if starts_with trimmed (lit '':'') then (Inr (), s)
            else (case strip_prefix trimmed (lit ''data:'') of
                None \<Rightarrow> (Inr (), s)
              | Some v \<Rightarrow> (Inr (), s\<lparr>ss_event_data :=
                  (if ss_event_data s = [] then [] else ss_event_data s @ [10]) @ trim_start v\<rparr>)))"

section \<open>Polling\<close>

definition NEWLINE :: u8 where "NEWLINE = 10"
definition CARRIAGE_RETURN :: u8 where "CARRIAGE_RETURN = 13"

text \<open>\<open>drain(..=position)\<close>, then the newline and one carriage return are popped.\<close>

definition strip_cr :: "u8 list \<Rightarrow> u8 list" where
  "strip_cr line = (if line \<noteq> [] \<and> last line = CARRIAGE_RETURN then butlast line else line)"

definition take_line :: "u8 list \<Rightarrow> (u8 list \<times> u8 list) option" where
  "take_line buffer =
     (if NEWLINE \<notin> set buffer then None
      else Some (strip_cr (takeWhile (\<lambda>b. b \<noteq> NEWLINE) buffer), tl (dropWhile (\<lambda>b. b \<noteq> NEWLINE) buffer)))"

definition pop_pending :: "sse_state \<Rightarrow> ((app_error + chat_stream_chunk) \<times> sse_state) option" where
  "pop_pending s = (case ss_pending s of
      [] \<Rightarrow> None
    | next_item # rest \<Rightarrow> Some (next_item, s\<lparr>ss_pending := rest, ss_emitted_any := ss_emitted_any s \<or> is_ok next_item\<rparr>))"

text \<open>The end of the byte stream: the last line, the last event, what is pending, or the end.\<close>

definition sse_end :: "stream_codec \<Rightarrow> sse_state \<Rightarrow> (app_error + chat_stream_chunk) option \<times> sse_state" where
  "sse_end k s =
     (case (if ss_line_buffer s = [] then (Inr (), s)
            else process_sse_line k (ss_line_buffer s) (s\<lparr>ss_line_buffer := []\<rparr>)) of
        (Inl e, s1) \<Rightarrow> (Some (Inl e), s1\<lparr>ss_finished := True\<rparr>)
      | (Inr _, s1) \<Rightarrow>
          (case flush_pending_sse_event k s1 of
             (Inl e, s2) \<Rightarrow> (Some (Inl e), s2\<lparr>ss_finished := True\<rparr>)
           | (Inr _, s2) \<Rightarrow>
               (case pop_pending s2 of
                  Some (next_item, s3) \<Rightarrow> (Some next_item, s3)
                | None \<Rightarrow>
                    if \<not> ss_emitted_any s2
                    then (Some (Inl (Provider (lit ''upstream stream response was empty''))), s2\<lparr>ss_finished := True\<rparr>)
                    else (None, s2\<lparr>ss_finished := True\<rparr>))))"

text \<open>One turn of the loop: a result to return, or the state to go on with.\<close>

definition sse_turn ::
  "stream_codec \<Rightarrow> sse_state \<Rightarrow> ((app_error + chat_stream_chunk) option \<times> sse_state) + sse_state" where
  "sse_turn k s =
     (case pop_pending s of
        Some (next_item, s1) \<Rightarrow> Inl (Some next_item, s1)
      | None \<Rightarrow>
          (case take_line (ss_line_buffer s) of
             Some (line, rest) \<Rightarrow>
               (case process_sse_line k line (s\<lparr>ss_line_buffer := rest\<rparr>) of
                  (Inl e, s1) \<Rightarrow> Inl (Some (Inl e), s1\<lparr>ss_finished := True\<rparr>)
                | (Inr _, s1) \<Rightarrow> Inr s1)
           | None \<Rightarrow>
               (case ss_byte_stream s of
                  Inr piece # later \<Rightarrow> Inr (s\<lparr>ss_byte_stream := later, ss_line_buffer := ss_line_buffer s @ piece\<rparr>)
                | Inl e # later \<Rightarrow> Inl (Some (Inl (infra ''upstream chat completion stream read failed: '' e)),
                    s\<lparr>ss_byte_stream := later, ss_finished := True\<rparr>)
                | [] \<Rightarrow> Inl (sse_end k s))))"

text \<open>What is left to read: every turn that goes on makes it smaller.\<close>

definition piece_size :: "str + u8 list \<Rightarrow> nat" where
  "piece_size x = (case x of Inl _ \<Rightarrow> 1 | Inr piece \<Rightarrow> Suc (length piece))"

definition unread :: "sse_state \<Rightarrow> nat" where
  "unread s = length (ss_line_buffer s) + sum_list (map piece_size (ss_byte_stream s))"

lemma take_line_length: "take_line buffer = Some (line, rest) \<Longrightarrow> length rest < length buffer"
proof -
  assume "take_line buffer = Some (line, rest)"
  then have nl: "NEWLINE \<in> set buffer" "rest = tl (dropWhile (\<lambda>b. b \<noteq> NEWLINE) buffer)"
    by (auto simp: take_line_def split: if_splits)
  then have "buffer \<noteq> []" by auto
  then have "length (tl (dropWhile (\<lambda>b. b \<noteq> NEWLINE) buffer)) < length buffer"
    using length_dropWhile_le [of "\<lambda>b. b \<noteq> NEWLINE" buffer] by (cases buffer) auto
  then show ?thesis using nl by simp
qed

lemma flush_frame:
  "flush_pending_sse_event k s = (r, s') \<Longrightarrow> ss_line_buffer s' = ss_line_buffer s \<and> ss_byte_stream s' = ss_byte_stream s
     \<and> ss_finished s' = ss_finished s \<and> ss_emitted_any s' = ss_emitted_any s \<and> ss_event_data s' = []"
  by (auto simp: flush_pending_sse_event_def split: if_splits sum.splits)

lemma process_frame:
  "process_sse_line k line s = (r, s') \<Longrightarrow> ss_line_buffer s' = ss_line_buffer s \<and> ss_byte_stream s' = ss_byte_stream s
     \<and> ss_finished s' = ss_finished s \<and> ss_emitted_any s' = ss_emitted_any s"
  by (auto simp: process_sse_line_def Let_def dest: flush_frame split: if_splits sum.splits option.splits)

lemma sse_turn_unread: "sse_turn k s = Inr s' \<Longrightarrow> unread s' < unread s"
  by (auto simp: sse_turn_def unread_def piece_size_def split: option.splits prod.splits sum.splits list.splits
      dest!: process_frame take_line_length)

function sse_loop :: "stream_codec \<Rightarrow> sse_state \<Rightarrow> (app_error + chat_stream_chunk) option \<times> sse_state" where
  "sse_loop k s = (case sse_turn k s of Inl r \<Rightarrow> r | Inr s' \<Rightarrow> sse_loop k s')"
  by pat_completeness auto
termination
  by (relation "measure (\<lambda>(k, s). unread s)") (auto dest: sse_turn_unread)

declare sse_loop.simps [simp del]

text \<open>The closure that \<open>stream::unfold\<close> calls for the next element.\<close>

definition sse_next :: "stream_codec \<Rightarrow> sse_state \<Rightarrow> (app_error + chat_stream_chunk) option \<times> sse_state" where
  "sse_next k s = (if ss_finished s then (None, s) else sse_loop k s)"

text \<open>All the elements a consumer sees when it polls until the stream ends.\<close>

inductive sse_polls :: "stream_codec \<Rightarrow> sse_state \<Rightarrow> (app_error + chat_stream_chunk) list \<Rightarrow> bool" where
  ended: "sse_next k s = (None, s') \<Longrightarrow> sse_polls k s []"
| element: "sse_next k s = (Some x, s') \<Longrightarrow> sse_polls k s' xs \<Longrightarrow> sse_polls k s (x # xs)"

inductive_cases sse_polls_NilE: "sse_polls k s []"
inductive_cases sse_polls_ConsE: "sse_polls k s (x # xs)"

section \<open>The specification: a text is a list of lines\<close>

definition event_effect :: "stream_codec \<Rightarrow> str \<Rightarrow> app_error + chat_stream_chunk list" where
  "event_effect k ev = (if trim ev = [] then Inr [] else parse_stream_event k ev)"

definition line_effect :: "stream_codec \<Rightarrow> str \<Rightarrow> u8 list \<Rightarrow> app_error + chat_stream_chunk list \<times> str" where
  "line_effect k ev raw =
     and_then (map_err (\<lambda>e. Provider (lit ''invalid upstream stream line: '' @ e)) (from_utf8 k raw)) (\<lambda>line.
     if line = [] then and_then (event_effect k ev) (\<lambda>chunks. Inr (chunks, []))
     else if starts_with (trim_start line) (lit '':'') then Inr ([], ev)
     else (case strip_prefix (trim_start line) (lit ''data:'') of
         None \<Rightarrow> Inr ([], ev)
       | Some v \<Rightarrow> Inr ([], (if ev = [] then [] else ev @ [10]) @ trim_start v)))"

fun run_lines :: "stream_codec \<Rightarrow> str \<Rightarrow> u8 list list \<Rightarrow> chat_stream_chunk list \<times> (app_error + str)" where
  "run_lines k ev [] = ([], Inr ev)"
| "run_lines k ev (l # ls) = (case line_effect k ev l of
      Inl e \<Rightarrow> ([], Inl e)
    | Inr (chunks, ev') \<Rightarrow> (case run_lines k ev' ls of (later, r) \<Rightarrow> (chunks @ later, r)))"

function split_lines :: "u8 list \<Rightarrow> u8 list list \<times> u8 list" where
  "split_lines buffer = (case take_line buffer of
      None \<Rightarrow> ([], buffer)
    | Some (line, rest) \<Rightarrow> (case split_lines rest of (ls, tail) \<Rightarrow> (line # ls, tail)))"
  by pat_completeness auto
termination by (relation "measure length") (auto dest: take_line_length)

declare split_lines.simps [simp del]

fun pieces :: "(str + u8 list) list \<Rightarrow> u8 list \<times> str option" where
  "pieces [] = ([], None)"
| "pieces (Inl e # xs) = ([], Some e)"
| "pieces (Inr b # xs) = (b @ fst (pieces xs), snd (pieces xs))"

definition finish_text :: "stream_codec \<Rightarrow> bool \<Rightarrow> str \<Rightarrow> u8 list \<Rightarrow> (app_error + chat_stream_chunk) list" where
  "finish_text k emitted ev rest =
     (case (if rest = [] then Inr ([], ev) else line_effect k ev rest) of
        Inl e \<Rightarrow> [Inl e]
      | Inr (_, ev') \<Rightarrow> (case event_effect k ev' of
            Inl e \<Rightarrow> [Inl e]
          | Inr chunks \<Rightarrow> if chunks = [] \<and> \<not> emitted then [Inl (Provider (lit ''upstream stream response was empty''))]
              else map Inr chunks))"

definition text_outputs ::
  "stream_codec \<Rightarrow> bool \<Rightarrow> str \<Rightarrow> u8 list \<Rightarrow> str option \<Rightarrow> (app_error + chat_stream_chunk) list" where
  "text_outputs k emitted ev text ending =
     (case split_lines text of (ls, rest) \<Rightarrow> case run_lines k ev ls of (chunks, r) \<Rightarrow>
        map Inr chunks @ (case r of
            Inl e \<Rightarrow> [Inl e]
          | Inr ev' \<Rightarrow> (case ending of
                Some e \<Rightarrow> [Inl (infra ''upstream chat completion stream read failed: '' e)]
              | None \<Rightarrow> finish_text k (emitted \<or> chunks \<noteq> []) ev' rest)))"

section \<open>The state machine meets it\<close>

lemma from_utf8_Nil: "from_utf8 k raw = Inr [] \<longleftrightarrow> raw = []"
  by (simp add: from_utf8_def)

lemma take_line_append: "take_line b = Some (l, r) \<Longrightarrow> take_line (b @ c) = Some (l, r @ c)"
  by (auto simp: take_line_def dropWhile_append1 takeWhile_append1 split: if_splits)

lemma polls_cong: "sse_next k s = sse_next k s' \<Longrightarrow> sse_polls k s outs \<longleftrightarrow> sse_polls k s' outs"
  by (metis sse_polls.simps)

lemma polls_unique: "sse_polls k s xs \<Longrightarrow> sse_polls k s ys \<Longrightarrow> xs = ys"
proof (induction arbitrary: ys rule: sse_polls.induct)
  case (ended k s s')
  from ended(2,1) show ?case by cases auto
next
  case (element k s x s' xs)
  from element(4) show ?case using element(1,3) by cases auto
qed

lemma polls_finished [simp]: "ss_finished s \<Longrightarrow> sse_polls k s []"
  by (rule sse_polls.ended [of k s s]) (simp add: sse_next_def)

lemma flush_spec:
  "flush_pending_sse_event k s = (case event_effect k (ss_event_data s) of
      Inl e \<Rightarrow> (Inl e, s\<lparr>ss_event_data := []\<rparr>)
    | Inr chunks \<Rightarrow> (Inr (), s\<lparr>ss_event_data := [], ss_pending := ss_pending s @ map Inr chunks\<rparr>))"
  by (simp add: flush_pending_sse_event_def event_effect_def)

lemma process_spec:
  "case line_effect k (ss_event_data s) raw of
     Inl e \<Rightarrow> \<exists>s'. process_sse_line k raw s = (Inl e, s')
   | Inr (chunks, ev) \<Rightarrow> process_sse_line k raw s
       = (Inr (), s\<lparr>ss_event_data := ev, ss_pending := ss_pending s @ map Inr chunks\<rparr>)"
  by (cases "from_utf8 k raw"; cases "event_effect k (ss_event_data s)")
    (auto simp: line_effect_def process_sse_line_def flush_spec Let_def split: option.splits)

lemma polls_pending:
  assumes "ss_pending s = map Inr chunks" "\<not> ss_finished s"
    and "sse_polls k (s\<lparr>ss_pending := [], ss_emitted_any := ss_emitted_any s \<or> chunks \<noteq> []\<rparr>) outs"
  shows "sse_polls k s (map Inr chunks @ outs)"
  using assms
proof (induction chunks arbitrary: s)
  case Nil
  then show ?case by (cases s) simp
next
  case (Cons c cs)
  let ?s = "s\<lparr>ss_pending := map Inr cs, ss_emitted_any := True\<rparr>"
  have "sse_next k s = (Some (Inr c), ?s)"
    using Cons.prems(1,2)
    by (simp add: sse_next_def sse_loop.simps [of k s] sse_turn_def pop_pending_def)
  moreover have "sse_polls k ?s (map Inr cs @ outs)"
    using Cons.prems by (intro Cons.IH) auto
  ultimately show ?case by (auto intro: sse_polls.element)
qed

lemma pop_none [simp]: "pop_pending s = None \<longleftrightarrow> ss_pending s = []"
  by (auto simp: pop_pending_def split: list.splits)

lemma pop_Nil [simp]: "ss_pending s = [] \<Longrightarrow> pop_pending s = None"
  by simp

lemma next_turn:
  assumes "\<not> ss_finished s" "sse_turn k s = Inr s'" "\<not> ss_finished s'"
  shows "sse_polls k s outs \<longleftrightarrow> sse_polls k s' outs"
  by (rule polls_cong) (use assms in \<open>simp add: sse_next_def sse_loop.simps [of k s]\<close>)

lemma polls_last:
  assumes "\<not> ss_finished s" "sse_turn k s = Inl (Some x, s')" "ss_finished s'"
  shows "sse_polls k s [x]"
  by (rule sse_polls.element [of k s x s'])
    (use assms in \<open>simp_all add: sse_next_def sse_loop.simps [of k s]\<close>)

text \<open>The end of a closed stream whose lines have all been read.\<close>

lemma polls_drained:
  assumes "ss_byte_stream s = []" "ss_line_buffer s = []" "ss_pending s = []" "trim (ss_event_data s) = []"
    "\<not> ss_finished s" "ss_emitted_any s"
  shows "sse_polls k s []"
proof -
  have "sse_turn k s = Inl (None, s\<lparr>ss_event_data := [], ss_finished := True\<rparr>)"
    using assms by (simp add: sse_turn_def sse_end_def take_line_def flush_pending_sse_event_def)
  then show ?thesis using assms(5) by (auto intro: sse_polls.ended simp: sse_next_def sse_loop.simps [of k s])
qed

lemma pop_pending_Cons:
  "ss_pending s = map Inr (c # cs) \<Longrightarrow>
     pop_pending s = Some (Inr c, s\<lparr>ss_pending := map Inr cs, ss_emitted_any := True\<rparr>)"
  by (simp add: pop_pending_def)

text \<open>The last item of a stream, from the state in which its last event has been flushed.\<close>

lemma polls_flushed:
  assumes s: "ss_byte_stream s = []" "ss_line_buffer s = []" "ss_event_data s = []" "ss_pending s = map Inr chunks"
      "\<not> ss_finished s"
    and turn: "sse_turn k s0 = Inl (case pop_pending s of
        Some (next_item, s3) \<Rightarrow> (Some next_item, s3)
      | None \<Rightarrow> if \<not> ss_emitted_any s
          then (Some (Inl (Provider (lit ''upstream stream response was empty''))), s\<lparr>ss_finished := True\<rparr>)
          else (None, s\<lparr>ss_finished := True\<rparr>))"
    and s0: "\<not> ss_finished s0"
  shows "sse_polls k s0 (if chunks = [] \<and> \<not> ss_emitted_any s
    then [Inl (Provider (lit ''upstream stream response was empty''))] else map Inr chunks)"
proof (cases chunks)
  case Nil
  show ?thesis
  proof (cases "ss_emitted_any s")
    case True
    then have "sse_next k s0 = (None, s\<lparr>ss_finished := True\<rparr>)"
      using s(4) s0 Nil by (simp add: sse_next_def sse_loop.simps [of k s0] turn pop_pending_def)
    then show ?thesis using Nil True by (auto intro: sse_polls.ended)
  next
    case False
    then have "sse_turn k s0 = Inl (Some (Inl (Provider (lit ''upstream stream response was empty''))), s\<lparr>ss_finished := True\<rparr>)"
      using s(4) Nil by (simp add: turn pop_pending_def)
    from polls_last [OF s0 this] show ?thesis using Nil False by simp
  qed
next
  case (Cons c cs)
  let ?s3 = "s\<lparr>ss_pending := map Inr cs, ss_emitted_any := True\<rparr>"
  have "sse_next k s0 = (Some (Inr c), ?s3)"
    using s(4) s0 Cons by (simp add: sse_next_def sse_loop.simps [of k s0] turn pop_pending_def)
  moreover have "sse_polls k ?s3 (map Inr cs @ [])"
    by (rule polls_pending) (use s in \<open>auto intro!: polls_drained\<close>)
  ultimately show ?thesis using Cons by (auto intro: sse_polls.element)
qed

text \<open>A line without its end yields no chunk: only an empty line does.\<close>

lemma last_line_effect:
  assumes "(if buf = [] then Inr ([], ev) else line_effect k ev buf) = Inr (cs, ev')"
  shows "cs = []"
proof (cases "buf = []")
  case False
  then have "from_utf8 k buf \<noteq> Inr []" by (simp add: from_utf8_Nil)
  then show ?thesis using assms False by (auto simp: line_effect_def and_then_Inr split: if_splits option.splits)
qed (use assms in auto)

lemma polls_end:
  assumes s: "ss_byte_stream s = []" "ss_pending s = []" "\<not> ss_finished s" "take_line (ss_line_buffer s) = None"
  shows "sse_polls k s (finish_text k (ss_emitted_any s) (ss_event_data s) (ss_line_buffer s))"
proof -
  let ?buf = "ss_line_buffer s"
  have turn: "sse_turn k s = Inl (sse_end k s)" using s by (simp add: sse_turn_def)
  note spec = process_spec [where k = k and s = "s\<lparr>ss_line_buffer := []\<rparr>" and raw = ?buf]
  show ?thesis
  proof (cases "if ?buf = [] then Inr ([], ss_event_data s) else line_effect k (ss_event_data s) ?buf")
    case (Inl e)
    then obtain s' where "process_sse_line k ?buf (s\<lparr>ss_line_buffer := []\<rparr>) = (Inl e, s')" "?buf \<noteq> []"
      using spec by (auto split: if_splits)
    then have "sse_turn k s = Inl (Some (Inl e), s'\<lparr>ss_finished := True\<rparr>)"
      by (simp add: turn sse_end_def)
    from polls_last [OF s(3) this] show ?thesis using Inl by (simp add: finish_text_def)
  next
    case (Inr r)
    then obtain ev where r: "(if ?buf = [] then Inr ([], ss_event_data s)
        else line_effect k (ss_event_data s) ?buf) = Inr ([], ev)" using last_line_effect by (cases r) blast
    have l: "(if ?buf = [] then (Inr (), s) else process_sse_line k ?buf (s\<lparr>ss_line_buffer := []\<rparr>))
        = (Inr (), s\<lparr>ss_line_buffer := [], ss_event_data := ev\<rparr>)"
      using spec r s(2) by (cases s) (auto split: if_splits)
    show ?thesis
    proof (cases "event_effect k ev")
      case (Inl e)
      then have "sse_turn k s = Inl (Some (Inl e), s\<lparr>ss_line_buffer := [], ss_event_data := [], ss_finished := True\<rparr>)"
        by (simp add: turn sse_end_def l flush_spec)
      from polls_last [OF s(3) this] show ?thesis using r Inl by (simp add: finish_text_def)
    next
      case (Inr chunks)
      have "sse_polls k s (if chunks = [] \<and> \<not> ss_emitted_any s
          then [Inl (Provider (lit ''upstream stream response was empty''))] else map Inr chunks)"
        using polls_flushed [of "s\<lparr>ss_line_buffer := [], ss_event_data := [], ss_pending := map Inr chunks\<rparr>" chunks k s]
          s turn by (simp add: sse_end_def l flush_spec Inr)
      then show ?thesis using r Inr by (simp add: finish_text_def)
    qed
  qed
qed

lemma split_lines_None: "take_line b = None \<Longrightarrow> split_lines b = ([], b)"
  by (simp add: split_lines.simps [of b])

lemma split_lines_Some:
  "take_line b = Some (l, r) \<Longrightarrow> split_lines (b @ c) = (l # fst (split_lines (r @ c)), snd (split_lines (r @ c)))"
  by (simp add: split_lines.simps [of "b @ c"] take_line_append case_prod_beta)

lemma text_outputs_line:
  assumes "take_line b = Some (l, r)"
  shows "text_outputs k emitted ev (b @ c) ending = (case line_effect k ev l of
      Inl e \<Rightarrow> [Inl e]
    | Inr (chunks, ev') \<Rightarrow> map Inr chunks @ text_outputs k (emitted \<or> chunks \<noteq> []) ev' (r @ c) ending)"
  by (cases "line_effect k ev l")
    (auto simp: text_outputs_def split_lines_Some [OF assms] case_prod_beta split: sum.splits option.splits)

definition outputs_of :: "stream_codec \<Rightarrow> sse_state \<Rightarrow> (app_error + chat_stream_chunk) list" where
  "outputs_of k s = text_outputs k (ss_emitted_any s) (ss_event_data s)
     (ss_line_buffer s @ fst (pieces (ss_byte_stream s))) (snd (pieces (ss_byte_stream s)))"

lemma polls_line:
  assumes s: "ss_pending s = []" "\<not> ss_finished s" and t: "take_line (ss_line_buffer s) = Some (line, rest)"
    and later: "\<And>s'. unread s' < unread s \<Longrightarrow> ss_pending s' = [] \<Longrightarrow> \<not> ss_finished s' \<Longrightarrow> sse_polls k s' (outputs_of k s')"
  shows "sse_polls k s (outputs_of k s)"
proof -
  note spec = process_spec [where k = k and s = "s\<lparr>ss_line_buffer := rest\<rparr>" and raw = line]
  show ?thesis
  proof (cases "line_effect k (ss_event_data s) line")
    case (Inl e)
    then obtain s' where "process_sse_line k line (s\<lparr>ss_line_buffer := rest\<rparr>) = (Inl e, s')"
      using spec by auto
    then have "sse_turn k s = Inl (Some (Inl e), s'\<lparr>ss_finished := True\<rparr>)"
      using t s by (simp add: sse_turn_def)
    from polls_last [OF s(2) this] show ?thesis by (simp add: outputs_of_def text_outputs_line [OF t] Inl)
  next
    case (Inr r)
    then obtain chunks ev where r: "line_effect k (ss_event_data s) line = Inr (chunks, ev)" by (cases r) auto
    let ?s1 = "s\<lparr>ss_line_buffer := rest, ss_event_data := ev, ss_pending := map Inr chunks\<rparr>"
    let ?s2 = "?s1\<lparr>ss_pending := [], ss_emitted_any := ss_emitted_any ?s1 \<or> chunks \<noteq> []\<rparr>"
    have turn: "sse_turn k s = Inr ?s1" using spec r t s by (simp add: sse_turn_def)
    have "unread ?s2 < unread s" using take_line_length [OF t] by (simp add: unread_def)
    then have "sse_polls k ?s2 (outputs_of k ?s2)" by (rule later) (simp_all add: s)
    then have "sse_polls k ?s1 (map Inr chunks @ outputs_of k ?s2)"
      by (intro polls_pending) (use s in auto)
    then show ?thesis using s by (simp add: next_turn [OF _ turn] outputs_of_def text_outputs_line [OF t] r)
  qed
qed

lemma polls_text:
  "ss_pending s = [] \<Longrightarrow> \<not> ss_finished s \<Longrightarrow> sse_polls k s (outputs_of k s)"
proof (induction "unread s" arbitrary: s rule: less_induct)
  case less
  show ?case
  proof (cases "take_line (ss_line_buffer s)")
    case (Some lr)
    then obtain line rest where "take_line (ss_line_buffer s) = Some (line, rest)" by (cases lr) auto
    then show ?thesis by (rule polls_line [OF less.prems _ less.hyps])
  next
    case None
    show ?thesis
    proof (cases "ss_byte_stream s")
      case Nil
      then show ?thesis
        using polls_end [OF Nil less.prems None, of k]
        by (simp add: outputs_of_def text_outputs_def split_lines_None [OF None])
    next
      case (Cons x xs)
      show ?thesis
      proof (cases x)
        case (Inl e)
        then have "sse_turn k s = Inl (Some (Inl (infra ''upstream chat completion stream read failed: '' e)),
            s\<lparr>ss_byte_stream := xs, ss_finished := True\<rparr>)"
          using None Cons less.prems by (simp add: sse_turn_def)
        from polls_last [OF less.prems(2) this] show ?thesis
          by (simp add: Cons Inl outputs_of_def text_outputs_def split_lines_None [OF None])
      next
        case (Inr piece)
        let ?s1 = "s\<lparr>ss_byte_stream := xs, ss_line_buffer := ss_line_buffer s @ piece\<rparr>"
        have turn: "sse_turn k s = Inr ?s1"
          using None Cons Inr less.prems by (simp add: sse_turn_def)
        then show ?thesis
          using less.hyps [OF sse_turn_unread [OF turn]] less.prems
          by (simp add: next_turn [OF _ turn] Cons Inr outputs_of_def)
      qed
    qed
  qed
qed

text \<open>C22. However the network cuts the upstream response into pieces, also inside a line or a
  character, and whatever it sends, polling the stream ends, and what a consumer sees is a function of the bytes
  alone: the events of the complete lines up to the first line that is malformed, then the last line
  and event of a closed stream or the read error; it is never empty.\<close>

theorem sse_stream_ignores_piece_boundaries:
  "{outs. sse_polls k (new_sse_state items) outs}
     = {text_outputs k False [] (fst (pieces items)) (snd (pieces items))}
   \<and> text_outputs k False [] (fst (pieces items)) (snd (pieces items)) \<noteq> []
   \<and> pieces (map Inr bs @ rest) = (concat bs @ fst (pieces rest), snd (pieces rest))"
proof (intro conjI)
  have "sse_polls k (new_sse_state items) (text_outputs k False [] (fst (pieces items)) (snd (pieces items)))"
    using polls_text [of "new_sse_state items" k] by (simp add: new_sse_state_def outputs_of_def)
  then show "{outs. sse_polls k (new_sse_state items) outs}
     = {text_outputs k False [] (fst (pieces items)) (snd (pieces items))}"
    using polls_unique by blast
  show "text_outputs k False [] (fst (pieces items)) (snd (pieces items)) \<noteq> []"
    by (auto simp: text_outputs_def finish_text_def split: prod.splits sum.splits option.splits if_splits)
  show "pieces (map Inr bs @ rest) = (concat bs @ fst (pieces rest), snd (pieces rest))"
    by (induction bs) auto
qed

end
