(* ===== verification/Secrets.thy ===== *)
theory Secrets
  imports Auth Utf8
begin

text \<open>
  The encryption of stored provider keys (crates/mizan-api/src/utils.rs). AES-256-GCM and Base64 are
  parameters (\<open>vault\<close>), as SHA-256 is in theory Auth; bytes are natural numbers below 256. The
  cipher object of the source is the key it was made from.
\<close>

record vault =
  seal :: "nat list \<Rightarrow> nat list \<Rightarrow> nat list \<Rightarrow> str + nat list"
  unseal :: "nat list \<Rightarrow> nat list \<Rightarrow> nat list \<Rightarrow> str + nat list"
  base64_encode :: "nat list \<Rightarrow> str"
  base64_decode :: "str \<Rightarrow> str + nat list"
  key_utf8_error :: "nat list \<Rightarrow> str"

definition NONCE_BYTES :: nat where "NONCE_BYTES = 12"
definition MIN_ENCRYPTED_BYTES :: nat where "MIN_ENCRYPTED_BYTES = NONCE_BYTES + 16"
definition SECRET_CONTEXT :: str where "SECRET_CONTEXT = lit ''provider-connection-secret-v1''"

definition derive_nonce :: "auth_env \<Rightarrow> str \<Rightarrow> str \<Rightarrow> nat list" where
  "derive_nonce a provider_secret provider_connection_id =
     take NONCE_BYTES (sha256 a (SECRET_CONTEXT @ lit '':'' @ provider_secret @ lit '':'' @ provider_connection_id))"

definition provider_cipher :: "auth_env \<Rightarrow> str \<Rightarrow> app_error + nat list" where
  "provider_cipher a provider_secret = Inr (sha256 a provider_secret)"

definition secret_error :: "string \<Rightarrow> string \<Rightarrow> app_error + 'a" where
  "secret_error field message = Inl (InvalidConfig (lit field) (lit message))"

definition encrypt_provider_api_key :: "auth_env \<Rightarrow> vault \<Rightarrow> str \<Rightarrow> str \<Rightarrow> str \<Rightarrow> app_error + str" where
  "encrypt_provider_api_key a v provider_secret provider_connection_id api_key =
     (if provider_secret = [] then secret_error ''MIZAN_PROVIDER_SECRET_KEY'' ''provider secret key is required''
      else if trim provider_connection_id = [] then
        secret_error ''provider_connection_id'' ''provider_connection_id is required''
      else if trim api_key = [] then
        secret_error ''provider_connection.api_key_encrypted'' ''api_key is required''
      else and_then (provider_cipher a provider_secret) (\<lambda>cipher.
        let nonce = derive_nonce a provider_secret provider_connection_id in
        and_then (map_err (infra ''provider api key encryption failed: '') (seal v cipher nonce (utf8_encode api_key)))
          (\<lambda>payload. Inr (base64_encode v (nonce @ payload)))))"

definition decrypt_provider_api_key :: "auth_env \<Rightarrow> vault \<Rightarrow> str \<Rightarrow> str \<Rightarrow> str \<Rightarrow> app_error + str" where
  "decrypt_provider_api_key a v provider_secret provider_connection_id encrypted_api_key =
     (if provider_secret = [] then secret_error ''MIZAN_PROVIDER_SECRET_KEY'' ''provider secret key is required''
      else if trim provider_connection_id = [] then
        secret_error ''provider_connection_id'' ''provider_connection_id is required''
      else if trim encrypted_api_key = [] then
        secret_error ''provider_connection.api_key_encrypted'' ''encrypted api key is required''
      else and_then (map_err (InvalidConfig (lit ''provider_connection.api_key_encrypted''))
          (base64_decode v encrypted_api_key)) (\<lambda>data.
        if length data < MIN_ENCRYPTED_BYTES then
          secret_error ''provider_connection.api_key_encrypted'' ''encrypted api key is invalid''
        else if take NONCE_BYTES data \<noteq> derive_nonce a provider_secret provider_connection_id then
          secret_error ''provider_connection.api_key_encrypted''
            ''encrypted api key does not match this provider connection''
        else and_then (provider_cipher a provider_secret) (\<lambda>cipher.
          and_then (map_err (infra ''provider api key decryption failed: '')
            (unseal v cipher (take NONCE_BYTES data) (drop NONCE_BYTES data))) (\<lambda>plaintext.
          ok_or (InvalidConfig (lit ''provider_connection.api_key_encrypted'')
              (lit ''invalid stored key format: '' @ key_utf8_error v plaintext)) (utf8_decode plaintext)))))"

section \<open>What the parameters promise\<close>

text \<open>
  SHA-256 digests have 32 bytes; AES-GCM opens what it sealed with the same key and nonce, and adds
  its 16 byte tag; Base64 text is read back, has no white space, and is empty for no bytes only.
\<close>

definition vault_ok :: "auth_env \<Rightarrow> vault \<Rightarrow> bool" where
  "vault_ok a v \<longleftrightarrow>
     (\<forall>s. length (sha256 a s) = 32 \<and> (\<forall>b \<in> set (sha256 a s). b < 256))
     \<and> (\<forall>key nonce p c. seal v key nonce p = Inr c \<longrightarrow>
          unseal v key nonce c = Inr p \<and> length c = length p + 16 \<and> (\<forall>b \<in> set c. b < 256))
     \<and> (\<forall>d. (\<forall>b \<in> set d. b < 256) \<longrightarrow> base64_decode v (base64_encode v d) = Inr d
          \<and> (\<forall>c \<in> set (base64_encode v d). \<not> is_whitespace c)
          \<and> (base64_encode v d = [] \<longrightarrow> d = []))"

text \<open>What \<open>encrypt\<close> wrote: a text that decodes to the nonce of its secret and connection and the
  sealed key.\<close>

lemma encrypted_shape:
  assumes ok: "vault_ok a v" and run: "encrypt_provider_api_key a v secret conn key = Inr e"
  obtains payload where "secret \<noteq> []" "trim conn \<noteq> []" "trim key \<noteq> []"
    "seal v (sha256 a secret) (derive_nonce a secret conn) (utf8_encode key) = Inr payload"
    "base64_decode v e = Inr (derive_nonce a secret conn @ payload)" "trim e \<noteq> []"
    "length (derive_nonce a secret conn) = NONCE_BYTES" "16 \<le> length payload"
proof -
  obtain payload where p: "secret \<noteq> []" "trim conn \<noteq> []" "trim key \<noteq> []"
    "seal v (sha256 a secret) (derive_nonce a secret conn) (utf8_encode key) = Inr payload"
    and e: "e = base64_encode v (derive_nonce a secret conn @ payload)"
    using run by (auto simp: encrypt_provider_api_key_def secret_error_def provider_cipher_def
        and_then_Inr Let_def split: if_splits)
  have n: "length (derive_nonce a secret conn) = NONCE_BYTES"
    using ok by (auto simp: vault_ok_def derive_nonce_def NONCE_BYTES_def)
  have "\<forall>b \<in> set (derive_nonce a secret conn). b < 256"
    using ok by (auto simp: vault_ok_def derive_nonce_def dest: in_set_takeD)
  moreover have "\<forall>b \<in> set payload. b < 256" "16 \<le> length payload"
    using ok p(4) unfolding vault_ok_def by (metis le_add2)+
  ultimately have b: "\<forall>b \<in> set (derive_nonce a secret conn @ payload). b < 256" by auto
  have "base64_decode v e = Inr (derive_nonce a secret conn @ payload)"
    "\<forall>c \<in> set e. \<not> is_whitespace c" "e \<noteq> []"
    using ok b p(4) n unfolding vault_ok_def e by (metis append_is_Nil_conv length_0_conv NONCE_BYTES_def zero_neq_numeral)+
  then show thesis using that p n \<open>16 \<le> length payload\<close> by (simp add: trim_clean)
qed

lemma decrypt_encrypted:
  assumes ok: "vault_ok a v" and run: "encrypt_provider_api_key a v secret conn key = Inr e"
    and chars: "\<forall>c \<in> set key. is_char c"
  shows "decrypt_provider_api_key a v secret conn e = Inr key"
proof -
  obtain payload where p: "secret \<noteq> []" "trim conn \<noteq> []" "trim e \<noteq> []"
    "seal v (sha256 a secret) (derive_nonce a secret conn) (utf8_encode key) = Inr payload"
    "base64_decode v e = Inr (derive_nonce a secret conn @ payload)"
    "length (derive_nonce a secret conn) = NONCE_BYTES" "16 \<le> length payload"
    by (rule encrypted_shape [OF ok run])
  have "unseal v (sha256 a secret) (derive_nonce a secret conn) payload = Inr (utf8_encode key)"
    using ok p(4) by (auto simp: vault_ok_def)
  then show ?thesis
    using p chars
    by (simp add: decrypt_provider_api_key_def provider_cipher_def MIN_ENCRYPTED_BYTES_def utf8_decode_encode)
qed

lemma decrypt_elsewhere:
  assumes ok: "vault_ok a v" and run: "encrypt_provider_api_key a v secret conn key = Inr e"
    and other: "secret' \<noteq> []" "trim conn' \<noteq> []" "derive_nonce a secret' conn' \<noteq> derive_nonce a secret conn"
  shows "decrypt_provider_api_key a v secret' conn' e =
     secret_error ''provider_connection.api_key_encrypted'' ''encrypted api key does not match this provider connection''"
proof -
  obtain payload where p: "trim e \<noteq> []" "base64_decode v e = Inr (derive_nonce a secret conn @ payload)"
    "length (derive_nonce a secret conn) = NONCE_BYTES" "16 \<le> length payload"
    by (rule encrypted_shape [OF ok run])
  then show ?thesis
    using other by (simp add: decrypt_provider_api_key_def MIN_ENCRYPTED_BYTES_def)
qed

end
