(* ===== verification/Providers.thy ===== *)
theory Providers
  imports Secrets Daemon_Nodes
begin

text \<open>
  Provider connections, model routes and the public list of models
  (crates/mizan-api/src/providers.rs). The foreign keys of the migrations show in the deletions: the
  routes of a deleted connection go with it, and usage events and request logs forget it.
\<close>

section \<open>Data\<close>

definition AUTH_MODE_API_KEY :: str where "AUTH_MODE_API_KEY = lit ''api_key''"
definition AUTH_MODE_SUBSCRIPTION_CLI :: str where "AUTH_MODE_SUBSCRIPTION_CLI = lit ''subscription_cli''"
definition AUTH_MODE_BROWSER_SESSION :: str where "AUTH_MODE_BROWSER_SESSION = lit ''browser_session''"

record connection_response =
  cn_id :: str
  cn_name :: str
  cn_provider_type :: str
  cn_auth_mode :: str
  cn_base_url :: str
  cn_enabled :: bool
  cn_created_at :: str
  cn_updated_at :: str

record connection_create_response =
  cc_id :: uuid
  cc_name :: str
  cc_provider_type :: str
  cc_auth_mode :: str
  cc_base_url :: str
  cc_enabled :: bool

record connection_create_request =
  pr_name :: str
  pr_provider_type :: str
  pr_base_url :: "str option"
  pr_api_key_encrypted :: "str option"
  pr_auth_mode :: "str option"
  pr_auth_config_json :: "json option"
  pr_enabled :: "bool option"

record model_route_response =
  rt_id :: str
  rt_provider_connection_id :: str
  rt_public_model :: str
  rt_upstream_model :: str
  rt_max_tokens :: "i64 option"
  rt_pricing_input :: i64
  rt_pricing_output :: i64
  rt_enabled :: bool
  rt_created_at :: str
  rt_updated_at :: str
  rt_provider_name :: "str option"

record model_route_create_response =
  rc_id :: uuid
  rc_provider_connection_id :: uuid
  rc_public_model :: str
  rc_upstream_model :: str
  rc_enabled :: bool

record model_route_create_request =
  rm_provider_connection_id :: uuid
  rm_public_model :: str
  rm_upstream_model :: str
  rm_max_tokens :: "i64 option"
  rm_pricing_input :: "i64 option"
  rm_pricing_output :: "i64 option"
  rm_enabled :: "bool option"

record public_model_response =
  pm_id :: str
  pm_object :: str
  pm_created :: i64
  pm_owned_by :: str
  pm_provider_type :: str
  pm_upstream_model :: str
  pm_route_id :: str
  pm_max_tokens :: "i64 option"

section \<open>Guards and normalisation\<close>

definition require_admin_role ::
  "api_key_identity option \<Rightarrow> 'b \<Rightarrow> ('b \<Rightarrow> 'a handler) \<Rightarrow> 'a handler" where
  "require_admin_role who request next_handler =
     bind_op (of_result (ok_or (map_error 401 Unauthorized) who)) (\<lambda>ident.
     if id_user_role ident \<noteq> lit ''admin'' then throw (map_error 403 Forbidden)
     else next_handler request)"

definition normalize_auth_mode :: "str option \<Rightarrow> app_error + str" where
  "normalize_auth_mode raw_mode =
     (let mode = (case map_option trim raw_mode of
          None \<Rightarrow> AUTH_MODE_API_KEY | Some t \<Rightarrow> if t = [] then AUTH_MODE_API_KEY else t) in
      if mode = AUTH_MODE_API_KEY then Inr AUTH_MODE_API_KEY
      else if mode = AUTH_MODE_SUBSCRIPTION_CLI then Inr AUTH_MODE_SUBSCRIPTION_CLI
      else if mode = AUTH_MODE_BROWSER_SESSION then Inr AUTH_MODE_BROWSER_SESSION
      else Inl (InvalidConfig (lit ''provider_connection.auth_mode'')
        (lit ''auth_mode must be api_key, subscription_cli, or browser_session'')))"

definition auth_config_error :: "string \<Rightarrow> app_error" where
  "auth_config_error message = InvalidConfig (lit ''provider_connection.auth_config_json'') (lit message)"

definition normalize_auth_config :: "json_codec \<Rightarrow> str \<Rightarrow> json option \<Rightarrow> app_error + str option" where
  "normalize_auth_config k auth_mode raw_config =
     (if auth_mode = AUTH_MODE_API_KEY then Inr None
      else case raw_config of
        None \<Rightarrow> Inl (auth_config_error ''auth_config_json is required for non-api provider auth modes'')
      | Some config \<Rightarrow> (case config of
          JObject members \<Rightarrow>
            if list_ex (\<lambda>key. lit key \<in> fst ` set members) [''api_key'', ''access_token'', ''refresh_token'', ''password'']
            then Inl (auth_config_error ''auth_config_json must store references or non-secret metadata, not raw secrets'')
            else map_err (\<lambda>e. InvalidConfig (lit ''provider_connection.auth_config_json'')
                (lit ''auth_config_json is not serializable: '' @ e))
              (and_then (encode_json k config) (\<lambda>text. Inr (Some text)))
        | _ \<Rightarrow> Inl (auth_config_error ''auth_config_json must be a JSON object'')))"

definition unwrap_or_default :: "str option \<Rightarrow> str" where
  "unwrap_or_default v = (case v of None \<Rightarrow> [] | Some s \<Rightarrow> s)"

definition flag :: "bool \<Rightarrow> i64" where
  "flag b = (if b then 1 else 0)"

section \<open>Statements\<close>

definition insert_connection :: "provider_connection_row \<Rightarrow> unit stmt" where
  "insert_connection row d =
     (if pc_id row \<in> pc_id ` set (provider_connections d) \<or> pc_name row \<in> pc_name ` set (provider_connections d)
      then None else Some (d\<lparr>provider_connections := provider_connections d @ [row]\<rparr>, ()))"

definition insert_route :: "model_route_row \<Rightarrow> unit stmt" where
  "insert_route row d =
     (if mr_id row \<in> mr_id ` set (model_routes d) \<or> mr_public_model row \<in> mr_public_model ` set (model_routes d)
      then None else Some (d\<lparr>model_routes := model_routes d @ [row]\<rparr>, ()))"

text \<open>\<open>ON DELETE SET NULL\<close>.\<close>

definition forget :: "str list \<Rightarrow> str option \<Rightarrow> str option" where
  "forget gone v = (case v of None \<Rightarrow> None | Some i \<Rightarrow> if i \<in> set gone then None else Some i)"

definition forget_routes :: "str list \<Rightarrow> database \<Rightarrow> database" where
  "forget_routes gone d = d\<lparr>
     usage_events := map (\<lambda>r. r\<lparr>ue_route_id := forget gone (ue_route_id r)\<rparr>) (usage_events d),
     request_logs := map (\<lambda>r. r\<lparr>rl_route_id := forget gone (rl_route_id r)\<rparr>) (request_logs d)\<rparr>"

definition forget_connection :: "str \<Rightarrow> database \<Rightarrow> database" where
  "forget_connection i d = d\<lparr>
     usage_events := map (\<lambda>r. r\<lparr>ue_provider_id := forget [i] (ue_provider_id r)\<rparr>) (usage_events d),
     request_logs := map (\<lambda>r. r\<lparr>rl_provider_id := forget [i] (rl_provider_id r)\<rparr>) (request_logs d)\<rparr>"

definition delete_routes :: "(model_route_row \<Rightarrow> bool) \<Rightarrow> nat stmt" where
  "delete_routes p d = Some (
     (forget_routes (map mr_id (filter p (model_routes d))) d)\<lparr>model_routes := fst (delete_rows p (model_routes d))\<rparr>,
     snd (delete_rows p (model_routes d)))"

definition delete_connection :: "uuid \<Rightarrow> nat stmt" where
  "delete_connection i d = (case delete_rows (\<lambda>c. pc_id c = i) (provider_connections d) of
      (rest, removed) \<Rightarrow>
        if removed = 0 then Some (d, 0)
        else map_option (\<lambda>(d', _). ((forget_connection i d')\<lparr>provider_connections := rest\<rparr>, removed))
          (delete_routes (\<lambda>r. mr_provider_connection_id r = i) d))"

section \<open>Provider connections\<close>

definition map_duplicate_name_error :: "outside \<Rightarrow> string \<Rightarrow> str \<Rightarrow> app_error" where
  "map_duplicate_name_error out context_name e =
     (if is_unique_constraint_error out e
      then InvalidConfig (lit ''provider_connection.name'') (lit context_name @ lit '' with this name already exists'')
      else Infrastructure e)"

definition connection_error :: "string \<Rightarrow> string \<Rightarrow> status \<times> error_envelope" where
  "connection_error field message = map_error 400 (InvalidConfig (lit field) (lit message))"

definition create_provider_connection ::
  "auth_env \<Rightarrow> vault \<Rightarrow> json_codec \<Rightarrow> str option \<Rightarrow> api_key_identity \<Rightarrow> connection_create_request
     \<Rightarrow> connection_create_response handler" where
  "create_provider_connection a v k provider_secret_key who payload =
     (let name = trim (pr_name payload); provider_type = trim (pr_provider_type payload) in
      bind_op (of_result (map_err from_app_error (normalize_auth_mode (pr_auth_mode payload)))) (\<lambda>auth_mode.
      let base_url = trim (unwrap_or_default (pr_base_url payload));
          secret = trim (unwrap_or_default (pr_api_key_encrypted payload)) in
      bind_op (of_result (map_err from_app_error (normalize_auth_config k auth_mode (pr_auth_config_json payload))))
        (\<lambda>auth_config_json.
      if name = [] then throw (connection_error ''provider_connection.name'' ''provider name is required'')
      else if provider_type = [] then
        throw (connection_error ''provider_connection.provider_type'' ''provider_type is required'')
      else if auth_mode = AUTH_MODE_API_KEY \<and> base_url = [] then
        throw (connection_error ''provider_connection.base_url''
          ''base_url is required for api_key provider connections'')
      else if auth_mode = AUTH_MODE_API_KEY \<and> secret = [] then
        throw (connection_error ''provider_connection.api_key_encrypted''
          ''api_key_encrypted is required for api_key provider connections'')
      else
      bind_op uuid_now_v7 (\<lambda>i.
      bind_op unix_timestamp_string (\<lambda>now.
      let enabled = (case pr_enabled payload of None \<Rightarrow> True | Some b \<Rightarrow> b) in
      bind_op (of_result (ok_or (from_app_error (InvalidConfig (lit ''MIZAN_PROVIDER_SECRET_KEY'')
          (lit ''set MIZAN_PROVIDER_SECRET_KEY before creating provider connections''))) provider_secret_key))
        (\<lambda>secret_key.
      let secret_material = (if auth_mode = AUTH_MODE_API_KEY then secret else []) in
      bind_op (of_result (map_err from_app_error (encrypt_provider_api_key a v secret_key i secret_material)))
        (\<lambda>encrypted_api_key.
      bind_op ask_outside (\<lambda>out.
      bind_op (err_op (\<lambda>e. from_app_error (map_duplicate_name_error out ''provider connection'' e))
        (exec (insert_connection
          \<lparr>pc_id = i, pc_name = name, pc_provider_type = provider_type, pc_base_url = base_url,
           pc_api_key_encrypted = encrypted_api_key, pc_auth_mode = auth_mode,
           pc_auth_config_json = auth_config_json, pc_enabled = flag enabled, pc_created_at = now,
           pc_updated_at = now\<rparr>))) (\<lambda>_.
      bind_op (err_op from_app_error (audit_or_warn (Some (id_user_id who)) ''provider_connection_created''
         ''provider_connection'' (Some i)
         (JObject [(lit ''name'', JString name), (lit ''provider_type'', JString provider_type),
            (lit ''auth_mode'', JString auth_mode), (lit ''base_url'', JString base_url),
            (lit ''enabled'', JBool enabled),
            (lit ''secret_material_stored'', JBool (auth_mode = AUTH_MODE_API_KEY))]))) (\<lambda>_.
      ret \<lparr>cc_id = i, cc_name = name, cc_provider_type = provider_type, cc_auth_mode = auth_mode,
           cc_base_url = base_url, cc_enabled = enabled\<rparr>))))))))))"

definition connection_response_of :: "provider_connection_row \<Rightarrow> connection_response" where
  "connection_response_of c = \<lparr>cn_id = pc_id c, cn_name = pc_name c, cn_provider_type = pc_provider_type c,
     cn_auth_mode = pc_auth_mode c, cn_base_url = pc_base_url c, cn_enabled = is_enabled (pc_enabled c),
     cn_created_at = pc_created_at c, cn_updated_at = pc_updated_at c\<rparr>"

definition list_provider_connections :: "connection_response list handler" where
  "list_provider_connections =
     bind_op (err_op (\<lambda>e. from_app_error (Infrastructure e))
       (exec (query_stmt (\<lambda>d. order_by_desc pc_created_at (provider_connections d))))) (\<lambda>rows.
     ret (map connection_response_of rows))"

definition delete_provider_connection :: "api_key_identity \<Rightarrow> uuid \<Rightarrow> (uuid \<times> bool) handler" where
  "delete_provider_connection who i =
     bind_op (err_op (\<lambda>e. from_app_error (Infrastructure e)) (exec (delete_connection i))) (\<lambda>removed.
     if removed = 0 then throw (map_error 404 (NotFound (lit ''provider connection not found'')))
     else bind_op (err_op from_app_error (audit_or_warn (Some (id_user_id who)) ''provider_connection_deleted''
         ''provider_connection'' (Some i) (JObject [(lit ''deleted'', JBool True)]))) (\<lambda>_.
       ret (i, True)))"

section \<open>Model routes\<close>

definition joined :: "database \<Rightarrow> (model_route_row \<times> provider_connection_row) list" where
  "joined d = concat (map (\<lambda>r. map (Pair r) (filter (\<lambda>c. pc_id c = mr_provider_connection_id r)
     (provider_connections d))) (model_routes d))"

definition route_response_of :: "model_route_row \<times> provider_connection_row \<Rightarrow> model_route_response" where
  "route_response_of = (\<lambda>(r, c). \<lparr>rt_id = mr_id r, rt_provider_connection_id = mr_provider_connection_id r,
     rt_public_model = mr_public_model r, rt_upstream_model = mr_upstream_model r, rt_max_tokens = mr_max_tokens r,
     rt_pricing_input = mr_pricing_input r, rt_pricing_output = mr_pricing_output r,
     rt_enabled = is_enabled (mr_enabled r), rt_created_at = mr_created_at r, rt_updated_at = mr_updated_at r,
     rt_provider_name = Some (pc_name c)\<rparr>)"

definition list_model_routes :: "model_route_response list handler" where
  "list_model_routes =
     bind_op (err_op (\<lambda>e. from_app_error (Infrastructure e))
       (exec (query_stmt (\<lambda>d. order_by_desc (\<lambda>(r, _). mr_created_at r) (joined d))))) (\<lambda>rows.
     ret (map route_response_of rows))"

definition map_duplicate_model_error :: "outside \<Rightarrow> str \<Rightarrow> app_error" where
  "map_duplicate_model_error out e =
     (if is_unique_constraint_error out e
      then InvalidConfig (lit ''model_route.public_model'') (lit ''public_model must be unique'')
      else Infrastructure e)"

definition negative :: "i64 option \<Rightarrow> bool" where
  "negative v = (case v of None \<Rightarrow> False | Some n \<Rightarrow> n < 0)"

definition unwrap_or :: "i64 \<Rightarrow> i64 option \<Rightarrow> i64" where
  "unwrap_or z v = (case v of None \<Rightarrow> z | Some n \<Rightarrow> n)"

definition create_model_route ::
  "api_key_identity \<Rightarrow> model_route_create_request \<Rightarrow> model_route_create_response handler" where
  "create_model_route who payload =
     (let public_model = trim (rm_public_model payload); upstream_model = trim (rm_upstream_model payload) in
      if public_model = [] then throw (connection_error ''model_route.public_model'' ''public_model is required'')
      else if upstream_model = [] then
        throw (connection_error ''model_route.upstream_model'' ''upstream_model is required'')
      else if negative (rm_max_tokens payload) then
        throw (connection_error ''model_route.max_tokens'' ''max_tokens cannot be negative'')
      else if negative (rm_pricing_input payload) then
        throw (connection_error ''model_route.pricing_input_per_1m_tokens''
          ''pricing_input_per_1m_tokens cannot be negative'')
      else if negative (rm_pricing_output payload) then
        throw (connection_error ''model_route.pricing_output_per_1m_tokens''
          ''pricing_output_per_1m_tokens cannot be negative'')
      else
      let connection = rm_provider_connection_id payload in
      bind_op (err_op (\<lambda>e. from_app_error (Infrastructure e)) (exec (query_stmt (\<lambda>d.
         find (\<lambda>c. pc_id c = connection \<and> pc_enabled c = 1) (provider_connections d))))) (\<lambda>provider_exists.
      if provider_exists = None then
        throw (connection_error ''model_route.provider_connection_id'' ''provider_connection_id does not exist'')
      else
      bind_op uuid_now_v7 (\<lambda>i.
      bind_op unix_timestamp_string (\<lambda>now.
      bind_op ask_outside (\<lambda>out.
      let enabled = (case rm_enabled payload of None \<Rightarrow> True | Some b \<Rightarrow> b) in
      bind_op (err_op (\<lambda>e. from_app_error (map_duplicate_model_error out e)) (exec (insert_route
        \<lparr>mr_id = i, mr_provider_connection_id = connection, mr_public_model = public_model,
         mr_upstream_model = upstream_model, mr_max_tokens = rm_max_tokens payload,
         mr_pricing_input = unwrap_or 0 (rm_pricing_input payload),
         mr_pricing_output = unwrap_or 0 (rm_pricing_output payload), mr_enabled = flag enabled,
         mr_created_at = now, mr_updated_at = now\<rparr>))) (\<lambda>_.
      bind_op (err_op from_app_error (audit_or_warn (Some (id_user_id who)) ''model_route_created'' ''model_route''
         (Some i)
         (JObject [(lit ''provider_connection_id'', JString connection), (lit ''public_model'', JString public_model),
            (lit ''upstream_model'', JString upstream_model),
            (lit ''max_tokens'', (case rm_max_tokens payload of None \<Rightarrow> JNull | Some n \<Rightarrow> JInt n)),
            (lit ''pricing_input_per_1m_tokens'', JInt (unwrap_or 0 (rm_pricing_input payload))),
            (lit ''pricing_output_per_1m_tokens'', JInt (unwrap_or 0 (rm_pricing_output payload))),
            (lit ''enabled'', JBool enabled)]))) (\<lambda>_.
      ret \<lparr>rc_id = i, rc_provider_connection_id = connection, rc_public_model = public_model,
           rc_upstream_model = upstream_model, rc_enabled = enabled\<rparr>)))))))"

definition delete_model_route :: "api_key_identity \<Rightarrow> uuid \<Rightarrow> (uuid \<times> bool) handler" where
  "delete_model_route who i =
     bind_op (err_op (\<lambda>e. from_app_error (Infrastructure e)) (exec (delete_routes (\<lambda>r. mr_id r = i)))) (\<lambda>removed.
     if removed = 0 then throw (map_error 404 (NotFound (lit ''model route not found'')))
     else bind_op (err_op from_app_error (audit_or_warn (Some (id_user_id who)) ''model_route_deleted''
         ''model_route'' (Some i) (JObject [(lit ''deleted'', JBool True)]))) (\<lambda>_.
       ret (i, True)))"

section \<open>The public list of models\<close>

definition enabled_routes :: "database \<Rightarrow> (model_route_row \<times> provider_connection_row) list" where
  "enabled_routes d = order_by (\<lambda>(r, _). mr_public_model r)
     (filter (\<lambda>(r, c). mr_enabled r = 1 \<and> pc_enabled c = 1) (joined d))"

definition route_model :: "model_route_row \<times> provider_connection_row \<Rightarrow> app_error + public_model_response" where
  "route_model = (\<lambda>(r, c). and_then (parse_timestamp (mr_created_at r)) (\<lambda>created.
     Inr \<lparr>pm_id = mr_public_model r, pm_object = lit ''model'', pm_created = created, pm_owned_by = pc_name c,
          pm_provider_type = pc_provider_type c, pm_upstream_model = mr_upstream_model r, pm_route_id = mr_id r,
          pm_max_tokens = mr_max_tokens r\<rparr>))"

definition offering :: "str \<Rightarrow> daemon_node_row \<Rightarrow> bool" where
  "offering cutoff n \<longleftrightarrow> dn_status n = STATUS_ACTIVE \<and> dn_revoked n = 0 \<and> dn_disabled n = 0
     \<and> dn_health_status n = Some HEALTH_STATUS_HEALTHY \<and> dn_provider_family n \<noteq> None
     \<and> (case dn_max_concurrency n of None \<Rightarrow> False | Some m \<Rightarrow> 0 < m)
     \<and> (case dn_last_seen_at n of None \<Rightarrow> False | Some t \<Rightarrow> str_le cutoff t)"

definition family :: "daemon_node_row \<Rightarrow> str" where
  "family n = (case dn_provider_family n of Some p \<Rightarrow> p | None \<Rightarrow> [])"

definition offering_rows :: "str \<Rightarrow> database \<Rightarrow> (str \<times> str) list" where
  "offering_rows cutoff d = map (\<lambda>n. (family n, dn_model_ids_json n))
     (order_by family (order_by dn_model_ids_json (filter (offering cutoff) (daemon_nodes d))))"

definition daemon_model :: "str \<Rightarrow> str \<Rightarrow> public_model_response" where
  "daemon_model provider_family model_id =
     \<lparr>pm_id = model_id, pm_object = lit ''model'', pm_created = 0, pm_owned_by = lit ''mizan-daemon'',
      pm_provider_type = provider_family, pm_upstream_model = model_id, pm_route_id = lit ''daemon'',
      pm_max_tokens = None\<rparr>"

text \<open>The loops over the models of a node and over the nodes; \<open>data\<close> and \<open>seen_model_ids\<close> are their state.\<close>

fun push_models ::
  "str \<Rightarrow> str list \<Rightarrow> public_model_response list \<times> str set \<Rightarrow> public_model_response list \<times> str set" where
  "push_models provider_family [] st = st"
| "push_models provider_family (model_id # ids) (data, seen_ids) =
     (if model_id \<in> seen_ids then push_models provider_family ids (data, seen_ids)
      else push_models provider_family ids (data @ [daemon_model provider_family model_id], insert model_id seen_ids))"

fun push_nodes ::
  "json_codec \<Rightarrow> (str \<times> str) list \<Rightarrow> public_model_response list \<times> str set \<Rightarrow> public_model_response list \<times> str set" where
  "push_nodes k [] st = st"
| "push_nodes k ((provider_family, model_ids_json) # rows) st =
     (case parse_json_vec k model_ids_json ''daemon_node.model_ids_json'' of
        Inl e \<Rightarrow> push_nodes k rows st
      | Inr model_ids \<Rightarrow> push_nodes k rows (push_models provider_family model_ids st))"

definition list_public_models :: "json_codec \<Rightarrow> i64 \<Rightarrow> public_model_response list op" where
  "list_public_models k daemon_stale_seconds =
     bind_op (err_op Infrastructure (exec (query_stmt enabled_routes))) (\<lambda>rows.
     bind_op (of_result (collect_results route_model rows)) (\<lambda>data.
     bind_op now_utc_epoch_seconds (\<lambda>now.
     bind_op (err_op Infrastructure (exec (query_stmt (offering_rows
       (show_int (i64_saturating_sub (int now) (max daemon_stale_seconds 1))))))) (\<lambda>daemon_rows.
     ret (order_by pm_id (fst (push_nodes k daemon_rows (data, pm_id ` set data))))))))"

definition list_models :: "json_codec \<Rightarrow> u32 \<Rightarrow> (str \<times> public_model_response list) handler" where
  "list_models k daemon_stale_seconds =
     bind_op (err_op from_app_error (list_public_models k (uint daemon_stale_seconds))) (\<lambda>data.
     ret (lit ''list'', data))"

section \<open>Registering connections\<close>

lemma blank_key_is_refused: "\<exists>f m. encrypt_provider_api_key a v s i [] = Inl (InvalidConfig f m)"
  by (auto simp: encrypt_provider_api_key_def secret_error_def trim_def trim_start_def trim_end_def)

lemma blank_key_not_encrypted [simp]: "encrypt_provider_api_key a v s i [] \<noteq> Inr e"
  using blank_key_is_refused [of a v s i] by auto

lemma auth_config_errors: "normalize_auth_config k mode c = Inl e \<Longrightarrow> \<exists>f m. e = InvalidConfig f m"
proof (cases c)
  case (Some j)
  assume "normalize_auth_config k mode c = Inl e"
  then show ?thesis
    by (cases j; cases "encode_json k j")
      (auto simp: Some normalize_auth_config_def auth_config_error_def split: if_splits)
qed (auto simp: normalize_auth_config_def auth_config_error_def split: if_splits)

lemma create_connection_ok:
  assumes run: "create_provider_connection a v k secret_key who p w = (Inr resp, w')"
  shows "\<exists>secret enc cfg now. secret_key = Some secret \<and> normalize_auth_mode (pr_auth_mode p) = Inr AUTH_MODE_API_KEY
    \<and> encrypt_provider_api_key a v secret (cc_id resp) (trim (unwrap_or_default (pr_api_key_encrypted p))) = Inr enc
    \<and> trim (unwrap_or_default (pr_base_url p)) \<noteq> [] \<and> env w' = env w
    \<and> cc_id resp \<notin> pc_id ` set (provider_connections (db w))
    \<and> audited ((db w)\<lparr>provider_connections := provider_connections (db w) @
        [\<lparr>pc_id = cc_id resp, pc_name = trim (pr_name p), pc_provider_type = trim (pr_provider_type p),
          pc_base_url = trim (unwrap_or_default (pr_base_url p)), pc_api_key_encrypted = enc,
          pc_auth_mode = AUTH_MODE_API_KEY, pc_auth_config_json = cfg, pc_enabled = flag (pr_enabled p \<noteq> Some False),
          pc_created_at = now, pc_updated_at = now\<rparr>]\<rparr>) (db w')"
proof -
  have en: "(case pr_enabled p of None \<Rightarrow> True | Some b \<Rightarrow> b) = (pr_enabled p \<noteq> Some False)"
    by (cases "pr_enabled p") auto
  show ?thesis
    using run unfolding create_provider_connection_def en
    by (force simp: Let_def op_results stmt_results insert_connection_def split: if_splits dest!: audit_frame)
qed


definition toy_digest :: auth_env where
  "toy_digest = \<lparr>sha256 = (\<lambda>s. take 32 (map (\<lambda>c. c mod 256) s @ replicate 32 0)),
     bcrypt_hash = (\<lambda>_ _. Inl []), bcrypt_verify = (\<lambda>_ _. Inl []), join_error = (\<lambda>_. None)\<rparr>"

definition toy_vault :: vault where
  "toy_vault = \<lparr>seal = (\<lambda>_ _ p. if list_all (\<lambda>b. b < 256) p then Inr (p @ replicate 16 0) else Inl []),
     unseal = (\<lambda>_ _ c. Inr (take (length c - 16) c)), base64_encode = map (\<lambda>b. b + 256),
     base64_decode = (\<lambda>t. Inr (map (\<lambda>c. c - 256) t)), key_utf8_error = (\<lambda>_. [])\<rparr>"

lemma toy_vault_ok: "vault_ok toy_digest toy_vault"
proof -
  have d: "length (sha256 toy_digest s) = 32 \<and> (\<forall>b \<in> set (sha256 toy_digest s). b < 256)" for s
    using set_take_subset [of 32 "map (\<lambda>c. c mod 256) s @ replicate 32 0"]
    by (fastforce simp: toy_digest_def simp del: take_append)
  have s: "seal toy_vault key n p = Inr c \<longleftrightarrow> (\<forall>b \<in> set p. b < 256) \<and> c = p @ replicate 16 0" for key n p c
    by (auto simp: toy_vault_def list_all_iff)
  have e: "base64_decode toy_vault (base64_encode toy_vault x) = Inr x \<and> unseal toy_vault key n (x @ replicate 16 0) = Inr x
      \<and> (base64_encode toy_vault x = [] \<longrightarrow> x = [])" for x key n
    by (simp add: toy_vault_def o_def)
  have "\<not> is_whitespace c" if "\<forall>b \<in> set x. b < 256" "c \<in> set (base64_encode toy_vault x)" for x c
    using that by (auto simp: toy_vault_def is_whitespace_def)
  then show ?thesis unfolding vault_ok_def s using d e by auto
qed

definition sample_admin :: api_key_identity where
  "sample_admin = \<lparr>id_api_key_id = [1], id_user_id = [2], id_user_role = lit ''admin''\<rparr>"

definition sample_connection :: "string option \<Rightarrow> connection_create_request" where
  "sample_connection mode = \<lparr>pr_name = lit ''p'', pr_provider_type = lit ''openai'',
     pr_base_url = Some (lit ''http://h''), pr_api_key_encrypted = Some (lit '' key ''),
     pr_auth_mode = map_option lit mode, pr_auth_config_json = Some (JObject []), pr_enabled = None\<rparr>"

definition silent_json :: json_codec where
  "silent_json = \<lparr>encode_json = (\<lambda>_. Inr []), decode_json = (\<lambda>_. Inl []), decode_strings = (\<lambda>_. Inl [])\<rparr>"

lemma sample_trims:
  "trim (lit ''p'') = lit ''p''" "trim (lit ''openai'') = lit ''openai''" "trim (lit ''http://h'') = lit ''http://h''"
  "trim (lit '' key '') = lit ''key''" "trim (lit ''key'') = lit ''key''" "trim [100 :: nat] = [100]"
  by (simp_all add: trim_def trim_start_def trim_end_def lit_def is_whitespace_def)

lemma sample_connection_registered:
  "\<exists>w'. create_provider_connection toy_digest toy_vault silent_json (Some (lit ''s'')) sample_admin
     (sample_connection None) (calm_world empty_database) = (Inr
     \<lparr>cc_id = [100], cc_name = lit ''p'', cc_provider_type = lit ''openai'', cc_auth_mode = AUTH_MODE_API_KEY,
      cc_base_url = lit ''http://h'', cc_enabled = True\<rparr>, w')"
proof -
  have "\<exists>e. encrypt_provider_api_key toy_digest toy_vault (lit ''s'') [100] (lit ''key'') = Inr e"
    by (simp add: encrypt_provider_api_key_def sample_trims provider_cipher_def toy_vault_def utf8_encode_def
        utf8_char_def lit_def [of "''key''"] Let_def) (simp add: sample_trims(5) [unfolded lit_def, simplified])
  then obtain e where "encrypt_provider_api_key toy_digest toy_vault (lit ''s'') [100] (lit ''key'') = Inr e" ..
  then show ?thesis
    by (simp add: create_provider_connection_def sample_connection_def normalize_auth_mode_def
      normalize_auth_config_def sample_trims unwrap_or_default_def insert_connection_def ask_outside_def
      audit_or_warn_def serialize_payload_def record_admin_audit_def insert_audit_def run_simps calm_world_def
      calm_def empty_database_def Let_def)
qed


text \<open>Only connections in mode \<open>api_key\<close> can be registered: a request in another mode, whatever
  else it holds and with any configuration, is answered with status 400 and changes no table,
  because the empty key is handed to an encryption that refuses it.\<close>

theorem only_api_key_connections_are_registered:
  assumes run: "create_provider_connection a v k secret_key who p w = (r, w')"
    and mode: "normalize_auth_mode (pr_auth_mode p) = Inr mode" "mode \<noteq> AUTH_MODE_API_KEY"
  shows "(\<exists>e. r = Inl (400, e)) \<and> db w' = db w"
proof -
  have cfg: "\<exists>f m. d = InvalidConfig f m" if "normalize_auth_config k mode c = Inl d" for c d
    by (rule auth_config_errors [OF that])
  have key: "\<exists>f m. d = InvalidConfig f m" if "encrypt_provider_api_key a v s i [] = Inl d" for s i d
    using blank_key_is_refused [of a v s i] that by auto
  show ?thesis
  proof (cases r)
    case (Inl e)
    then show ?thesis
      using run mode
      by (auto simp: create_provider_connection_def Let_def op_results stmt_results map_err_Inl
          connection_error_def map_error_def split: if_splits dest!: cfg key) (auto simp: from_app_error_def)
  next
    case (Inr resp)
    then show ?thesis using create_connection_ok run mode by fastforce
  qed
qed

theorem only_api_key_connections_are_registered_witness:
  "\<exists>e. fst (create_provider_connection toy_digest toy_vault silent_json (Some (lit ''s'')) sample_admin
     (sample_connection (Some ''browser_session'')) (calm_world empty_database)) = Inl (400, e)"
  by (rule only_api_key_connections_are_registered
        [where p = "sample_connection (Some ''browser_session'')" and mode = AUTH_MODE_BROWSER_SESSION,
         OF prod.collapse [symmetric], THEN conjunct1])
    (simp_all add: sample_connection_def normalize_auth_mode_def AUTH_MODE_API_KEY_def AUTH_MODE_BROWSER_SESSION_def
      AUTH_MODE_SUBSCRIPTION_CLI_def trim_clean lit_def is_whitespace_def)

section \<open>The routing tables\<close>

text \<open>
  What every reader of the routing tables relies on: identifiers, names and public models are unique,
  a route has its connection, and no price or token limit is negative.
\<close>

definition routing_ok :: "database \<Rightarrow> bool" where
  "routing_ok d \<longleftrightarrow>
     distinct (map pc_id (provider_connections d)) \<and> distinct (map pc_name (provider_connections d))
     \<and> distinct (map mr_id (model_routes d)) \<and> distinct (map mr_public_model (model_routes d))
     \<and> (\<forall>r \<in> set (model_routes d). mr_provider_connection_id r \<in> pc_id ` set (provider_connections d)
          \<and> 0 \<le> mr_pricing_input r \<and> 0 \<le> mr_pricing_output r \<and> \<not> negative (mr_max_tokens r))"

lemma routing_ok_audit [simp]: "routing_ok (d\<lparr>admin_audit_logs := z\<rparr>) = routing_ok d"
  by (simp add: routing_ok_def)

lemma routing_audit: "keeps (on_db out routing_ok) (audit_or_warn actor act et eid p)"
  by (rule keeps_audit) simp

lemma insert_connection_routing:
  "routing_ok d \<Longrightarrow> insert_connection row d = Some (d', x) \<Longrightarrow> routing_ok d'"
  by (auto simp: routing_ok_def insert_connection_def split: if_splits)

lemma insert_route_routing:
  "routing_ok d \<Longrightarrow> mr_provider_connection_id row \<in> pc_id ` set (provider_connections d)
    \<Longrightarrow> 0 \<le> mr_pricing_input row \<Longrightarrow> 0 \<le> mr_pricing_output row \<Longrightarrow> \<not> negative (mr_max_tokens row)
    \<Longrightarrow> insert_route row d = Some (d', x) \<Longrightarrow> routing_ok d'"
  by (auto simp: routing_ok_def insert_route_def split: if_splits)

lemma distinct_map_filter: "distinct (map f xs) \<Longrightarrow> distinct (map f (filter p xs))"
  by (induction xs) auto

lemma delete_routes_routing: "routing_ok d \<Longrightarrow> delete_routes p d = Some (d', n) \<Longrightarrow> routing_ok d'"
  by (auto simp: routing_ok_def delete_routes_def delete_rows_def forget_routes_def distinct_map_filter)

lemma delete_connection_routing: "routing_ok d \<Longrightarrow> delete_connection i d = Some (d', n) \<Longrightarrow> routing_ok d'"
  by (auto simp: routing_ok_def delete_connection_def delete_routes_def delete_rows_def forget_routes_def
      forget_connection_def distinct_map_filter split: if_splits) force

lemma routing_statements:
  "keeps (on_db out routing_ok) (exec (insert_connection row))"
  "keeps (on_db out routing_ok) (exec (delete_routes p))"
  "keeps (on_db out routing_ok) (exec (delete_connection i))"
  by (rule keeps_exec, erule insert_connection_routing delete_routes_routing delete_connection_routing, assumption)+

text \<open>Once the connection is found the route is inserted next to it: nothing is deleted in between.\<close>

lemma keeps_bind_post:
  assumes "keeps P m" "\<And>w a w'. P w \<Longrightarrow> m w = (Inr a, w') \<Longrightarrow> P (snd (k a w'))"
  shows "keeps P (bind_op m k)"
  unfolding keeps_def
proof (intro allI impI)
  fix w assume w: "P w"
  obtain r w' where r: "m w = (r, w')" by fastforce
  show "P (snd (bind_op m k w))"
    using assms(2) [OF w] keepsD' [OF assms(1) r w] by (cases r) (simp_all add: r bind_op_def)
qed

lemma create_route_keeps:
  "keeps (on_db out routing_ok) (create_model_route who p)"
proof -
  let ?c = "rm_provider_connection_id p"
  let ?P = "on_db out (\<lambda>d. routing_ok d \<and> ?c \<in> pc_id ` set (provider_connections d))"
  have insert: "keeps ?P (exec (insert_route row))"
    if "mr_provider_connection_id row = ?c" "0 \<le> mr_pricing_input row" "0 \<le> mr_pricing_output row"
      "\<not> negative (mr_max_tokens row)" for row
  proof (rule keeps_exec, elim conjE)
    fix d d' x
    assume d: "routing_ok d" "?c \<in> pc_id ` set (provider_connections d)" "insert_route row d = Some (d', x)"
    then have "provider_connections d' = provider_connections d" by (auto simp: insert_route_def split: if_splits)
    then show "routing_ok d' \<and> ?c \<in> pc_id ` set (provider_connections d')"
      using insert_route_routing [of d row d' x] d that by simp
  qed
  have audit: "keeps ?P (audit_or_warn actor act et eid x)" for actor act et eid x
    by (rule keeps_audit) simp
  have nn: "\<not> negative v \<Longrightarrow> 0 \<le> unwrap_or 0 v" for v
    by (auto simp: unwrap_or_def negative_def split: option.splits)
  have weaken: "keeps ?P m \<Longrightarrow> ?P w \<Longrightarrow> on_db out routing_ok (snd (m w))"
    for m :: "world \<Rightarrow> ('x + 'y) \<times> world" and w
    by (drule keepsD) (auto simp: on_db_def)
  show ?thesis
    unfolding create_model_route_def Let_def
  proof (intro keeps_if keeps_simple keeps_bind_post, goal_cases)
    case 1
    then show ?case by (intro keeps_intros)
  next
    case (2 w a w')
    show ?case
    proof (cases a)
      case None
      then show ?thesis using 2 by (auto simp: err_op_Inr stmt_results query_stmt_def on_db_def throw_def)
    next
      case (Some c)
      then have w': "?P w'"
        using 2 by (auto simp: err_op_Inr stmt_results query_stmt_def on_db_def dest!: find_SomeD [OF sym] find_SomeD
            intro: rev_image_eqI)
      show ?thesis
        by (rule weaken [OF _ w'])
          (intro keeps_if keeps_bind keeps_err keeps_simple keeps_ask audit keeps_pure_db insert; simp add: nn 2)
    qed
  qed
qed

lemma routing_handlers:
  "keeps (on_db out routing_ok) (create_provider_connection a v k secret_key who cp)"
  "keeps (on_db out routing_ok) (delete_provider_connection who i)"
  "keeps (on_db out routing_ok) list_provider_connections"
  "keeps (on_db out routing_ok) (create_model_route who rp)"
  "keeps (on_db out routing_ok) (delete_model_route who i)"
  "keeps (on_db out routing_ok) list_model_routes"
  "keeps (on_db out routing_ok) (list_models k stale)"
  subgoal unfolding create_provider_connection_def Let_def
    by (intro keeps_bind keeps_err keeps_if keeps_simple keeps_ask routing_audit routing_statements keeps_pure_db)
  subgoal unfolding delete_provider_connection_def
    by (intro keeps_bind keeps_err keeps_if keeps_simple routing_audit routing_statements)
  subgoal unfolding list_provider_connections_def by (intro keeps_intros)
  subgoal by (rule create_route_keeps)
  subgoal unfolding delete_model_route_def
    by (intro keeps_bind keeps_err keeps_if keeps_simple routing_audit routing_statements)
  subgoal unfolding list_model_routes_def by (intro keeps_intros)
  subgoal unfolding list_models_def list_public_models_def by (intro keeps_intros)
  done

text \<open>C34. Every administrative handler keeps the routing tables well-formed, whatever fails: unique
  identifiers, names and public models, no route without its connection, no negative price or limit.
  A guard that is not satisfied runs no handler at all.\<close>

theorem routing_tables_stay_well_formed:
  "keeps (on_db out routing_ok) (require_admin_role ident cp (create_provider_connection a v k secret_key who))
   \<and> keeps (on_db out routing_ok) (require_admin_role ident i (delete_provider_connection who))
   \<and> keeps (on_db out routing_ok) (require_admin_role ident rp (create_model_route who))
   \<and> keeps (on_db out routing_ok) (require_admin_role ident i (delete_model_route who))
   \<and> keeps (on_db out routing_ok) (list_models k stale)
   \<and> (map_option id_user_role ident = Some (lit ''admin'')
      \<or> fst (require_admin_role ident req any_handler w) = Inl (map_error (if ident = None then 401 else 403)
          (if ident = None then Unauthorized else Forbidden))
        \<and> snd (require_admin_role ident req any_handler w) = w)"
proof -
  have guard: "keeps P (h x) \<Longrightarrow> keeps P (require_admin_role ident x h)"
    for P and h :: "'x \<Rightarrow> 'y handler" and x
    unfolding require_admin_role_def by (intro keeps_bind keeps_if keeps_simple)
  have refused: "map_option id_user_role ident = Some (lit ''admin'')
      \<or> fst (require_admin_role ident req any_handler w) = Inl (map_error (if ident = None then 401 else 403)
          (if ident = None then Unauthorized else Forbidden))
        \<and> snd (require_admin_role ident req any_handler w) = w"
    by (cases ident) (simp_all add: require_admin_role_def bind_pure throw_def)
  show ?thesis
    using refused by (intro conjI guard routing_handlers)
qed

section \<open>What the public list holds\<close>

lemma joined_fst: "routing_ok d \<Longrightarrow> map fst (joined d) = model_routes d"
proof -
  assume ok: "routing_ok d"
  have one: "map fst (map (Pair r) (filter (\<lambda>c. pc_id c = mr_provider_connection_id r) (provider_connections d))) = [r]"
    if "r \<in> set (model_routes d)" for r :: model_route_row
  proof -
    let ?cs = "filter (\<lambda>c. pc_id c = mr_provider_connection_id r) (provider_connections d)"
    have "length ?cs \<le> 1" using ok by (intro filter_key_le_1 [where f = pc_id and k = "mr_provider_connection_id r"]) (auto simp: routing_ok_def)
    moreover have "?cs \<noteq> []" using ok that by (fastforce simp: routing_ok_def filter_empty_conv)
    ultimately have "length ?cs = 1" by (cases ?cs) auto
    then show ?thesis by (auto simp: length_Suc_conv)
  qed
  have "map fst (joined d) = concat (map (\<lambda>r. [r]) (model_routes d))"
    unfolding joined_def map_concat map_map o_def by (rule arg_cong [where f = concat]) (use one in \<open>auto simp: o_def\<close>)
  then show ?thesis by simp
qed

lemma set_joined: "set (joined d) = {(r, c). r \<in> set (model_routes d) \<and> c \<in> set (provider_connections d)
    \<and> pc_id c = mr_provider_connection_id r}"
  by (auto simp: joined_def)

lemma distinct_insort_text:
  "distinct (map g (insort_text f x ys)) \<longleftrightarrow> g x \<notin> g ` set ys \<and> distinct (map g ys)"
  by (induction ys) auto

lemma distinct_order_by: "distinct (map g (order_by f xs)) = distinct (map g xs)"
  by (induction xs) (simp_all add: order_by_def distinct_insort_text, metis order_by_def set_order_by)

text \<open>The list grows by daemon models for which \<open>P\<close> holds, each once and only if it is new.\<close>

definition grown ::
  "(str \<Rightarrow> str \<Rightarrow> bool) \<Rightarrow> public_model_response list \<Rightarrow> public_model_response list \<Rightarrow> bool" where
  "grown P data data' \<longleftrightarrow> distinct (map pm_id data') \<and> set data \<subseteq> set data'
    \<and> pm_id ` set data' = pm_id ` set data \<union> {i. \<exists>fam. P fam i}
    \<and> (\<forall>m \<in> set data'. m \<in> set data
        \<or> pm_id m \<notin> pm_id ` set data \<and> (\<exists>fam. P fam (pm_id m) \<and> m = daemon_model fam (pm_id m)))"

lemma grown_trans: "grown P d1 d2 \<Longrightarrow> grown Q d2 d3 \<Longrightarrow> grown (\<lambda>f i. P f i \<or> Q f i) d1 d3"
proof -
  assume a: "grown P d1 d2" and b: "grown Q d2 d3"
  have ids: "pm_id ` set d2 = pm_id ` set d1 \<union> {i. \<exists>fam. P fam i}" "pm_id ` set d3 = pm_id ` set d2 \<union> {i. \<exists>fam. Q fam i}"
    using a b by (simp_all only: grown_def)
  have sub: "set d1 \<subseteq> set d2" "set d2 \<subseteq> set d3" "distinct (map pm_id d3)" using a b by (simp_all add: grown_def)
  have new: "m \<in> set d1 \<or> pm_id m \<notin> pm_id ` set d1 \<and> (\<exists>fam. (P fam (pm_id m) \<or> Q fam (pm_id m)) \<and> m = daemon_model fam (pm_id m))"
    if m: "m \<in> set d3" for m
  proof (cases "m \<in> set d2")
    case True
    then show ?thesis using a unfolding grown_def by blast
  next
    case False
    then have q: "pm_id m \<notin> pm_id ` set d2" "\<exists>fam. Q fam (pm_id m) \<and> m = daemon_model fam (pm_id m)"
      using b m unfolding grown_def by blast+
    then show ?thesis using ids(1) by blast
  qed
  have "pm_id ` set d3 = pm_id ` set d1 \<union> {i. \<exists>fam. P fam i \<or> Q fam i}" unfolding ids by blast
  then show "grown (\<lambda>f i. P f i \<or> Q f i) d1 d3" using sub new unfolding grown_def by blast
qed

lemma pm_id_daemon_model [simp]: "pm_id (daemon_model fam i) = i"
  by (simp add: daemon_model_def)

lemma push_models_grown:
  assumes "push_models fam ids (data, pm_id ` set data) = (data', seen)" "distinct (map pm_id data)"
  shows "seen = pm_id ` set data' \<and> grown (\<lambda>f i. f = fam \<and> i \<in> set ids) data data'"
  using assms
proof (induction ids arbitrary: data)
  case (Cons i ids)
  show ?case
  proof (cases "i \<in> pm_id ` set data")
    case True
    then show ?thesis using Cons.IH [of data] Cons.prems by (auto simp: grown_def)
  next
    case False
    let ?d = "data @ [daemon_model fam i]"
    have d: "push_models fam ids (?d, pm_id ` set ?d) = (data', seen)" "distinct (map pm_id ?d)"
      using False Cons.prems by auto
    have one: "grown (\<lambda>f j. f = fam \<and> j = i) data ?d" using False Cons.prems(2) by (auto simp: grown_def)
    have e: "(\<lambda>f j. f = fam \<and> j = i \<or> f = fam \<and> j \<in> set ids) = (\<lambda>f j. f = fam \<and> j \<in> set (i # ids))"
      by auto
    have rest: "seen = pm_id ` set data' \<and> grown (\<lambda>f i. f = fam \<and> i \<in> set ids) ?d data'"
      by (rule Cons.IH [OF d])
    then show ?thesis using grown_trans [OF one conjunct2 [OF rest], unfolded e] by simp
  qed
qed (auto simp: grown_def)

definition offered_in :: "json_codec \<Rightarrow> (str \<times> str) list \<Rightarrow> str \<Rightarrow> str \<Rightarrow> bool" where
  "offered_in k rows fam i \<longleftrightarrow> (\<exists>j ids. (fam, j) \<in> set rows \<and> decode_strings k j = Inr ids \<and> i \<in> set ids)"

lemma push_nodes_grown:
  assumes "push_nodes k rows (data, pm_id ` set data) = (data', seen)" "distinct (map pm_id data)"
  shows "grown (offered_in k rows) data data'"
  using assms
proof (induction rows arbitrary: data)
  case Nil
  then show ?case by (auto simp: grown_def offered_in_def)
next
  case (Cons row rows)
  obtain fam j where row: "row = (fam, j)" by (cases row)
  show ?case
  proof (cases "decode_strings k j")
    case (Inl e)
    have "offered_in k (row # rows) = offered_in k rows" by (auto simp: offered_in_def row Inl fun_eq_iff)
    then show ?thesis using Cons.IH [of data] Cons.prems Inl by (simp add: row parse_json_vec_def)
  next
    case (Inr ids)
    obtain d s where d: "push_models fam ids (data, pm_id ` set data) = (d, s)" by fastforce
    have s: "s = pm_id ` set d" and g: "grown (\<lambda>f i. f = fam \<and> i \<in> set ids) data d"
      using push_models_grown [OF d Cons.prems(2)] by auto
    have "push_nodes k rows (d, pm_id ` set d) = (data', seen)"
      using Cons.prems(1) Inr d s by (simp add: row parse_json_vec_def)
    then have r: "grown (offered_in k rows) d data'" by (rule Cons.IH) (use g in \<open>simp add: grown_def\<close>)
    have e: "(\<lambda>f i. f = fam \<and> i \<in> set ids \<or> offered_in k rows f i) = offered_in k (row # rows)"
      by (auto simp: offered_in_def row Inr fun_eq_iff)
    show ?thesis using grown_trans [OF g r] unfolding e .
  qed
qed

text \<open>A live node that reports the model, in a list that can be read.\<close>

definition offered_by_node :: "json_codec \<Rightarrow> str \<Rightarrow> database \<Rightarrow> str \<Rightarrow> str \<Rightarrow> bool" where
  "offered_by_node k cutoff d fam i \<longleftrightarrow> (\<exists>n ids. n \<in> set (daemon_nodes d) \<and> offering cutoff n \<and> fam = family n
     \<and> decode_strings k (dn_model_ids_json n) = Inr ids \<and> i \<in> set ids)"

lemma offered_in_rows: "offered_in k (offering_rows cutoff d) = offered_by_node k cutoff d"
  by (force simp: offered_in_def offering_rows_def offered_by_node_def fun_eq_iff)

lemma offering_candidate: "offering cutoff n \<Longrightarrow> candidate cutoff n"
  by (auto simp: offering_def candidate_def split: option.splits)

lemma offered_is_selectable:
  assumes "offered_by_node k cutoff d fam i"
    and "\<forall>n \<in> set (daemon_nodes d). is_ok (decode_strings k (dn_model_ids_json n)) \<and> is_ok (parse_uuid out (dn_id n))
      \<and> (\<exists>m. dn_max_concurrency n = Some m \<and> 0 \<le> m \<and> m < 2 ^ 31)"
  shows "\<exists>e. first_offering k out i (candidate_rows cutoff d) = Inr (Some e)"
proof (rule first_offering_exists)
  show "\<forall>(j, _, ms, mc, _) \<in> set (candidate_rows cutoff d). is_ok (decode_strings k ms) \<and> 0 \<le> mc \<and> is_ok (parse_uuid out j)"
    using assms(2) by (fastforce simp: candidate_rows_def)
  obtain n ids m where n: "n \<in> set (daemon_nodes d)" "offering cutoff n" "dn_max_concurrency n = Some m" "0 < m" "m < 2 ^ 31"
    "decode_strings k (dn_model_ids_json n) = Inr ids" "i \<in> set ids"
    using assms by (fastforce simp: offered_by_node_def offering_def)
  have "offers_row k i (dn_model_ids_json n) m"
    using n by (auto simp: offers_row_def u32_try_from_def word_of_int_eq_0_iff take_bit_int_eq_self zdvd_not_zless)
  then show "\<exists>(_, _, ms, mc, _) \<in> set (candidate_rows cutoff d). offers_row k i ms mc"
    using n offering_candidate [OF n(2)] by (force simp: candidate_rows_def)
qed

lemma route_models_ids:
  "collect_results route_model rows = Inr data \<Longrightarrow> map pm_id data = map (\<lambda>(r, _). mr_public_model r) rows"
  by (induction rows arbitrary: data) (auto simp: and_then_Inr route_model_def)

lemma collect_results_mem:
  "collect_results f xs = Inr ys \<Longrightarrow> y \<in> set ys \<Longrightarrow> \<exists>x \<in> set xs. f x = Inr y"
  by (induction xs arbitrary: ys) (auto simp: and_then_Inr)

text \<open>C33. The public list holds exactly what is available, each model once and in order: the public
  model of every enabled route of an enabled connection, described by that route, and every model that
  a live, healthy node with room reports and no such route publishes, described without the node.
  Listing writes nothing, and where the stored nodes can be read every model that a node
  adds to the list is found by the choice of a node at the same instant.\<close>

theorem public_list_is_what_is_available:
  assumes run: "list_public_models k stale w = (Inr models, w')" and ok: "routing_ok (db w)"
    and cutoff: "cutoff = show_int (i64_saturating_sub (int (clock (env w) (Suc (tick w)))) (max stale 1))"
  shows "sorted_wrt str_le (map pm_id models) \<and> distinct (map pm_id models) \<and> db w' = db w
    \<and> pm_id ` set models = {mr_public_model r | r c. (r, c) \<in> set (joined (db w)) \<and> mr_enabled r = 1 \<and> pc_enabled c = 1}
        \<union> {i. \<exists>fam. offered_by_node k cutoff (db w) fam i}
    \<and> (\<forall>m \<in> set models. (\<exists>x \<in> set (enabled_routes (db w)). route_model x = Inr m)
        \<or> pm_id m \<notin> (\<lambda>(r, _). mr_public_model r) ` set (enabled_routes (db w))
          \<and> (\<exists>fam. offered_by_node k cutoff (db w) fam (pm_id m) \<and> m = daemon_model fam (pm_id m)))
    \<and> ((\<forall>n \<in> set (daemon_nodes (db w)). is_ok (decode_strings k (dn_model_ids_json n)) \<and> is_ok (parse_uuid (env w) (dn_id n))
          \<and> (\<exists>m. dn_max_concurrency n = Some m \<and> 0 \<le> m \<and> m < 2 ^ 31)) \<longrightarrow>
        (\<forall>fam i. offered_by_node k cutoff (db w) fam i \<longrightarrow>
          (\<exists>e. first_offering k (env w) i (candidate_rows cutoff (db w)) = Inr (Some e))))"
proof -
  let ?rows = "enabled_routes (db w)"
  obtain data where data: "collect_results route_model ?rows = Inr data"
    and models: "models = order_by pm_id (fst (push_nodes k (offering_rows cutoff (db w)) (data, pm_id ` set data)))"
    and w': "db w' = db w"
    using run unfolding list_public_models_def cutoff
    by (auto simp: op_results stmt_results query_stmt_def)
  obtain all seen where all: "push_nodes k (offering_rows cutoff (db w)) (data, pm_id ` set data) = (all, seen)" by fastforce
  have ids: "map pm_id data = map (\<lambda>(r, _). mr_public_model r) ?rows" by (rule route_models_ids [OF data])
  have set_rows: "set ?rows = {(r, c). (r, c) \<in> set (joined (db w)) \<and> mr_enabled r = 1 \<and> pc_enabled c = 1}"
    by (auto simp: enabled_routes_def)
  have "distinct (map mr_public_model (map fst (joined (db w))))" using ok by (simp add: joined_fst routing_ok_def)
  then have "distinct (map pm_id data)"
    unfolding ids enabled_routes_def distinct_order_by by (intro distinct_map_filter) (simp add: o_def case_prod_beta')
  then have grown: "grown (offered_by_node k cutoff (db w)) data all"
    using push_nodes_grown [OF all] by (simp add: offered_in_rows)
  have m: "models = order_by pm_id all" by (simp add: models all)
  have "pm_id ` set data = {mr_public_model r | r c. (r, c) \<in> set (joined (db w)) \<and> mr_enabled r = 1 \<and> pc_enabled c = 1}"
    using arg_cong [OF ids, of set] set_rows by force
  moreover have "pm_id ` set data = (\<lambda>(r, _). mr_public_model r) ` set ?rows" using arg_cong [OF ids, of set] by simp
  moreover have "\<exists>x \<in> set ?rows. route_model x = Inr y" if "y \<in> set data" for y
    using collect_results_mem [OF data that] .
  ultimately show ?thesis
    using grown w' offered_is_selectable sorted_order_by [of pm_id all]
    unfolding grown_def m sorted_wrt_map distinct_order_by set_order_by by auto
qed

definition sample_route :: model_route_row where
  "sample_route = \<lparr>mr_id = [7], mr_provider_connection_id = [8], mr_public_model = lit ''m'', mr_upstream_model = lit ''u'',
     mr_max_tokens = None, mr_pricing_input = 1, mr_pricing_output = 2, mr_enabled = 1, mr_created_at = lit ''1'',
     mr_updated_at = lit ''1''\<rparr>"

definition routed_database :: database where
  "routed_database = empty_database\<lparr>model_routes := [sample_route], provider_connections :=
     [\<lparr>pc_id = [8], pc_name = lit ''p'', pc_provider_type = [], pc_base_url = [], pc_api_key_encrypted = [],
       pc_auth_mode = [], pc_auth_config_json = None, pc_enabled = 1, pc_created_at = [], pc_updated_at = []\<rparr>]\<rparr>"

definition routed_list :: "public_model_response list" where
  "routed_list = [\<lparr>pm_id = lit ''m'', pm_object = lit ''model'', pm_created = 1, pm_owned_by = lit ''p'',
     pm_provider_type = [], pm_upstream_model = lit ''u'', pm_route_id = [7], pm_max_tokens = None\<rparr>]"

lemma routed_models:
  "list_public_models silent_json 60 (calm_world routed_database)
     = (Inr routed_list, snd (list_public_models silent_json 60 (calm_world routed_database)))"
proof -
  have t: "parse_timestamp (lit ''1'') = Inr 1"
    by (simp add: parse_timestamp_def parse_i64_def parse_nat_def lit_def in_i64_def)
  have j: "enabled_routes routed_database = [(sample_route, hd (provider_connections routed_database))]"
    by (simp add: enabled_routes_def joined_def routed_database_def sample_route_def)
  have n: "offering_rows c routed_database = []" for c
    by (simp add: offering_rows_def routed_database_def empty_database_def)
  have "fst (list_public_models silent_json 60 (calm_world routed_database)) = Inr routed_list"
    unfolding list_public_models_def
    by (simp add: run_simps j n route_model_def t calm_world_def calm_def sample_route_def routed_list_def)
      (simp add: routed_database_def)
  then show ?thesis by (simp add: prod_eq_iff)
qed

theorem public_list_is_what_is_available_witness:
  "fst (list_public_models silent_json 60 (calm_world routed_database)) = Inr routed_list
     \<and> distinct (map pm_id routed_list)"
proof -
  have ok: "routing_ok (db (calm_world routed_database))"
    by (simp add: routing_ok_def routed_database_def sample_route_def negative_def)
  show ?thesis
    using public_list_is_what_is_available [OF routed_models ok refl] arg_cong [OF routed_models, of fst] by simp
qed

end
