(* ===== verification/Metrics.thy ===== *)
theory Metrics
  imports Wallet Core_Error Utf8 "HOL-Library.List_Lexorder" "HOL-Library.Product_Lexorder"
begin

text \<open>
  The metrics registry of the gateway (crates/mizan-api/src/metrics.rs): counters per label set, spread
  over 16 locked maps by an FNV-1a hash of the labels, and their rendering. A \<open>HashMap\<close> is
  an association list whose order the rendering does not depend on. The counters are the release
  build's: an addition that overflows wraps.
\<close>

section \<open>Labels\<close>

datatype gateway_labels =
  GatewayLabels (gl_route: str) (gl_provider: str) (gl_model: str) (gl_daemon_node: str) (gl_status: u16)

text \<open>The derived order: field by field.\<close>

instantiation gateway_labels :: linorder
begin

definition label_key :: "gateway_labels \<Rightarrow> str \<times> str \<times> str \<times> str \<times> u16" where
  "label_key l = (gl_route l, gl_provider l, gl_model l, gl_daemon_node l, gl_status l)"

definition less_eq_gateway_labels :: "gateway_labels \<Rightarrow> gateway_labels \<Rightarrow> bool" where
  "less_eq_gateway_labels a b \<longleftrightarrow> label_key a \<le> label_key b"

definition less_gateway_labels :: "gateway_labels \<Rightarrow> gateway_labels \<Rightarrow> bool" where
  "less_gateway_labels a b \<longleftrightarrow> label_key a < label_key b"

instance
  by standard (auto simp: less_eq_gateway_labels_def less_gateway_labels_def label_key_def
      gateway_labels.expand)

end

record gateway_observation =
  ob_route :: str
  ob_provider :: str
  ob_model :: str
  ob_daemon_node :: "str option"
  ob_status :: u16
  ob_usage :: token_usage
  ob_latency_ms :: u64
  ob_route_price :: route_price

definition normalize_label :: "str \<Rightarrow> str" where
  "normalize_label v = (let value = trim v in if value = [] then lit ''unknown'' else value)"

definition normalize_optional_label :: "str option \<Rightarrow> str" where
  "normalize_optional_label v = (case map_option normalize_label v of None \<Rightarrow> lit ''none'' | Some s \<Rightarrow> s)"

definition labels_of :: "gateway_observation \<Rightarrow> gateway_labels" where
  "labels_of ob = GatewayLabels (normalize_label (ob_route ob)) (normalize_label (ob_provider ob))
     (normalize_label (ob_model ob)) (normalize_optional_label (ob_daemon_node ob)) (ob_status ob)"

section \<open>The shard of a label set\<close>

definition METRIC_SHARDS :: nat where "METRIC_SHARDS = 16"
definition FNV_OFFSET_BASIS :: u64 where "FNV_OFFSET_BASIS = 0xcbf29ce484222325"
definition FNV_PRIME :: u64 where "FNV_PRIME = 0x00000100000001b3"

definition fnv1a :: "u64 \<Rightarrow> u8 list \<Rightarrow> u64" where
  "fnv1a h value = foldl (\<lambda>hash byte. xor hash (ucast byte) * FNV_PRIME) h value"

definition to_le_bytes :: "nat \<Rightarrow> 'a::len word \<Rightarrow> u8 list" where
  "to_le_bytes n w = map (\<lambda>i. ucast (drop_bit (8 * i) w)) [0..<n]"

definition fnv1a_len_prefixed :: "u64 \<Rightarrow> u8 list \<Rightarrow> u64" where
  "fnv1a_len_prefixed h value = fnv1a (fnv1a h (to_le_bytes 8 (of_nat (length value) :: u64))) value"

definition shard_index :: "gateway_labels \<Rightarrow> nat" where
  "shard_index l =
     (let h = fnv1a_len_prefixed FNV_OFFSET_BASIS (bytes (gl_route l));
          h = fnv1a_len_prefixed h (bytes (gl_provider l));
          h = fnv1a_len_prefixed h (bytes (gl_model l));
          h = fnv1a_len_prefixed h (bytes (gl_daemon_node l));
          h = fnv1a h (to_le_bytes 2 (gl_status l))
      in unat h mod METRIC_SHARDS)"

section \<open>Counters\<close>

definition LATENCY_BUCKETS_MS :: "u64 list" where
  "LATENCY_BUCKETS_MS = [50, 100, 250, 500, 1000, 2500, 5000]"

record metric_set =
  ms_requests :: u64
  ms_prompt_tokens :: u64
  ms_completion_tokens :: u64
  ms_total_tokens :: u64
  ms_credits :: i64
  ms_buckets :: "u64 list"
  ms_count :: u64
  ms_sum_ms :: u64

definition default_metric_set :: metric_set where
  "default_metric_set = \<lparr>ms_requests = 0, ms_prompt_tokens = 0, ms_completion_tokens = 0, ms_total_tokens = 0,
     ms_credits = 0, ms_buckets = map (\<lambda>_. 0) LATENCY_BUCKETS_MS, ms_count = 0, ms_sum_ms = 0\<rparr>"

definition observed_credits :: "gateway_observation \<Rightarrow> i64" where
  "observed_credits ob =
     (if is_success_status (unat (ob_status ob))
      then max 0 (charge_total (calculate_usage_charge (charge_input_of (ob_usage ob)) (ob_route_price ob)))
      else 0)"

definition observe_metrics :: "gateway_observation \<Rightarrow> metric_set \<Rightarrow> metric_set" where
  "observe_metrics ob m = m\<lparr>
     ms_requests := ms_requests m + 1,
     ms_prompt_tokens := ms_prompt_tokens m + prompt_tokens (ob_usage ob),
     ms_completion_tokens := ms_completion_tokens m + completion_tokens (ob_usage ob),
     ms_total_tokens := ms_total_tokens m + total_tokens (ob_usage ob),
     ms_credits := as_i64 (ms_credits m + observed_credits ob),
     ms_count := ms_count m + 1,
     ms_sum_ms := ms_sum_ms m + ob_latency_ms ob,
     ms_buckets := map2 (\<lambda>bucket n. if ob_latency_ms ob \<le> bucket then n + 1 else n) LATENCY_BUCKETS_MS (ms_buckets m)\<rparr>"

text \<open>\<open>entry(k).or_default()\<close> updated in place.\<close>

fun entry_update :: "'v \<Rightarrow> ('v \<Rightarrow> 'v) \<Rightarrow> 'k \<Rightarrow> ('k \<times> 'v) list \<Rightarrow> ('k \<times> 'v) list" where
  "entry_update z f k [] = [(k, f z)]"
| "entry_update z f k ((k', v) # xs) = (if k' = k then (k', f v) # xs else (k', v) # entry_update z f k xs)"

type_synonym metrics_registry = "(gateway_labels \<times> metric_set) list list"

definition default_registry :: metrics_registry where
  "default_registry = replicate METRIC_SHARDS []"

definition observe_gateway :: "gateway_observation \<Rightarrow> metrics_registry \<Rightarrow> metrics_registry" where
  "observe_gateway ob shards =
     (let labels = labels_of ob; i = shard_index labels in
      shards[i := entry_update default_metric_set (observe_metrics ob) labels (shards ! i)])"

definition snapshot :: "metrics_registry \<Rightarrow> (gateway_labels \<times> metric_set) list" where
  "snapshot shards = sort_key fst (concat shards)"

section \<open>Rendering\<close>

definition replace_char :: "uchar \<Rightarrow> str \<Rightarrow> str \<Rightarrow> str" where
  "replace_char c r s = concat (map (\<lambda>x. if x = c then r else [x]) s)"

definition escape_label :: "str \<Rightarrow> str" where
  "escape_label value = replace_char 10 [92, 110] (replace_char 34 [92, 34] (replace_char 92 [92, 92] value))"

definition quote :: str where "quote = [34]"

definition prometheus :: "gateway_labels \<Rightarrow> str" where
  "prometheus l =
     lit ''route='' @ quote @ escape_label (gl_route l) @ quote
     @ lit '',provider='' @ quote @ escape_label (gl_provider l) @ quote
     @ lit '',model='' @ quote @ escape_label (gl_model l) @ quote
     @ lit '',daemon_node='' @ quote @ escape_label (gl_daemon_node l) @ quote
     @ lit '',status='' @ quote @ show_nat (unat (gl_status l)) @ quote"

definition newline :: str where "newline = [10]"

definition series :: "str \<Rightarrow> str \<Rightarrow> str \<Rightarrow> str" where
  "series name labels value = name @ lit ''{'' @ labels @ lit ''} '' @ value @ newline"

definition help_and_type :: "string \<Rightarrow> string \<Rightarrow> string \<Rightarrow> str" where
  "help_and_type name help kind = lit ''# HELP '' @ lit name @ lit '' '' @ lit help @ newline
     @ lit ''# TYPE '' @ lit name @ lit '' '' @ lit kind @ newline"

definition append_counter ::
  "str \<Rightarrow> string \<Rightarrow> string \<Rightarrow> (gateway_labels \<times> metric_set) list \<Rightarrow> (metric_set \<Rightarrow> u64) \<Rightarrow> str" where
  "append_counter output name help stats value = output @ help_and_type name help ''counter''
     @ concat (map (\<lambda>(l, m). series (lit name) (prometheus l) (show_nat (unat (value m)))) stats)"

definition render_latency :: "gateway_labels \<times> metric_set \<Rightarrow> str" where
  "render_latency = (\<lambda>(l, m).
     concat (map2 (\<lambda>bucket n. series (lit ''mizan_gateway_latency_ms_bucket'')
         (prometheus l @ lit '',le='' @ quote @ show_nat (unat bucket) @ quote) (show_nat (unat n)))
       LATENCY_BUCKETS_MS (ms_buckets m))
     @ series (lit ''mizan_gateway_latency_ms_bucket'') (prometheus l @ lit '',le='' @ quote @ lit ''+Inf'' @ quote)
         (show_nat (unat (ms_count m)))
     @ series (lit ''mizan_gateway_latency_ms_sum'') (prometheus l) (show_nat (unat (ms_sum_ms m)))
     @ series (lit ''mizan_gateway_latency_ms_count'') (prometheus l) (show_nat (unat (ms_count m))))"

definition render_prometheus :: "metrics_registry \<Rightarrow> str" where
  "render_prometheus shards =
     (let stats = snapshot shards;
          output = append_counter [] ''mizan_gateway_requests_total''
            ''Gateway requests by route, provider, model, daemon node, and status.'' stats ms_requests;
          output = append_counter output ''mizan_gateway_prompt_tokens_total''
            ''Prompt tokens observed by the gateway.'' stats ms_prompt_tokens;
          output = append_counter output ''mizan_gateway_completion_tokens_total''
            ''Completion tokens observed by the gateway.'' stats ms_completion_tokens;
          output = append_counter output ''mizan_gateway_tokens_total''
            ''Total tokens observed by the gateway.'' stats ms_total_tokens
      in output
        @ help_and_type ''mizan_gateway_credits_charged_total'' ''Microcredits charged by the gateway.'' ''counter''
        @ concat (map (\<lambda>(l, m). series (lit ''mizan_gateway_credits_charged_total'') (prometheus l)
            (show_int (ms_credits m))) stats)
        @ help_and_type ''mizan_gateway_latency_ms'' ''Gateway latency in milliseconds.'' ''histogram''
        @ concat (map render_latency stats))"

section \<open>Sharded maps\<close>

lemma map_of_entry_update:
  "map_of (entry_update z f k xs) = (map_of xs)(k \<mapsto> f (case map_of xs k of None \<Rightarrow> z | Some v \<Rightarrow> v))"
  by (induction xs) auto

lemma keys_entry_update: "fst ` set (entry_update z f k xs) = insert k (fst ` set xs)"
proof (induction xs)
  case (Cons x xs)
  then show ?case by (cases x) (simp add: insert_commute insert_absorb)
qed simp

lemma distinct_entry_update: "distinct (map fst xs) \<Longrightarrow> distinct (map fst (entry_update z f k xs))"
  by (induction xs) (auto simp: keys_entry_update)

lemma distinct_keys_concat:
  assumes "\<And>i. i < length xss \<Longrightarrow> distinct (map fst (xss ! i)) \<and> (\<forall>k \<in> fst ` set (xss ! i). s k = c + i)"
  shows "distinct (map fst (concat xss)) \<and> (\<forall>k \<in> fst ` set (concat xss). c \<le> s k)"
  using assms
proof (induction xss arbitrary: c)
  case (Cons xs xss)
  have "distinct (map fst (concat xss)) \<and> (\<forall>k \<in> fst ` set (concat xss). Suc c \<le> s k)"
    by (rule Cons.IH) (use Cons.prems [of "Suc i" for i] in auto)
  moreover have "distinct (map fst xs)" "\<forall>k \<in> fst ` set xs. s k = c" using Cons.prems [of 0] by auto
  ultimately show ?case by fastforce
qed simp

text \<open>
  The contract of a sharded map: every key has one shard. Whatever the hash, the shards together are
  then one map, and an update through the shard of a key is an update of that map.
\<close>

locale sharding =
  fixes shard :: "'k \<Rightarrow> nat" and n :: nat
  assumes shard_lt: "shard k < n"
begin

definition well_sharded :: "('k \<times> 'v) list list \<Rightarrow> bool" where
  "well_sharded shards \<longleftrightarrow> length shards = n
     \<and> (\<forall>i < n. distinct (map fst (shards ! i)) \<and> (\<forall>k \<in> fst ` set (shards ! i). shard k = i))"

lemma well_sharded_empty: "well_sharded (replicate n [])"
  by (simp add: well_sharded_def)

lemma distinct_keys: "well_sharded shards \<Longrightarrow> distinct (map fst (concat shards))"
  using distinct_keys_concat [of shards shard 0] by (simp add: well_sharded_def)

lemma map_of_shards: "well_sharded shards \<Longrightarrow> map_of (concat shards) k = map_of (shards ! shard k) k"
proof -
  assume w: "well_sharded shards"
  have "(k, v) \<in> set (concat shards) \<longleftrightarrow> (k, v) \<in> set (shards ! shard k)" for v
    using w shard_lt [of k] unfolding well_sharded_def
    by (auto simp: in_set_conv_nth [of _ shards] intro: bexI [OF _ nth_mem]) (metis fst_conv)
  moreover have "distinct (map fst (shards ! shard k))" using w shard_lt [of k] by (simp add: well_sharded_def)
  ultimately have "map_of (concat shards) k = Some v \<longleftrightarrow> map_of (shards ! shard k) k = Some v" for v
    using distinct_keys [OF w] by (metis map_of_eq_Some_iff)
  then show ?thesis by (metis not_Some_eq)
qed

lemma well_sharded_update:
  "well_sharded shards \<Longrightarrow> well_sharded (shards[shard k := entry_update z f k (shards ! shard k)])"
  unfolding well_sharded_def length_list_update
proof (elim conjE, intro conjI allI impI)
  fix i
  assume "length shards = n" "i < n"
    and ok: "\<forall>i < n. distinct (map fst (shards ! i)) \<and> (\<forall>k \<in> fst ` set (shards ! i). shard k = i)"
  then have row: "shards[shard k := entry_update z f k (shards ! shard k)] ! i
      = (if i = shard k then entry_update z f k (shards ! i) else shards ! i)" by auto
  have old: "distinct (map fst (shards ! i))" "\<forall>k \<in> fst ` set (shards ! i). shard k = i" using ok \<open>i < n\<close> by blast+
  have new: "distinct (map fst (entry_update z f k (shards ! i)))"
    "\<forall>x \<in> fst ` set (entry_update z f k (shards ! i)). shard x = i" if "i = shard k"
    using old that by (auto simp only: distinct_entry_update keys_entry_update)
  show "distinct (map fst (shards[shard k := entry_update z f k (shards ! shard k)] ! i))"
    "\<forall>x \<in> fst ` set (shards[shard k := entry_update z f k (shards ! shard k)] ! i). shard x = i"
    unfolding row by (split if_split, use old new in blast)+
qed

lemma map_of_update:
  assumes w: "well_sharded shards"
  shows "map_of (concat (shards[shard k := entry_update z f k (shards ! shard k)]))
    = (map_of (concat shards))(k \<mapsto> f (case map_of (concat shards) k of None \<Rightarrow> z | Some v \<Rightarrow> v))"
proof
  fix x
  have "length shards = n" using w by (simp add: well_sharded_def)
  then show "map_of (concat (shards[shard k := entry_update z f k (shards ! shard k)])) x
    = ((map_of (concat shards))(k \<mapsto> f (case map_of (concat shards) k of None \<Rightarrow> z | Some v \<Rightarrow> v))) x"
    using shard_lt [of k]
    by (simp add: map_of_shards [OF well_sharded_update [OF w]] map_of_shards [OF w] nth_list_update
        map_of_entry_update)
qed

end

interpretation registry: sharding shard_index METRIC_SHARDS
  by standard (simp add: shard_index_def METRIC_SHARDS_def Let_def)

section \<open>What a registry holds\<close>

text \<open>The totals of a list of observations, without shards or maps.\<close>

definition totals :: "gateway_observation list \<Rightarrow> metric_set" where
  "totals obs = \<lparr>ms_requests = of_nat (length obs),
     ms_prompt_tokens = sum_list (map (\<lambda>ob. prompt_tokens (ob_usage ob)) obs),
     ms_completion_tokens = sum_list (map (\<lambda>ob. completion_tokens (ob_usage ob)) obs),
     ms_total_tokens = sum_list (map (\<lambda>ob. total_tokens (ob_usage ob)) obs),
     ms_credits = as_i64 (sum_list (map observed_credits obs)),
     ms_buckets = map (\<lambda>bucket. of_nat (length (filter (\<lambda>ob. ob_latency_ms ob \<le> bucket) obs))) LATENCY_BUCKETS_MS,
     ms_count = of_nat (length obs), ms_sum_ms = sum_list (map ob_latency_ms obs)\<rparr>"

definition observe_all :: "gateway_observation list \<Rightarrow> metrics_registry" where
  "observe_all obs = foldl (\<lambda>shards ob. observe_gateway ob shards) default_registry obs"

lemma as_i64_add: "as_i64 (as_i64 a + b) = as_i64 (a + b)"
proof -
  have "signed_take_bit 63 (signed_take_bit 63 a + b) = signed_take_bit 63 (signed_take_bit 63 (signed_take_bit 63 a) + signed_take_bit 63 b)"
    by (simp only: signed_take_bit_add)
  then show ?thesis unfolding as_i64_def by (simp add: signed_take_bit_add)
qed

lemma totals_Nil: "totals [] = default_metric_set"
  by (simp add: totals_def default_metric_set_def as_i64_def)

lemma totals_snoc: "totals (obs @ [ob]) = observe_metrics ob (totals obs)"
  by (auto simp: totals_def observe_metrics_def as_i64_add LATENCY_BUCKETS_MS_def)

lemma observe_all_map:
  "registry.well_sharded (observe_all obs)
   \<and> map_of (concat (observe_all obs)) l =
      (if l \<in> labels_of ` set obs then Some (totals (filter (\<lambda>ob. labels_of ob = l) obs)) else None)"
proof (induction obs arbitrary: l rule: rev_induct)
  case Nil
  have "map_of (concat (replicate k [])) l = None" for k and l :: gateway_labels by (induction k) auto
  then show ?case by (simp add: observe_all_def default_registry_def registry.well_sharded_empty)
next
  case (snoc ob obs)
  have w: "registry.well_sharded (observe_all obs)" using snoc by blast
  have s: "observe_all (obs @ [ob]) = observe_gateway ob (observe_all obs)" by (simp add: observe_all_def)
  have old: "(case map_of (concat (observe_all obs)) (labels_of ob) of None \<Rightarrow> default_metric_set | Some v \<Rightarrow> v)
      = totals (filter (\<lambda>x. labels_of x = labels_of ob) obs)"
  proof (cases "labels_of ob \<in> labels_of ` set obs")
    case False
    then have "filter (\<lambda>x. labels_of x = labels_of ob) obs = []" by (fastforce simp: filter_empty_conv image_iff)
    then show ?thesis using False by (simp add: conjunct2 [OF snoc] totals_Nil)
  qed (simp add: conjunct2 [OF snoc])
  show ?case
    unfolding s observe_gateway_def Let_def registry.map_of_update [OF w] old
    using registry.well_sharded_update [OF w] snoc [of l] by (auto simp: totals_snoc)
qed

lemma distinct_sort_key: "distinct (map f xs) \<Longrightarrow> distinct (map f (sort_key f xs))"
  by (induction xs) (simp_all add: distinct_insort_key)

section \<open>Escaping\<close>

definition escaped :: "uchar \<Rightarrow> str" where
  "escaped c = (if c = 92 then [92, 92] else if c = 34 then [92, 34] else if c = 10 then [92, 110] else [c])"

lemma replace_char_simps: "replace_char c r [] = []"
  "replace_char c r (x # s) = (if x = c then r else [x]) @ replace_char c r s"
  "replace_char c r (s @ t) = replace_char c r s @ replace_char c r t"
  by (simp_all add: replace_char_def)

lemma escape_label_escaped: "escape_label s = concat (map escaped s)"
  by (induction s) (simp_all add: escape_label_def replace_char_simps escaped_def)

lemma escape_label_ends:
  "escape_label a @ 34 # x = escape_label b @ 34 # y \<longleftrightarrow> a = b \<and> x = y"
proof (induction a arbitrary: b)
  case Nil
  then show ?case by (cases b) (auto simp: escape_label_escaped escaped_def)
next
  case (Cons c a)
  show ?case
  proof (cases b)
    case (Cons d b')
    have "escaped c @ u = escaped d @ v \<longleftrightarrow> c = d \<and> u = v" for u v by (auto simp: escaped_def)
    then show ?thesis using Cons.IH [of b'] by (auto simp: Cons escape_label_escaped)
  qed (auto simp: escape_label_escaped escaped_def)
qed

lemma prometheus_inject: "prometheus a = prometheus b \<longleftrightarrow> a = b"
proof -
  have "unat (gl_status a) = unat (gl_status b) \<longleftrightarrow> gl_status a = gl_status b"
    by (rule word_unat_eq_iff [symmetric])
  then show ?thesis
    by (cases a; cases b) (auto simp: prometheus_def quote_def escape_label_ends show_nat_inj)
qed

text \<open>C32. The registry is one map, however labels are hashed to shards: after any sequence of
  observations the snapshot holds exactly the label sets that were observed, once each and in their order,
  and with each the totals of its own observations: how many, their tokens, their credits (of the
  successful ones), and for each bucket how many were at most that slow. Sums are modulo \<open>2 ^ 64\<close>.
  Different label sets are rendered differently, whatever their texts hold.\<close>

theorem snapshot_is_totals_per_label:
  "snapshot (foldl (\<lambda>shards ob. observe_gateway ob shards) default_registry obs)
   = map (\<lambda>l. (l, totals (filter (\<lambda>ob. labels_of ob = l) obs))) (sort (remdups (map labels_of obs)))
   \<and> (prometheus a = prometheus b \<longleftrightarrow> a = b)"
proof -
  let ?all = "concat (observe_all obs)"
  have w: "registry.well_sharded (observe_all obs)" and m: "map_of ?all l =
      (if l \<in> labels_of ` set obs then Some (totals (filter (\<lambda>ob. labels_of ob = l) obs)) else None)" for l
    using observe_all_map by blast+
  have d: "distinct (map fst ?all)" by (rule registry.distinct_keys [OF w])
  have k: "fst ` set ?all = labels_of ` set obs"
    unfolding dom_map_of_conv_image_fst [symmetric] by (auto simp: dom_def m split: if_splits)
  have keys: "map fst (sort_key fst ?all) = sort (remdups (map labels_of obs))"
    by (rule sorted_distinct_set_unique) (use distinct_sort_key [OF d] k in \<open>simp_all del: set_concat\<close>)
  have v: "v = totals (filter (\<lambda>ob. labels_of ob = l) obs)" if "(l, v) \<in> set ?all" for l v
    using m [of l] that d k by (auto simp: map_of_eq_Some_iff [OF d, symmetric] split: if_splits)
  have "sort_key fst ?all = map (\<lambda>l. (l, totals (filter (\<lambda>ob. labels_of ob = l) obs))) (map fst (sort_key fst ?all))"
    unfolding map_map by (rule sym, rule map_idI) (use v [symmetric] in \<open>force simp del: set_concat\<close>)
  then show ?thesis unfolding keys by (simp add: snapshot_def observe_all_def prometheus_inject)
qed

end
