(* ===== verification/Config.thy ===== *)
theory Config
  imports Sql_Params Core_Error
begin

text \<open>
  The configuration read from the environment (crates/mizan-core/src/config.rs and database.rs) and
  how the pool is sized from it (crates/mizan-api/src/storage.rs). What the process sees is a
  \<open>process_env\<close>: its variables (unset, or not Unicode, is \<open>None\<close>), its working directory, and two functions of the
  standard library on texts, the parser of socket addresses and Unicode lower case.
\<close>

record process_env =
  vars :: "string \<Rightarrow> str option"
  current_dir :: "str + str"
  parse_socket_addr :: "str \<Rightarrow> str + str"
  to_lowercase :: "str \<Rightarrow> str"

record app_config =
  cf_http_addr :: str
  cf_database_backend :: database_backend
  cf_database_url :: str
  cf_database_max_connections :: u32
  cf_run_migrations :: bool
  cf_redis_url :: str
  cf_limit_rpm :: u32
  cf_limit_tpm :: u32
  cf_limit_concurrency :: u32
  cf_limit_window_seconds :: u32
  cf_limit_lease_seconds :: u32
  cf_log_level :: str
  cf_admin_seed_email :: "str option"
  cf_admin_seed_password :: "str option"
  cf_admin_seed_role :: str
  cf_provider_secret_key :: "str option"
  cf_log_raw_request_bodies :: bool
  cf_daemon_stale_seconds :: u32

definition DEFAULT_DATABASE_MAX_CONNECTIONS :: u32 where "DEFAULT_DATABASE_MAX_CONNECTIONS = 10"
definition DEFAULT_LIMIT_WINDOW_SECONDS :: u32 where "DEFAULT_LIMIT_WINDOW_SECONDS = 60"
definition DEFAULT_LIMIT_LEASE_SECONDS :: u32 where "DEFAULT_LIMIT_LEASE_SECONDS = 120"
definition DEFAULT_DAEMON_STALE_SECONDS :: u32 where "DEFAULT_DAEMON_STALE_SECONDS = 90"

section \<open>Values\<close>

text \<open>\<open>parse::<u32>\<close>: digits, after an optional plus sign, below \<open>2 ^ 32\<close>.\<close>

definition parse_u32 :: "str \<Rightarrow> u32 option" where
  "parse_u32 s = (case parse_nat (case s of c # cs \<Rightarrow> if c = 43 then cs else s | [] \<Rightarrow> []) of
      None \<Rightarrow> None
    | Some n \<Rightarrow> if n < 2 ^ 32 then Some (of_nat n) else None)"

definition parse_u32_env :: "string \<Rightarrow> str \<Rightarrow> u32 \<Rightarrow> app_error + u32" where
  "parse_u32_env key raw_value default_value =
     (let value = trim raw_value in
      if value = [] then Inr default_value
      else and_then (ok_or (InvalidConfig (lit key) (lit ''must be a positive integer'')) (parse_u32 value)) (\<lambda>parsed.
        if parsed = 0 \<and> 0 < default_value then Inl (InvalidConfig (lit key) (lit ''must be greater than zero''))
        else Inr parsed))"

definition u32_var :: "process_env \<Rightarrow> string \<Rightarrow> u32 \<Rightarrow> app_error + u32" where
  "u32_var e key default_value = (case vars e key of
      None \<Rightarrow> Inr default_value | Some value \<Rightarrow> parse_u32_env key value default_value)"

definition parse_bool_value :: "string \<Rightarrow> str \<Rightarrow> app_error + bool" where
  "parse_bool_value key raw_value =
     (let value = to_ascii_lowercase (trim raw_value) in
      if value \<in> lit ` {''1'', ''true'', ''t'', ''yes'', ''y'', ''on''} then Inr True
      else if value \<in> lit ` {''0'', ''false'', ''f'', ''no'', ''n'', ''off''} then Inr False
      else if value = [] then
        Inl (InvalidConfig (lit key) (lit ''expected a boolean value: true, false, 1, 0, yes, no''))
      else Inl (InvalidConfig (lit key) (lit ''invalid boolean value, use true|false|1|0|yes|no|on|off'')))"

definition var_or :: "process_env \<Rightarrow> string \<Rightarrow> string \<Rightarrow> str" where
  "var_or e key default_value = (case vars e key of None \<Rightarrow> lit default_value | Some value \<Rightarrow> value)"

definition parse_bool_env :: "process_env \<Rightarrow> string \<Rightarrow> string \<Rightarrow> (str \<Rightarrow> app_error + bool) \<Rightarrow> app_error + bool" where
  "parse_bool_env e key default_value parser = parser (var_or e key default_value)"

definition non_empty :: "str \<Rightarrow> str option" where
  "non_empty s = (if s = [] then None else Some s)"

section \<open>Database URLs\<close>

text \<open>\<open>PathBuf::join\<close>: an absolute path replaces, a relative one follows a separator.\<close>

definition path_join :: "str \<Rightarrow> str \<Rightarrow> str" where
  "path_join base path =
     (if starts_with path (lit ''/'') \<or> base = [] then path
      else if ends_with base (lit ''/'') then base @ path else base @ lit ''/'' @ path)"

definition is_sqlite_url :: "str \<Rightarrow> bool" where
  "is_sqlite_url url \<longleftrightarrow> starts_with url (lit ''sqlite://'') \<or> starts_with url (lit ''sqlite:'')"

definition without_scheme :: "str \<Rightarrow> str" where
  "without_scheme url = (case strip_prefix url (lit ''sqlite://'') of
      Some p \<Rightarrow> p
    | None \<Rightarrow> (case strip_prefix url (lit ''sqlite:'') of Some p \<Rightarrow> p | None \<Rightarrow> url))"

text \<open>\<open>splitn(2, '?')\<close>: the path and, after a question mark, the query.\<close>

definition url_path :: "str \<Rightarrow> str" where
  "url_path url = takeWhile (\<lambda>c. c \<noteq> 63) (without_scheme url)"

definition url_query :: "str \<Rightarrow> str option" where
  "url_query url = (case dropWhile (\<lambda>c. c \<noteq> 63) (without_scheme url) of [] \<Rightarrow> None | _ # q \<Rightarrow> Some q)"

definition normalize_sqlite_url :: "process_env \<Rightarrow> str \<Rightarrow> app_error + str" where
  "normalize_sqlite_url e database_url =
     (if \<not> is_sqlite_url database_url then Inr database_url
      else if url_path database_url = lit '':memory:'' \<or> url_path database_url = lit ''file::memory:'' then Inr database_url
      else and_then
        (if starts_with (url_path database_url) (lit ''/'') then Inr (url_path database_url)
         else and_then (map_err Infrastructure (current_dir e)) (\<lambda>dir. Inr (path_join dir (url_path database_url)))) (\<lambda>path.
        Inr (lit ''sqlite://'' @ path @ (case url_query database_url of
            Some q \<Rightarrow> if q = [] then [] else lit ''?'' @ q
          | None \<Rightarrow> lit ''?mode=rwc''))))"

definition from_url :: "str \<Rightarrow> app_error + database_backend" where
  "from_url value =
     (if starts_with value (lit ''sqlite:'') then Inr Sqlite
      else if starts_with value (lit ''postgres://'') \<or> starts_with value (lit ''postgresql://'') then Inr Postgres
      else Inl (InvalidConfig (lit ''DATABASE_URL'') (lit ''unsupported database URL scheme: '' @ value)))"

definition is_sqlite_in_memory :: "str \<Rightarrow> bool" where
  "is_sqlite_in_memory database_url \<longleftrightarrow> is_sqlite_url database_url
     \<and> (url_path database_url = lit '':memory:'' \<or> url_path database_url = lit ''file::memory:'')"

text \<open>The size of the pool that \<open>connect_and_migrate\<close> opens.\<close>

definition pool_connections :: "str \<Rightarrow> u32 \<Rightarrow> u32" where
  "pool_connections database_url max_connections =
     (if is_sqlite_in_memory database_url then 1 else max max_connections 1)"

section \<open>The configuration\<close>

definition default_database_url :: "process_env \<Rightarrow> str" where
  "default_database_url e = lit ''sqlite://'' @ path_join (path_join
     (case current_dir e of Inl _ \<Rightarrow> lit ''.'' | Inr dir \<Rightarrow> dir) (lit ''data'')) (lit ''mizan.sqlite3'') @ lit ''?mode=rwc''"

definition seed_text :: "process_env \<Rightarrow> string \<Rightarrow> (str \<Rightarrow> str) \<Rightarrow> str option" where
  "seed_text e key f = Option.bind (vars e key) (\<lambda>value. non_empty (f (trim value)))"

definition from_env :: "process_env \<Rightarrow> app_error + app_config" where
  "from_env e =
     and_then (map_err (Config (lit ''MIZAN_HTTP_ADDR''))
       (parse_socket_addr e (var_or e ''MIZAN_HTTP_ADDR'' ''0.0.0.0:18180''))) (\<lambda>http_addr.
     and_then (normalize_sqlite_url e (case vars e ''DATABASE_URL'' of Some u \<Rightarrow> u | None \<Rightarrow> default_database_url e))
       (\<lambda>database_url.
     let admin_seed_email = seed_text e ''MIZAN_ADMIN_EMAIL'' (to_lowercase e);
         admin_seed_password = seed_text e ''MIZAN_ADMIN_PASSWORD'' (\<lambda>s. s);
         role = to_lowercase e (trim (var_or e ''MIZAN_ADMIN_ROLE'' ''admin''));
         admin_seed_role = (if role = [] then lit ''admin'' else role);
         provider_secret_key = seed_text e ''MIZAN_PROVIDER_SECRET_KEY'' (\<lambda>s. s) in
     if (admin_seed_email = None) = (admin_seed_password = None) then
       and_then (u32_var e ''MIZAN_DB_MAX_CONNECTIONS'' DEFAULT_DATABASE_MAX_CONNECTIONS) (\<lambda>max_connections.
       and_then (from_url database_url) (\<lambda>backend.
       and_then (parse_bool_env e ''MIZAN_RUN_MIGRATIONS'' ''true'' (parse_bool_value ''MIZAN_RUN_MIGRATIONS''))
         (\<lambda>run_migrations.
       and_then (u32_var e ''MIZAN_LIMIT_RPM'' 0) (\<lambda>rpm.
       and_then (u32_var e ''MIZAN_LIMIT_TPM'' 0) (\<lambda>tpm.
       and_then (u32_var e ''MIZAN_LIMIT_CONCURRENCY'' 0) (\<lambda>concurrency.
       and_then (u32_var e ''MIZAN_LIMIT_WINDOW_SECONDS'' DEFAULT_LIMIT_WINDOW_SECONDS) (\<lambda>window.
       and_then (u32_var e ''MIZAN_LIMIT_LEASE_SECONDS'' DEFAULT_LIMIT_LEASE_SECONDS) (\<lambda>lease.
       and_then (parse_bool_env e ''MIZAN_LOG_RAW_REQUEST_BODIES'' ''false''
         (parse_bool_value ''MIZAN_LOG_RAW_REQUEST_BODIES'')) (\<lambda>raw_bodies.
       and_then (u32_var e ''MIZAN_DAEMON_STALE_SECONDS'' DEFAULT_DAEMON_STALE_SECONDS) (\<lambda>stale.
       Inr \<lparr>cf_http_addr = http_addr, cf_database_backend = backend, cf_database_url = database_url,
         cf_database_max_connections = max_connections, cf_run_migrations = run_migrations,
         cf_redis_url = var_or e ''REDIS_URL'' ''redis://127.0.0.1:6379/'', cf_limit_rpm = rpm, cf_limit_tpm = tpm,
         cf_limit_concurrency = concurrency, cf_limit_window_seconds = window, cf_limit_lease_seconds = lease,
         cf_log_level = var_or e ''RUST_LOG'' ''mizan=info,tower_http=info'', cf_admin_seed_email = admin_seed_email,
         cf_admin_seed_password = admin_seed_password, cf_admin_seed_role = admin_seed_role,
         cf_provider_secret_key = provider_secret_key, cf_log_raw_request_bodies = raw_bodies,
         cf_daemon_stale_seconds = stale\<rparr>))))))))))
     else Inl (InvalidConfig (lit ''MIZAN_ADMIN_EMAIL'')
       (lit ''set both MIZAN_ADMIN_EMAIL and MIZAN_ADMIN_PASSWORD, or set neither''))))"

section \<open>What an accepted configuration promises\<close>

text \<open>The value of a numeric setting: the default when it is unset or blank, else the number written.\<close>

definition setting :: "process_env \<Rightarrow> string \<Rightarrow> u32 \<Rightarrow> u32 \<Rightarrow> bool" where
  "setting e key d n \<longleftrightarrow> (case vars e key of
      None \<Rightarrow> n = d | Some v \<Rightarrow> if trim v = [] then n = d else parse_u32 (trim v) = Some n)"

lemma u32_var_setting: "u32_var e key d = Inr n \<Longrightarrow> setting e key d n"
  by (auto simp: setting_def u32_var_def parse_u32_env_def and_then_Inr Let_def split: option.splits if_splits)

lemma u32_var_pos: "u32_var e key d = Inr n \<Longrightarrow> 0 < d \<Longrightarrow> 0 < n"
  by (auto simp: u32_var_def parse_u32_env_def and_then_Inr Let_def word_neq_0_conv split: option.splits if_splits)

lemma seed_text_not_blank: "seed_text e key f \<noteq> Some []"
  by (auto simp: seed_text_def non_empty_def bind_eq_Some_conv split: if_splits)

lemma is_sqlite_url_iff: "is_sqlite_url url \<longleftrightarrow> starts_with url (lit ''sqlite:'')"
proof -
  have "lit ''sqlite://'' = lit ''sqlite:'' @ lit ''//''" by (simp add: lit_def)
  then show ?thesis by (auto simp: is_sqlite_url_def starts_with_iff)
qed

lemma from_url_backend: "from_url url = Inr b \<Longrightarrow> b = Sqlite \<longleftrightarrow> is_sqlite_url url"
  by (auto simp: from_url_def is_sqlite_url_iff split: if_splits)

lemma accepted_if: "(if ok then r else Inl e) = Inr c \<longleftrightarrow> ok \<and> r = Inr c"
  by simp

text \<open>C36. A configuration that is accepted is usable: windows, leases, staleness and the pool are
  positive, every numeric setting is the number that was written or the default, the seed account has
  both an address and a password or neither, no secret is blank, the backend is the one of the
  URL, and a database in memory is opened through exactly one connection.\<close>

theorem accepted_config_is_usable:
  assumes "from_env e = Inr c"
  shows "0 < cf_limit_window_seconds c \<and> 0 < cf_limit_lease_seconds c \<and> 0 < cf_daemon_stale_seconds c
    \<and> 0 < cf_database_max_connections c
    \<and> setting e ''MIZAN_LIMIT_RPM'' 0 (cf_limit_rpm c) \<and> setting e ''MIZAN_LIMIT_TPM'' 0 (cf_limit_tpm c)
    \<and> setting e ''MIZAN_LIMIT_CONCURRENCY'' 0 (cf_limit_concurrency c)
    \<and> setting e ''MIZAN_LIMIT_WINDOW_SECONDS'' 60 (cf_limit_window_seconds c)
    \<and> setting e ''MIZAN_LIMIT_LEASE_SECONDS'' 120 (cf_limit_lease_seconds c)
    \<and> setting e ''MIZAN_DAEMON_STALE_SECONDS'' 90 (cf_daemon_stale_seconds c)
    \<and> setting e ''MIZAN_DB_MAX_CONNECTIONS'' 10 (cf_database_max_connections c)
    \<and> (cf_admin_seed_email c = None \<longleftrightarrow> cf_admin_seed_password c = None)
    \<and> cf_admin_seed_email c \<noteq> Some [] \<and> cf_admin_seed_password c \<noteq> Some [] \<and> cf_provider_secret_key c \<noteq> Some []
    \<and> cf_admin_seed_role c \<noteq> []
    \<and> (cf_database_backend c = Sqlite \<longleftrightarrow> is_sqlite_url (cf_database_url c))
    \<and> 0 < pool_connections (cf_database_url c) (cf_database_max_connections c)
    \<and> (if is_sqlite_in_memory (cf_database_url c) then pool_connections (cf_database_url c) (cf_database_max_connections c) = 1
       else pool_connections (cf_database_url c) (cf_database_max_connections c) = cf_database_max_connections c)"
proof -
  note defaults = DEFAULT_LIMIT_WINDOW_SECONDS_def DEFAULT_LIMIT_LEASE_SECONDS_def
    DEFAULT_DAEMON_STALE_SECONDS_def DEFAULT_DATABASE_MAX_CONNECTIONS_def
  have parts: "u32_var e ''MIZAN_LIMIT_RPM'' 0 = Inr (cf_limit_rpm c)
    \<and> u32_var e ''MIZAN_LIMIT_TPM'' 0 = Inr (cf_limit_tpm c)
    \<and> u32_var e ''MIZAN_LIMIT_CONCURRENCY'' 0 = Inr (cf_limit_concurrency c)
    \<and> u32_var e ''MIZAN_LIMIT_WINDOW_SECONDS'' 60 = Inr (cf_limit_window_seconds c)
    \<and> u32_var e ''MIZAN_LIMIT_LEASE_SECONDS'' 120 = Inr (cf_limit_lease_seconds c)
    \<and> u32_var e ''MIZAN_DAEMON_STALE_SECONDS'' 90 = Inr (cf_daemon_stale_seconds c)
    \<and> u32_var e ''MIZAN_DB_MAX_CONNECTIONS'' 10 = Inr (cf_database_max_connections c)
    \<and> cf_admin_seed_email c = seed_text e ''MIZAN_ADMIN_EMAIL'' (to_lowercase e)
    \<and> cf_admin_seed_password c = seed_text e ''MIZAN_ADMIN_PASSWORD'' (\<lambda>s. s)
    \<and> cf_provider_secret_key c = seed_text e ''MIZAN_PROVIDER_SECRET_KEY'' (\<lambda>s. s)
    \<and> (cf_admin_seed_email c = None \<longleftrightarrow> cf_admin_seed_password c = None)
    \<and> cf_admin_seed_role c \<noteq> []
    \<and> from_url (cf_database_url c) = Inr (cf_database_backend c)"
    using assms unfolding from_env_def Let_def and_then_Inr accepted_if defaults
    by (elim exE conjE) (drule Inr_inject, hypsubst, simp)
  then have n: "u32_var e ''MIZAN_LIMIT_RPM'' 0 = Inr (cf_limit_rpm c)"
    "u32_var e ''MIZAN_LIMIT_TPM'' 0 = Inr (cf_limit_tpm c)"
    "u32_var e ''MIZAN_LIMIT_CONCURRENCY'' 0 = Inr (cf_limit_concurrency c)"
    "u32_var e ''MIZAN_LIMIT_WINDOW_SECONDS'' 60 = Inr (cf_limit_window_seconds c)"
    "u32_var e ''MIZAN_LIMIT_LEASE_SECONDS'' 120 = Inr (cf_limit_lease_seconds c)"
    "u32_var e ''MIZAN_DAEMON_STALE_SECONDS'' 90 = Inr (cf_daemon_stale_seconds c)"
    "u32_var e ''MIZAN_DB_MAX_CONNECTIONS'' 10 = Inr (cf_database_max_connections c)"
    and r: "cf_admin_seed_email c = seed_text e ''MIZAN_ADMIN_EMAIL'' (to_lowercase e)"
    "cf_admin_seed_password c = seed_text e ''MIZAN_ADMIN_PASSWORD'' (\<lambda>s. s)"
    "cf_provider_secret_key c = seed_text e ''MIZAN_PROVIDER_SECRET_KEY'' (\<lambda>s. s)"
    "cf_admin_seed_email c = None \<longleftrightarrow> cf_admin_seed_password c = None"
    "cf_admin_seed_role c \<noteq> []"
    "from_url (cf_database_url c) = Inr (cf_database_backend c)"
    by blast+
  have pos: "0 < cf_limit_window_seconds c" "0 < cf_limit_lease_seconds c" "0 < cf_daemon_stale_seconds c"
    "0 < cf_database_max_connections c"
    using n(4-7) [THEN u32_var_pos] by simp_all
  show ?thesis
    using pos n [THEN u32_var_setting] r(4,5) from_url_backend [OF r(6)]
    by (simp add: r(1-3) seed_text_not_blank pool_connections_def max_absorb1 inc_le [of 0, simplified])
qed

definition sample_env :: process_env where
  "sample_env = \<lparr>vars = (\<lambda>key. if key = ''MIZAN_LIMIT_RPM'' then Some (lit '' +30 '')
       else if key = ''DATABASE_URL'' then Some (lit ''sqlite::memory:'') else None),
     current_dir = Inr (lit ''/srv''), parse_socket_addr = Inr, to_lowercase = to_ascii_lowercase\<rparr>"

lemma sample_env_accepted:
  "case from_env sample_env of Inl _ \<Rightarrow> False | Inr c \<Rightarrow> cf_limit_rpm c = 30 \<and> is_sqlite_in_memory (cf_database_url c)"
proof -
  have url: "normalize_sqlite_url sample_env (lit ''sqlite::memory:'') = Inr (lit ''sqlite::memory:'')"
    "from_url (lit ''sqlite::memory:'') = Inr Sqlite" "is_sqlite_in_memory (lit ''sqlite::memory:'')"
    by (simp_all add: normalize_sqlite_url_def from_url_def is_sqlite_in_memory_def is_sqlite_url_def url_path_def
        without_scheme_def strip_prefix_def starts_with_def lit_def)
  have v: "vars sample_env ''MIZAN_LIMIT_RPM'' = Some (lit '' +30 '')" "vars sample_env ''DATABASE_URL'' = Some (lit ''sqlite::memory:'')"
    "key \<notin> {''MIZAN_LIMIT_RPM'', ''DATABASE_URL''} \<Longrightarrow> vars sample_env key = None" for key
    by (auto simp: sample_env_def)
  have "trim (lit '' +30 '') = lit ''+30''"
    by (simp add: trim_def trim_start_def trim_end_def lit_def is_whitespace_def)
  then have rpm: "u32_var sample_env ''MIZAN_LIMIT_RPM'' 0 = Inr 30"
    by (simp add: v u32_var_def parse_u32_env_def parse_u32_def parse_nat_def lit_def [of "''+30''"])
  have t: "trim (lit ''true'') = lit ''true''" "trim (lit ''false'') = lit ''false''"
    by (simp_all add: trim_def trim_start_def trim_end_def lit_def is_whitespace_def)
  have b: "parse_bool_value key (lit ''true'') = Inr True" "parse_bool_value key (lit ''false'') = Inr False" for key
    unfolding parse_bool_value_def t by (simp_all add: to_ascii_lowercase_def ascii_lower_def lit_def)
  have u: "u32_var sample_env key d = Inr d" if "key \<notin> {''MIZAN_LIMIT_RPM'', ''DATABASE_URL''}" for key d
    using v(3) [OF that] by (simp add: u32_var_def)
  have s: "parse_socket_addr sample_env a = Inr a" for a by (simp add: sample_env_def)
  show ?thesis
    by (simp add: from_env_def s v url rpm u b parse_bool_env_def var_or_def seed_text_def Let_def)
qed

theorem accepted_config_is_usable_witness:
  "\<exists>c. from_env sample_env = Inr c \<and> cf_limit_rpm c = 30
     \<and> pool_connections (cf_database_url c) (cf_database_max_connections c) = 1"
proof -
  obtain c where c: "from_env sample_env = Inr c" "cf_limit_rpm c = 30" "is_sqlite_in_memory (cf_database_url c)"
    using sample_env_accepted by (cases "from_env sample_env") auto
  then show ?thesis using accepted_config_is_usable [OF c(1)] by auto
qed

end
