(* ===== verification/Upstream.thy ===== *)
theory Upstream
  imports Sse Redaction
begin

text \<open>
  The request context (crates/mizan-core/src/context.rs), the gateway facade
  (crates/mizan-gateway/src/lib.rs) and the OpenAI-compatible provider it calls
  (crates/mizan-providers/src/lib.rs): the request that is sent, the answer that is read, and the
  errors in between. The HTTP client and \<open>serde_json\<close> are parameters (\<open>upstream\<close>); the client's answers are
  numbered by the calls that were made.
\<close>

section \<open>Request context\<close>

record request_context =
  rx_request_id :: uuid
  rx_trace_id :: uuid
  rx_user_id :: "uuid option"
  rx_api_key_id :: "uuid option"
  rx_provider :: "str option"
  rx_provider_id :: "uuid option"
  rx_route :: "str option"
  rx_route_id :: "uuid option"
  rx_method :: "str option"
  rx_path :: "str option"
  rx_model :: "str option"
  rx_streaming :: bool

text \<open>\<open>RequestContext::new\<close> with the identifier it draws, and the builder's methods.\<close>

definition new_context :: "uuid \<Rightarrow> request_context" where
  "new_context request_id = \<lparr>rx_request_id = request_id, rx_trace_id = request_id, rx_user_id = None,
     rx_api_key_id = None, rx_provider = None, rx_provider_id = None, rx_route = None, rx_route_id = None,
     rx_method = None, rx_path = None, rx_model = None, rx_streaming = False\<rparr>"

definition set_request_id :: "uuid \<Rightarrow> request_context \<Rightarrow> request_context" where
  "set_request_id v c = c\<lparr>rx_request_id := v\<rparr>"

definition set_trace_id :: "uuid \<Rightarrow> request_context \<Rightarrow> request_context" where
  "set_trace_id v c = c\<lparr>rx_trace_id := v\<rparr>"

definition set_user_id :: "uuid \<Rightarrow> request_context \<Rightarrow> request_context" where
  "set_user_id v c = c\<lparr>rx_user_id := Some v\<rparr>"

definition set_api_key_id :: "uuid \<Rightarrow> request_context \<Rightarrow> request_context" where
  "set_api_key_id v c = c\<lparr>rx_api_key_id := Some v\<rparr>"

definition set_provider :: "str \<Rightarrow> request_context \<Rightarrow> request_context" where
  "set_provider v c = c\<lparr>rx_provider := Some v\<rparr>"

definition set_provider_id :: "uuid \<Rightarrow> request_context \<Rightarrow> request_context" where
  "set_provider_id v c = c\<lparr>rx_provider_id := Some v\<rparr>"

definition set_route :: "str \<Rightarrow> request_context \<Rightarrow> request_context" where
  "set_route v c = c\<lparr>rx_route := Some v\<rparr>"

definition set_route_id :: "uuid \<Rightarrow> request_context \<Rightarrow> request_context" where
  "set_route_id v c = c\<lparr>rx_route_id := Some v\<rparr>"

definition set_method :: "str \<Rightarrow> request_context \<Rightarrow> request_context" where
  "set_method v c = c\<lparr>rx_method := Some v\<rparr>"

definition set_path :: "str \<Rightarrow> request_context \<Rightarrow> request_context" where
  "set_path v c = c\<lparr>rx_path := Some v\<rparr>"

definition set_model :: "str \<Rightarrow> request_context \<Rightarrow> request_context" where
  "set_model v c = c\<lparr>rx_model := Some v\<rparr>"

definition set_streaming :: "bool \<Rightarrow> request_context \<Rightarrow> request_context" where
  "set_streaming v c = c\<lparr>rx_streaming := v\<rparr>"

section \<open>The provider\<close>

record openai_provider =
  op_name :: str
  op_base_url :: str
  op_api_key :: "str option"

definition trim_end_matches :: "uchar \<Rightarrow> str \<Rightarrow> str" where
  "trim_end_matches c s = rev (dropWhile (\<lambda>x. x = c) (rev s))"

definition with_optional_api_key :: "str \<Rightarrow> str \<Rightarrow> str option \<Rightarrow> openai_provider" where
  "with_optional_api_key name base_url api_key = \<lparr>op_name = name,
     op_base_url = trim_end_matches 47 (trim base_url),
     op_api_key = (case map_option trim api_key of
         None \<Rightarrow> None | Some v \<Rightarrow> if v = [] then None else Some v)\<rparr>"

definition new_provider :: "str \<Rightarrow> str \<Rightarrow> str \<Rightarrow> openai_provider" where
  "new_provider name base_url api_key = with_optional_api_key name base_url (Some api_key)"

definition chat_completion_url :: "openai_provider \<Rightarrow> str" where
  "chat_completion_url p =
     (if ends_with (op_base_url p) (lit ''/v1'') then op_base_url p @ lit ''/chat/completions''
      else op_base_url p @ lit ''/v1/chat/completions'')"

record openai_payload =
  pl_model :: str
  pl_messages :: "chat_message list"
  pl_stream :: bool
  pl_max_tokens :: "u64 option"

record http_request =
  hr_url :: str
  hr_headers :: "(str \<times> str) list"
  hr_payload :: openai_payload

record http_reply =
  hp_status :: nat
  hp_status_text :: str
  hp_text :: "str + str"
  hp_pieces :: "(str + u8 list) list"

record openai_message =
  om_content :: "str option"

record openai_choice =
  oh_message :: "openai_message option"

record openai_response =
  or_model :: "str option"
  or_choices :: "openai_choice list"
  or_usage :: "openai_usage option"

record upstream =
  up_send :: "nat \<Rightarrow> http_request \<Rightarrow> str + http_reply"
  up_decode :: "str \<Rightarrow> str + openai_response"

definition with_api_request_headers :: "openai_provider \<Rightarrow> str \<Rightarrow> (str \<times> str) list" where
  "with_api_request_headers p request_id =
     [(lit ''content-type'', lit ''application/json''), (lit ''x-request-id'', request_id)]
     @ (case op_api_key p of None \<Rightarrow> [] | Some api_key \<Rightarrow> [(lit ''authorization'', lit ''Bearer '' @ api_key)])"

definition send_chat_completion_request ::
  "upstream \<Rightarrow> nat \<Rightarrow> openai_provider \<Rightarrow> request_context \<Rightarrow> chat_request \<Rightarrow> bool \<Rightarrow> app_error + http_reply" where
  "send_chat_completion_request u n p ctx request stream =
     and_then (map_err (infra ''upstream request failed: '') (up_send u n
        \<lparr>hr_url = chat_completion_url p, hr_headers = with_api_request_headers p (rx_request_id ctx),
         hr_payload = \<lparr>pl_model = cr_model request, pl_messages = cr_messages request, pl_stream = stream,
           pl_max_tokens = cr_max_tokens request\<rparr>\<rparr>)) (\<lambda>reply.
     if \<not> is_success_status (hp_status reply) then
       Inl (app_error.Provider (redact_for_logs (lit ''upstream provider returned status='' @ hp_status_text reply
         @ lit '' body='' @ (case hp_text reply of Inl _ \<Rightarrow> lit ''<failed to read upstream body>'' | Inr b \<Rightarrow> b))))
     else Inr reply)"

definition parse_chat_completion_response ::
  "upstream \<Rightarrow> str \<Rightarrow> str \<Rightarrow> str \<Rightarrow> app_error + chat_response" where
  "parse_chat_completion_response u raw_body model provider_name =
     and_then (map_err (infra ''failed to decode upstream chat completion response: '') (up_decode u raw_body)) (\<lambda>r.
     case or_choices r of
       [] \<Rightarrow> Inl (app_error.Provider (lit ''upstream chat completion response returned no choices''))
     | first_choice # _ \<Rightarrow> Inr \<lparr>cs_provider = provider_name,
         cs_model = (case or_model r of Some m \<Rightarrow> m | None \<Rightarrow> model),
         cs_content = (case Option.bind (oh_message first_choice) om_content of Some c \<Rightarrow> c | None \<Rightarrow> []),
         cs_usage = map_option normalize_usage (or_usage r)\<rparr>)"

definition provider_chat_completions ::
  "upstream \<Rightarrow> nat \<Rightarrow> openai_provider \<Rightarrow> request_context \<Rightarrow> chat_request \<Rightarrow> app_error + chat_response" where
  "provider_chat_completions u n p ctx request =
     and_then (send_chat_completion_request u n p ctx request False) (\<lambda>reply.
     and_then (map_err (infra ''upstream chat completion response read failed: '') (hp_text reply)) (\<lambda>raw.
     parse_chat_completion_response u raw (cr_model request) (op_name p)))"

definition provider_chat_completions_stream ::
  "upstream \<Rightarrow> nat \<Rightarrow> openai_provider \<Rightarrow> request_context \<Rightarrow> chat_request \<Rightarrow> app_error + sse_state" where
  "provider_chat_completions_stream u n p ctx request =
     and_then (send_chat_completion_request u n p ctx request True) (\<lambda>reply. Inr (new_sse_state (hp_pieces reply)))"

text \<open>What the adapter answers about itself, and what the trait \<open>ProviderAdapter\<close> gives an adapter that does not stream: the
  whole answer as one chunk. The handlers call none of these.\<close>

record provider_model =
  prm_id :: str
  prm_display_name :: "str option"

record provider_health =
  ph_status :: string
  ph_latency_ms :: "u64 option"

definition unknown_health :: provider_health where
  "unknown_health = \<lparr>ph_status = ''unknown'', ph_latency_ms = None\<rparr>"

definition provider_models :: "request_context \<Rightarrow> app_error + provider_model list" where
  "provider_models ctx = Inr []"

definition provider_health_of :: "request_context \<Rightarrow> app_error + provider_health" where
  "provider_health_of ctx = Inr \<lparr>ph_status = ''ok'', ph_latency_ms = None\<rparr>"

definition default_chat_completions_stream :: "app_error + chat_response \<Rightarrow> app_error + chat_stream_chunk list" where
  "default_chat_completions_stream answer = and_then answer (\<lambda>response.
     Inr [\<lparr>ck_index = 0, ck_delta = cs_content response, ck_finish_reason = Some (lit ''stop''), ck_usage = cs_usage response\<rparr>])"

lemma default_stream_is_the_answer:
  "default_chat_completions_stream (Inr response) = Inr cs \<Longrightarrow> concat (map ck_delta cs) = cs_content response"
  by (auto simp: default_chat_completions_stream_def)

text \<open>The facade hands the call to the adapter.\<close>

definition gateway_health :: string where
  "gateway_health = ''ok''"

definition gateway_chat_completions ::
  "upstream \<Rightarrow> nat \<Rightarrow> request_context \<Rightarrow> openai_provider \<Rightarrow> chat_request \<Rightarrow> app_error + chat_response" where
  "gateway_chat_completions u n ctx p request = provider_chat_completions u n p ctx request"

definition gateway_chat_completions_stream ::
  "upstream \<Rightarrow> nat \<Rightarrow> request_context \<Rightarrow> openai_provider \<Rightarrow> chat_request \<Rightarrow> app_error + sse_state" where
  "gateway_chat_completions_stream u n ctx p request = provider_chat_completions_stream u n p ctx request"

end
