(* ===== verification/Gateway_Core.thy ===== *)
theory Gateway_Core
  imports Upstream Config Limits Dispatch Metrics Providers "HOL-Library.State_Monad"
begin

text \<open>
  What the two halves of the gateway share (crates/mizan-api/src/gateway.rs): its requests and
  responses, the state it works on, the log of a request, runtime limits, metrics, and the treatment of
  provider errors.

  A handler never fails: it is a computation of \<open>State_Monad\<close> on \<open>gateway_state\<close>, which holds the tables, the
  limiter, the metrics, and the tasks that were spawned and run later: the insertion of a request log and
  the release of a lease. \<open>gs_calls\<close> numbers the answers of the outside (elapsed time, upstream,
  blocking tasks), which are functions in the \<open>gateway_env\<close>.
\<close>

section \<open>Requests and responses\<close>

definition CHAT_COMPLETIONS_PATH :: str where "CHAT_COMPLETIONS_PATH = lit ''/v1/chat/completions''"
definition RESPONSES_PATH :: str where "RESPONSES_PATH = lit ''/v1/responses''"
definition CHAT_COMPLETIONS_MODEL_FIELD :: string where "CHAT_COMPLETIONS_MODEL_FIELD = ''chat_completion.model''"
definition CHAT_COMPLETIONS_STREAM_FIELD :: string where "CHAT_COMPLETIONS_STREAM_FIELD = ''chat_completion.stream''"
definition CHAT_COMPLETIONS_MAX_TOKENS_FIELD :: string where
  "CHAT_COMPLETIONS_MAX_TOKENS_FIELD = ''chat_completion.max_tokens''"
definition RESPONSES_MODEL_FIELD :: string where "RESPONSES_MODEL_FIELD = ''responses.model''"
definition RESPONSES_STREAM_FIELD :: string where "RESPONSES_STREAM_FIELD = ''responses.stream''"
definition RESPONSES_MAX_TOKENS_FIELD :: string where "RESPONSES_MAX_TOKENS_FIELD = ''responses.max_tokens''"
definition PROVIDER_AUTH_MODE_API_KEY :: str where "PROVIDER_AUTH_MODE_API_KEY = lit ''api_key''"

record request_spec =
  sp_path :: str
  sp_kind :: string
  sp_model_field :: string
  sp_stream_field :: string
  sp_max_tokens_field :: string
  sp_allow_stream :: bool

definition CHAT_COMPLETIONS_SPEC :: request_spec where
  "CHAT_COMPLETIONS_SPEC = \<lparr>sp_path = CHAT_COMPLETIONS_PATH, sp_kind = ''chat_completion'',
     sp_model_field = CHAT_COMPLETIONS_MODEL_FIELD, sp_stream_field = CHAT_COMPLETIONS_STREAM_FIELD,
     sp_max_tokens_field = CHAT_COMPLETIONS_MAX_TOKENS_FIELD, sp_allow_stream = True\<rparr>"

definition RESPONSES_SPEC :: request_spec where
  "RESPONSES_SPEC = \<lparr>sp_path = RESPONSES_PATH, sp_kind = ''responses'',
     sp_model_field = RESPONSES_MODEL_FIELD, sp_stream_field = RESPONSES_STREAM_FIELD,
     sp_max_tokens_field = RESPONSES_MAX_TOKENS_FIELD, sp_allow_stream = False\<rparr>"

record chat_completions_request =
  pq_model :: str
  pq_messages :: "chat_message list"
  pq_stream :: bool
  pq_max_tokens :: "u64 option"

record completion_choice =
  hc_index :: nat
  hc_message :: chat_message
  hc_finish_reason :: str

record completion_usage =
  cu_prompt_tokens :: u64
  cu_completion_tokens :: u64
  cu_total_tokens :: u64

record chat_completions_response =
  cb_id :: str
  cb_object :: str
  cb_created :: nat
  cb_model :: str
  cb_choices :: "completion_choice list"
  cb_usage :: "completion_usage option"

record stream_choice =
  sc_index :: nat
  sc_delta :: chat_message
  sc_finish_reason :: "str option"

record stream_response =
  se_id :: str
  se_object :: str
  se_created :: nat
  se_model :: str
  se_choices :: "stream_choice list"

definition map_to_chat_completion_response ::
  "str \<Rightarrow> str \<Rightarrow> chat_response \<Rightarrow> nat \<Rightarrow> chat_completions_response" where
  "map_to_chat_completion_response completion_id model upstream now =
     \<lparr>cb_id = completion_id, cb_object = lit ''chat.completion'', cb_created = now, cb_model = model,
      cb_choices = [\<lparr>hc_index = 0, hc_message = \<lparr>cm_role = lit ''assistant'', cm_content = cs_content upstream\<rparr>,
        hc_finish_reason = lit ''stop''\<rparr>],
      cb_usage = map_option (\<lambda>u. \<lparr>cu_prompt_tokens = prompt_tokens u, cu_completion_tokens = completion_tokens u,
        cu_total_tokens = total_tokens u\<rparr>) (cs_usage upstream)\<rparr>"

definition map_to_chat_completion_stream_response ::
  "str \<Rightarrow> str \<Rightarrow> nat \<Rightarrow> chat_stream_chunk \<Rightarrow> stream_response" where
  "map_to_chat_completion_stream_response completion_id model created upstream =
     \<lparr>se_id = completion_id, se_object = lit ''chat.completion.chunk'', se_created = created, se_model = model,
      se_choices = [\<lparr>sc_index = ck_index upstream,
        sc_delta = \<lparr>cm_role = lit ''assistant'', cm_content = ck_delta upstream\<rparr>,
        sc_finish_reason = ck_finish_reason upstream\<rparr>]\<rparr>"

section \<open>State and effects\<close>

datatype spawned = LogTask request_log_input | ReleaseTask lease

record 'r gateway_env =
  ge_auth :: auth_env
  ge_vault :: vault
  ge_json :: json_codec
  ge_chat :: chat_codec
  ge_redis :: "'r redis"
  ge_upstream :: upstream
  ge_stream :: stream_codec
  ge_config :: app_config
  ge_elapsed :: "nat \<Rightarrow> u64"
  ge_join :: "nat \<Rightarrow> str option"
  ge_others :: "nat \<Rightarrow> world \<Rightarrow> world"
  ge_waited :: "nat \<Rightarrow> nat"

record 'r gateway_state =
  gs_world :: world
  gs_limiter :: "'r limiter"
  gs_metrics :: metrics_registry
  gs_tasks :: "spawned list"
  gs_calls :: nat

type_synonym ('r, 'a) gw = "('r gateway_state, 'a) state"

definition on_tables :: "(world \<Rightarrow> 'a \<times> world) \<Rightarrow> ('r, 'a) gw" where
  "on_tables m = State (\<lambda>s. case m (gs_world s) of (a, w) \<Rightarrow> (a, s\<lparr>gs_world := w\<rparr>))"

definition on_limiter :: "('r limiter \<Rightarrow> 'a \<times> 'r limiter) \<Rightarrow> ('r, 'a) gw" where
  "on_limiter m = State (\<lambda>s. case m (gs_limiter s) of (a, l) \<Rightarrow> (a, s\<lparr>gs_limiter := l\<rparr>))"

definition ask_clock :: "(nat \<Rightarrow> 'a) \<Rightarrow> ('r, 'a) gw" where
  "ask_clock f = State (\<lambda>s. (f (gs_calls s), s\<lparr>gs_calls := Suc (gs_calls s)\<rparr>))"

definition spawn :: "spawned \<Rightarrow> ('r, unit) gw" where
  "spawn t = State (\<lambda>s. ((), s\<lparr>gs_tasks := gs_tasks s @ [t]\<rparr>))"

definition observe :: "gateway_observation \<Rightarrow> ('r, unit) gw" where
  "observe ob = State (\<lambda>s. ((), s\<lparr>gs_metrics := observe_gateway ob (gs_metrics s)\<rparr>))"

text \<open>The clock, a fresh identifier, and what the outside knows.\<close>

definition read_clock :: "('r, nat) gw" where
  "read_clock = on_tables (\<lambda>w. (clock (env w) (tick w), tick_world w))"

definition draw_uuid :: "('r, uuid) gw" where
  "draw_uuid = on_tables (\<lambda>w. (fresh (env w) (tick w), tick_world w))"

definition what_outside :: "('r, outside) gw" where
  "what_outside = on_tables (\<lambda>w. (env w, w))"

text \<open>A spawned task runs later, whatever happened in between; an error is only logged.\<close>

definition run_task :: "'r gateway_env \<Rightarrow> spawned \<Rightarrow> ('r, unit) gw" where
  "run_task E t = (case t of
      LogTask input \<Rightarrow> do { _ \<leftarrow> on_tables (record_request_log input); State_Monad.return () }
    | ReleaseTask l \<Rightarrow> do { _ \<leftarrow> on_limiter (release (ge_redis E) l); State_Monad.return () })"

section \<open>The request log\<close>

record completion_log =
  lg_context :: request_context
  lg_route_alias :: "str option"
  lg_provider_alias :: "str option"
  lg_daemon_node_id :: "uuid option"

definition new_completion_log :: "request_context \<Rightarrow> completion_log" where
  "new_completion_log ctx = \<lparr>lg_context = ctx, lg_route_alias = None, lg_provider_alias = None, lg_daemon_node_id = None\<rparr>"

definition with_route_alias :: "str \<Rightarrow> completion_log \<Rightarrow> completion_log" where
  "with_route_alias v l = l\<lparr>lg_route_alias := Some v\<rparr>"

definition with_provider_alias :: "str \<Rightarrow> completion_log \<Rightarrow> completion_log" where
  "with_provider_alias v l = l\<lparr>lg_provider_alias := Some v\<rparr>"

definition with_daemon_node_id :: "uuid \<Rightarrow> completion_log \<Rightarrow> completion_log" where
  "with_daemon_node_id v l = l\<lparr>lg_daemon_node_id := Some v\<rparr>"

definition request_log_input_of :: "completion_log \<Rightarrow> status \<Rightarrow> str option \<Rightarrow> u64 \<Rightarrow> request_log_input" where
  "request_log_input_of l st error_code latency_ms = (let ctx = lg_context l in
     \<lparr>rq_request_id = rx_request_id ctx, rq_user_id = rx_user_id ctx, rq_api_key_id = rx_api_key_id ctx,
      rq_provider_id = rx_provider_id ctx, rq_route_id = rx_route_id ctx, rq_daemon_node_id = lg_daemon_node_id l,
      rq_method = (case rx_method ctx of Some v \<Rightarrow> v | None \<Rightarrow> lit ''POST''),
      rq_path = (case rx_path ctx of Some v \<Rightarrow> v | None \<Rightarrow> CHAT_COMPLETIONS_PATH),
      rq_route = coalesce (rx_route ctx) (lg_route_alias l),
      rq_provider = coalesce (rx_provider ctx) (lg_provider_alias l),
      rq_status_code = st, rq_latency_ms = latency_ms, rq_error_code = error_code\<rparr>)"

definition spawn_record :: "request_log_input \<Rightarrow> ('r, unit) gw" where
  "spawn_record input = spawn (LogTask input)"

definition record_gateway_request_completion ::
  "'r gateway_env \<Rightarrow> completion_log \<Rightarrow> status \<Rightarrow> str option \<Rightarrow> ('r, unit) gw" where
  "record_gateway_request_completion E l st error_code = do {
     latency_ms \<leftarrow> ask_clock (ge_elapsed E);
     spawn_record (request_log_input_of l st error_code latency_ms) }"

section \<open>Limits and metrics\<close>

definition runtime_policy :: "app_config \<Rightarrow> runtime_limit_policy" where
  "runtime_policy c = \<lparr>requests_per_window = cf_limit_rpm c, tokens_per_window = cf_limit_tpm c,
     concurrent_requests = cf_limit_concurrency c, window_seconds = cf_limit_window_seconds c,
     lease_seconds = cf_limit_lease_seconds c\<rparr>"

text \<open>A blocking task that cannot be joined did not run the check.\<close>

definition acquire_runtime_limits ::
  "'r gateway_env \<Rightarrow> limit_scope list \<Rightarrow> u64 \<Rightarrow> ('r, app_error + lease) gw" where
  "acquire_runtime_limits E limit_scopes tokens = do {
     joined_task \<leftarrow> ask_clock (ge_join E);
     case joined_task of
       Some e \<Rightarrow> State_Monad.return (Inl (Infrastructure e))
     | None \<Rightarrow> on_limiter (check_and_acquire (ge_redis E) (runtime_policy (ge_config E))
         \<lparr>scopes = limit_scopes, estimated_prompt_tokens = tokens\<rparr>) }"

definition release_limit_lease :: "lease option \<Rightarrow> ('r, unit) gw" where
  "release_limit_lease l = (case l of None \<Rightarrow> State_Monad.return () | Some l \<Rightarrow> spawn (ReleaseTask l))"

definition observe_gateway_metrics_with_daemon_node ::
  "request_context \<Rightarrow> str \<Rightarrow> uuid option \<Rightarrow> token_usage \<Rightarrow> status \<Rightarrow> u64 \<Rightarrow> route_price \<Rightarrow> ('r, unit) gw" where
  "observe_gateway_metrics_with_daemon_node ctx route_alias daemon_node_id usage st latency_ms price =
     observe \<lparr>ob_route = (case rx_route ctx of Some v \<Rightarrow> v | None \<Rightarrow> route_alias),
       ob_provider = (case rx_provider ctx of Some v \<Rightarrow> v | None \<Rightarrow> lit ''unknown''),
       ob_model = (case rx_model ctx of Some v \<Rightarrow> v | None \<Rightarrow> lit ''unknown''),
       ob_daemon_node = daemon_node_id, ob_status = of_nat st, ob_usage = usage, ob_latency_ms = latency_ms,
       ob_route_price = price\<rparr>"

definition observe_gateway_metrics ::
  "request_context \<Rightarrow> str \<Rightarrow> token_usage \<Rightarrow> status \<Rightarrow> u64 \<Rightarrow> route_price \<Rightarrow> ('r, unit) gw" where
  "observe_gateway_metrics ctx route_alias usage st latency_ms price =
     observe_gateway_metrics_with_daemon_node ctx route_alias None usage st latency_ms price"

section \<open>Small steps of the handlers\<close>

definition parse_request_id_header :: "outside \<Rightarrow> headers \<Rightarrow> string \<Rightarrow> uuid option" where
  "parse_request_id_header out h header_name = (case header_text h header_name of
      None \<Rightarrow> None
    | Some raw_value \<Rightarrow> (case parse_uuid out raw_value of Inr v \<Rightarrow> Some v | Inl _ \<Rightarrow> None))"

definition resolve_effective_max_tokens ::
  "u64 option \<Rightarrow> u64 option \<Rightarrow> string \<Rightarrow> app_error + u64 option" where
  "resolve_effective_max_tokens requested_max_tokens route_max_tokens field_name =
     (case (requested_max_tokens, route_max_tokens) of
        (Some requested, Some route_limit) \<Rightarrow>
          if requested > route_limit
          then Inl (InvalidConfig (lit field_name) (lit ''max_tokens exceeds route limit''))
          else Inr (Some requested)
      | (Some requested, None) \<Rightarrow> Inr (Some requested)
      | (None, route_limit) \<Rightarrow> Inr route_limit)"

definition estimate_admission_usage :: "chat_message list \<Rightarrow> u64 option \<Rightarrow> token_usage" where
  "estimate_admission_usage request_messages expected_completion_tokens =
     (let pt = prompt_tokens (estimate_usage request_messages []);
          ct = (case expected_completion_tokens of None \<Rightarrow> 0 | Some n \<Rightarrow> n)
      in \<lparr>prompt_tokens = pt, completion_tokens = ct, total_tokens = u64_saturating_add pt ct, estimated = True\<rparr>)"

definition normalize_provider_error :: "app_error \<Rightarrow> request_context \<Rightarrow> str \<Rightarrow> app_error" where
  "normalize_provider_error e ctx route_alias =
     (let provider = (case rx_provider ctx of Some p \<Rightarrow> p | None \<Rightarrow> lit ''unknown'');
          about = (\<lambda>what message. redact_for_logs (lit what @ lit '' route='' @ route_alias @ lit '' provider='' @ provider
            @ lit '' request_id='' @ rx_request_id ctx @ lit '': '' @ message)) in
      case e of
        Infrastructure message \<Rightarrow> app_error.Provider (about ''upstream transport failure'' message)
      | app_error.Provider message \<Rightarrow> app_error.Provider (about ''upstream provider error'' message)
      | other \<Rightarrow> other)"

definition is_model_route_not_found :: "app_error \<Rightarrow> bool" where
  "is_model_route_not_found e = (case e of
      InvalidConfig key message \<Rightarrow> (key = lit CHAT_COMPLETIONS_MODEL_FIELD \<or> key = lit RESPONSES_MODEL_FIELD)
        \<and> message = lit ''model not found or disabled''
    | _ \<Rightarrow> False)"

section \<open>Routes\<close>

record resolved_route =
  rv_id :: uuid
  rv_provider_connection_id :: uuid
  rv_upstream_model :: str
  rv_provider_type :: str
  rv_provider_base_url :: str
  rv_provider_api_key :: str
  rv_max_tokens :: "u64 option"
  rv_input_price :: i64
  rv_output_price :: i64

definition route_price_of :: "resolved_route \<Rightarrow> route_price" where
  "route_price_of r = \<lparr>input_microcredits_per_1m_tokens = rv_input_price r,
     output_microcredits_per_1m_tokens = rv_output_price r\<rparr>"

definition u64_try_from :: "i64 \<Rightarrow> u64 option" where
  "u64_try_from v = (if v < 0 then None else Some (word_of_int v))"

definition resolved_row ::
  "auth_env \<Rightarrow> vault \<Rightarrow> outside \<Rightarrow> str option \<Rightarrow> model_route_row \<times> provider_connection_row \<Rightarrow> app_error + resolved_route" where
  "resolved_row a v out provider_secret_key = (\<lambda>(r, c).
     and_then (map_err (infra ''stored route id is invalid: '') (parse_uuid out (mr_id r))) (\<lambda>route_id.
     and_then (map_err (infra ''stored provider connection id for route is invalid: '') (parse_uuid out (pc_id c)))
       (\<lambda>connection_id.
     if pc_auth_mode c \<noteq> PROVIDER_AUTH_MODE_API_KEY then
       Inl (InvalidConfig (lit ''provider_connection.auth_mode'') (lit ''provider auth mode `'' @ pc_auth_mode c
         @ lit ''` is registered but not runnable yet''))
     else and_then (ok_or (InvalidConfig (lit ''MIZAN_PROVIDER_SECRET_KEY'')
         (lit ''set MIZAN_PROVIDER_SECRET_KEY before resolving model routes'')) provider_secret_key) (\<lambda>secret.
     and_then (decrypt_provider_api_key a v secret connection_id (pc_api_key_encrypted c)) (\<lambda>provider_api_key.
     and_then (transpose_opt (\<lambda>n. ok_or (InvalidConfig (lit ''model_route.max_tokens'')
         (lit ''max_tokens cannot be negative'')) (u64_try_from n)) (mr_max_tokens r)) (\<lambda>max_tokens.
     Inr \<lparr>rv_id = route_id, rv_provider_connection_id = connection_id, rv_upstream_model = mr_upstream_model r,
       rv_provider_type = trim (pc_provider_type c), rv_provider_base_url = pc_base_url c,
       rv_provider_api_key = provider_api_key, rv_max_tokens = max_tokens,
       rv_input_price = mr_pricing_input r, rv_output_price = mr_pricing_output r\<rparr>))))))"

definition resolve_model_route ::
  "auth_env \<Rightarrow> vault \<Rightarrow> str option \<Rightarrow> string \<Rightarrow> str \<Rightarrow> resolved_route op" where
  "resolve_model_route a v provider_secret_key request_model_field public_model =
     bind_op (err_op Infrastructure (exec (query_stmt (\<lambda>d. find (\<lambda>(r, c).
        mr_public_model r = public_model \<and> mr_enabled r = 1 \<and> pc_enabled c = 1) (joined d))))) (\<lambda>found.
     bind_op (of_result (ok_or (InvalidConfig (lit request_model_field) (lit ''model not found or disabled'')) found))
       (\<lambda>row.
     bind_op ask_outside (\<lambda>out. of_result (resolved_row a v out provider_secret_key row))))"

section \<open>Running a handler\<close>

lemma run_bind [simp]:
  "run_state (State_Monad.bind m k) s = (case run_state m s of (a, s') \<Rightarrow> run_state (k a) s')"
  by (simp add: State_Monad.bind_def split: prod.splits)

lemma effects_run [simp]:
  "run_state (on_tables m) s = (case m (gs_world s) of (a, w) \<Rightarrow> (a, s\<lparr>gs_world := w\<rparr>))"
  "run_state (on_limiter p) s = (case p (gs_limiter s) of (b, l) \<Rightarrow> (b, s\<lparr>gs_limiter := l\<rparr>))"
  "run_state (ask_clock f) s = (f (gs_calls s), s\<lparr>gs_calls := Suc (gs_calls s)\<rparr>)"
  "run_state (spawn t) s = ((), s\<lparr>gs_tasks := gs_tasks s @ [t]\<rparr>)"
  "run_state (observe ob) s = ((), s\<lparr>gs_metrics := observe_gateway ob (gs_metrics s)\<rparr>)"
  by (simp_all add: on_tables_def on_limiter_def ask_clock_def spawn_def observe_def)

lemmas small_steps = record_gateway_request_completion_def spawn_record_def release_limit_lease_def
  observe_gateway_metrics_def observe_gateway_metrics_with_daemon_node_def

text \<open>A gateway whose upstream refuses every call, and its first state.\<close>

definition sample_gateway :: "(str \<Rightarrow> int option) gateway_env" where
  "sample_gateway = \<lparr>ge_auth = toy_digest, ge_vault = toy_vault, ge_json = silent_json,
     ge_chat = \<lparr>encode_request = (\<lambda>_. Inr []), decode_request = (\<lambda>_. Inl []), encode_response = (\<lambda>_. Inr []),
       decode_response = (\<lambda>_. Inl [])\<rparr>,
     ge_redis = map_redis, ge_upstream = \<lparr>up_send = (\<lambda>_ _. Inl (lit ''refused'')), up_decode = (\<lambda>_. Inl [])\<rparr>,
     ge_stream = \<lparr>decode_chunk = (\<lambda>s. Inr \<lparr>ok_choices = [\<lparr>oc_index = 0, oc_content = Some s,
       oc_finish_reason = None\<rparr>], ok_usage = None\<rparr>), utf8_error = (\<lambda>_. [])\<rparr>,
     ge_config = \<lparr>cf_http_addr = [], cf_database_backend = Sqlite, cf_database_url = [], cf_database_max_connections = 1,
       cf_run_migrations = False, cf_redis_url = [], cf_limit_rpm = 0, cf_limit_tpm = 0, cf_limit_concurrency = 1,
       cf_limit_window_seconds = 60, cf_limit_lease_seconds = 120, cf_log_level = [], cf_admin_seed_email = None,
       cf_admin_seed_password = None, cf_admin_seed_role = [], cf_provider_secret_key = Some (lit ''s''),
       cf_log_raw_request_bodies = False, cf_daemon_stale_seconds = 90\<rparr>,
     ge_elapsed = (\<lambda>_. 5), ge_join = (\<lambda>_. None), ge_others = (\<lambda>_ w. w), ge_waited = (\<lambda>n. n * 100)\<rparr>"

definition sample_gateway_state :: "database \<Rightarrow> (str \<Rightarrow> int option) gateway_state" where
  "sample_gateway_state d = \<lparr>gs_world = calm_world d, gs_limiter = calm_limiter, gs_metrics = default_registry,
     gs_tasks = [], gs_calls = 0\<rparr>"

end
