(* ===== verification/Gateway_Stream.thy ===== *)
theory Gateway_Stream
  imports Gateway_Core
begin

text \<open>
  The streamed response of the gateway (crates/mizan-api/src/gateway.rs, \<open>build_stream_events\<close>): a state machine
  that the HTTP server polls for the next event. It holds the upstream stream (theory Sse), the latest
  usage it reported, and the lease of the request; \<open>sb_emit_done\<close> is cleared once the final event was made.
  Dropping the machine, after its end or because the client went away, releases what it still holds.
\<close>

datatype event =
    DataEvent stream_response
  | DoneEvent
  | ErrorEvent error_envelope

record stream_build_state =
  sb_upstream :: sse_state
  sb_completion_id :: str
  sb_model :: str
  sb_route_alias :: str
  sb_context :: request_context
  sb_request_messages :: "chat_message list"
  sb_latest_usage :: "token_usage option"
  sb_created :: nat
  sb_route_price :: route_price
  sb_user_id :: uuid
  sb_api_key_id :: "uuid option"
  sb_provider_id :: uuid
  sb_route_id :: uuid
  sb_emit_done :: bool
  sb_limit_lease :: "lease option"
  sb_completion_log :: completion_log

text \<open>What the handler hands over; the tables, the metrics and the clock are the gateway's own.\<close>

record stream_billing_context =
  sx_route_price :: route_price
  sx_user_id :: uuid
  sx_api_key_id :: "uuid option"
  sx_provider_id :: uuid
  sx_route_id :: uuid
  sx_limit_lease :: "lease option"

definition build_stream_events ::
  "str \<Rightarrow> str \<Rightarrow> sse_state \<Rightarrow> chat_message list \<Rightarrow> request_context \<Rightarrow> stream_billing_context \<Rightarrow> ('r, stream_build_state) gw" where
  "build_stream_events completion_id model upstream_stream request_messages ctx billing = do {
     created \<leftarrow> read_clock;
     State_Monad.return \<lparr>sb_upstream = upstream_stream, sb_completion_id = completion_id, sb_model = model,
       sb_route_alias = model, sb_context = ctx, sb_request_messages = request_messages, sb_latest_usage = None,
       sb_created = created, sb_route_price = sx_route_price billing, sb_user_id = sx_user_id billing,
       sb_api_key_id = sx_api_key_id billing, sb_provider_id = sx_provider_id billing,
       sb_route_id = sx_route_id billing, sb_emit_done = True, sb_limit_lease = sx_limit_lease billing,
       sb_completion_log = with_route_alias model (new_completion_log ctx)\<rparr> }"

text \<open>\<open>impl Drop\<close>.\<close>

definition drop_stream :: "stream_build_state \<Rightarrow> ('r, unit) gw" where
  "drop_stream st = release_limit_lease (sb_limit_lease st)"

definition stream_usage :: "stream_build_state \<Rightarrow> token_usage" where
  "stream_usage st = (case sb_latest_usage st of
      Some u \<Rightarrow> u | None \<Rightarrow> estimate_usage (sb_request_messages st) [])"

definition stream_billing_input :: "stream_build_state \<Rightarrow> status \<Rightarrow> u64 \<Rightarrow> billing_input" where
  "stream_billing_input st code latency_ms =
     \<lparr>bi_request_id = rx_request_id (sb_context st), bi_user_id = sb_user_id st, bi_api_key_id = sb_api_key_id st,
      bi_provider_id = Some (sb_provider_id st), bi_route_id = Some (sb_route_id st), bi_daemon_node_id = None,
      bi_model = sb_model st, bi_usage = stream_usage st, bi_status_code = code, bi_latency_ms = latency_ms,
      bi_route_price = sb_route_price st\<rparr>"

text \<open>The end of the stream after usage could not be recorded, and after it was.\<close>

definition unbilled_end ::
  "'r gateway_env \<Rightarrow> stream_build_state \<Rightarrow> app_error \<Rightarrow> u64 \<Rightarrow> ('r, event option \<times> stream_build_state) gw" where
  "unbilled_end E st e latency_ms = do {
     _ \<leftarrow> record_gateway_request_completion E (sb_completion_log st) (app_error_status_code e)
       (Some (error_code_from_app_error e));
     _ \<leftarrow> observe_gateway_metrics (sb_context st) (sb_route_alias st) (stream_usage st) (app_error_status_code e)
       latency_ms (sb_route_price st);
     _ \<leftarrow> release_limit_lease (sb_limit_lease st);
     State_Monad.return (Some (ErrorEvent (envelope_of e)),
       st\<lparr>sb_emit_done := False, sb_latest_usage := None, sb_limit_lease := None\<rparr>) }"

definition billed_end ::
  "'r gateway_env \<Rightarrow> stream_build_state \<Rightarrow> status \<Rightarrow> str option \<Rightarrow> u64 \<Rightarrow> event \<Rightarrow> ('r, event option \<times> stream_build_state) gw" where
  "billed_end E st code error_code latency_ms final = do {
     _ \<leftarrow> observe_gateway_metrics (sb_context st) (sb_route_alias st) (stream_usage st) code latency_ms
       (sb_route_price st);
     _ \<leftarrow> record_gateway_request_completion E (sb_completion_log st) code error_code;
     _ \<leftarrow> release_limit_lease (sb_limit_lease st);
     State_Monad.return (Some final,
       st\<lparr>sb_emit_done := False, sb_latest_usage := None, sb_limit_lease := None\<rparr>) }"

definition finish_stream ::
  "'r gateway_env \<Rightarrow> stream_build_state \<Rightarrow> status \<Rightarrow> str option \<Rightarrow> event \<Rightarrow> ('r, event option \<times> stream_build_state) gw" where
  "finish_stream E st code error_code final = do {
     latency_ms \<leftarrow> ask_clock (ge_elapsed E);
     recorded \<leftarrow> on_tables (record_usage (stream_billing_input st code latency_ms));
     case recorded of
       Inl e \<Rightarrow> unbilled_end E st e latency_ms
     | Inr _ \<Rightarrow> billed_end E st code error_code latency_ms final }"

text \<open>The closure of \<open>stream::unfold\<close>.\<close>

definition next_event :: "'r gateway_env \<Rightarrow> stream_build_state \<Rightarrow> ('r, event option \<times> stream_build_state) gw" where
  "next_event E st =
     (if \<not> sb_emit_done st then State_Monad.return (None, st)
      else (case sse_next (ge_stream E) (sb_upstream st) of
          (Some (Inr chunk), up) \<Rightarrow>
            State_Monad.return (Some (DataEvent (map_to_chat_completion_stream_response (sb_completion_id st)
               (sb_model st) (sb_created st) chunk)),
             st\<lparr>sb_upstream := up, sb_latest_usage := (case ck_usage chunk of
                 Some usage \<Rightarrow> Some usage | None \<Rightarrow> sb_latest_usage st)\<rparr>)
        | (Some (Inl e), up) \<Rightarrow>
            (let e = normalize_provider_error e (sb_context st) (sb_route_alias st) in
             finish_stream E (st\<lparr>sb_upstream := up\<rparr>) (app_error_status_code e)
               (Some (error_code_from_app_error e)) (ErrorEvent (envelope_of e)))
        | (None, up) \<Rightarrow> finish_stream E (st\<lparr>sb_upstream := up\<rparr>) 200 None DoneEvent))"

text \<open>
  A consumer that polls and in the end drops the machine: after its end (\<open>True\<close>), or before, at any point
  (\<open>False\<close>).
\<close>

inductive consumed ::
  "'r gateway_env \<Rightarrow> stream_build_state \<Rightarrow> 'r gateway_state \<Rightarrow> event list \<Rightarrow> bool \<Rightarrow> 'r gateway_state \<Rightarrow> bool"
  for E where
  finished: "run_state (next_event E st) s = ((None, st'), s1) \<Longrightarrow> run_state (drop_stream st') s1 = ((), s2)
    \<Longrightarrow> consumed E st s [] True s2"
| polled: "run_state (next_event E st) s = ((Some ev, st'), s1) \<Longrightarrow> consumed E st' s1 evs whole s2
    \<Longrightarrow> consumed E st s (ev # evs) whole s2"
| dropped: "run_state (drop_stream st) s = ((), s1) \<Longrightarrow> consumed E st s [] False s1"

inductive_cases consumedE: "consumed E st s evs whole s'"

section \<open>Running a stream\<close>

text \<open>
  The account of a request: what the recording of its usage (\<open>r\<close>) makes of the outcome, the observation,
  and the state after usage was recorded, the outcome observed and logged, and the lease released.
\<close>

definition settled_status :: "app_error + unit \<Rightarrow> status \<Rightarrow> status" where
  "settled_status r code = (case r of Inl e \<Rightarrow> app_error_status_code e | Inr _ \<Rightarrow> code)"

definition settled_code :: "app_error + unit \<Rightarrow> str option \<Rightarrow> str option" where
  "settled_code r ec = (case r of Inl e \<Rightarrow> Some (error_code_from_app_error e) | Inr _ \<Rightarrow> ec)"

definition settled_event :: "app_error + unit \<Rightarrow> event \<Rightarrow> event" where
  "settled_event r final = (case r of Inl e \<Rightarrow> ErrorEvent (envelope_of e) | Inr _ \<Rightarrow> final)"

definition stream_observation :: "stream_build_state \<Rightarrow> status \<Rightarrow> u64 \<Rightarrow> gateway_observation" where
  "stream_observation st code latency_ms = (let ctx = sb_context st in
     \<lparr>ob_route = (case rx_route ctx of Some v \<Rightarrow> v | None \<Rightarrow> sb_route_alias st),
      ob_provider = (case rx_provider ctx of Some v \<Rightarrow> v | None \<Rightarrow> lit ''unknown''),
      ob_model = (case rx_model ctx of Some v \<Rightarrow> v | None \<Rightarrow> lit ''unknown''),
      ob_daemon_node = None, ob_status = of_nat code, ob_usage = stream_usage st, ob_latency_ms = latency_ms,
      ob_route_price = sb_route_price st\<rparr>)"

definition settle :: "'r gateway_env \<Rightarrow> stream_build_state \<Rightarrow> lease \<Rightarrow> status \<Rightarrow> str option \<Rightarrow> 'r gateway_state
    \<Rightarrow> (app_error + unit) \<times> 'r gateway_state" where
  "settle E st l code ec s =
     (let latency_ms = ge_elapsed E (gs_calls s);
          (r, w) = record_usage (stream_billing_input st code latency_ms) (gs_world s) in
      (r, s\<lparr>gs_world := w,
        gs_metrics := observe_gateway (stream_observation st (settled_status r code) latency_ms) (gs_metrics s),
        gs_tasks := gs_tasks s @ [LogTask (request_log_input_of (sb_completion_log st) (settled_status r code)
            (settled_code r ec) (ge_elapsed E (Suc (gs_calls s)))), ReleaseTask l],
        gs_calls := Suc (Suc (gs_calls s))\<rparr>))"

lemma finish_stream_run:
  assumes "sb_limit_lease st = Some l"
  shows "run_state (finish_stream E st code ec final) s = (case settle E st l code ec s of (r, s') \<Rightarrow>
      ((Some (settled_event r final), st\<lparr>sb_emit_done := False, sb_latest_usage := None, sb_limit_lease := None\<rparr>), s'))"
proof -
  obtain r w where r: "record_usage (stream_billing_input st code (ge_elapsed E (gs_calls s))) (gs_world s) = (r, w)"
    by fastforce
  show ?thesis
    by (cases r) (simp_all add: r finish_stream_def unbilled_end_def billed_end_def small_steps assms settle_def
        stream_observation_def settled_status_def settled_code_def settled_event_def Let_def)
qed

section \<open>What a stream has to do\<close>

text \<open>The elements of the upstream stream: its chunks, the usage it last reported, and its error if one ended it.\<close>

fun stream_content :: "token_usage option \<Rightarrow> (app_error + chat_stream_chunk) list
    \<Rightarrow> chat_stream_chunk list \<times> token_usage option \<times> app_error option" where
  "stream_content u [] = ([], u, None)"
| "stream_content u (Inl e # outs) = ([], u, Some e)"
| "stream_content u (Inr c # outs) =
     (case stream_content (case ck_usage c of Some v \<Rightarrow> Some v | None \<Rightarrow> u) outs of (cs, v, e) \<Rightarrow> (c # cs, v, e))"

definition chunk_event :: "stream_build_state \<Rightarrow> chat_stream_chunk \<Rightarrow> event" where
  "chunk_event st c = DataEvent (map_to_chat_completion_stream_response (sb_completion_id st) (sb_model st)
     (sb_created st) c)"

text \<open>How the stream ends when nothing goes wrong in the recording: status, error code, final event.\<close>

definition stream_ending :: "stream_build_state \<Rightarrow> app_error option \<Rightarrow> status \<times> str option \<times> event" where
  "stream_ending st e = (case e of
      None \<Rightarrow> (200, None, DoneEvent)
    | Some e \<Rightarrow> (let e = normalize_provider_error e (sb_context st) (sb_route_alias st) in
        (app_error_status_code e, Some (error_code_from_app_error e), ErrorEvent (envelope_of e))))"

definition settled_stream ::
  "'r gateway_env \<Rightarrow> stream_build_state \<Rightarrow> (app_error + chat_stream_chunk) list \<Rightarrow> lease \<Rightarrow> 'r gateway_state
    \<Rightarrow> event list \<Rightarrow> 'r gateway_state \<Rightarrow> bool" where
  "settled_stream E st outs l s evs s' = (case stream_content (sb_latest_usage st) outs of (cs, usage, e) \<Rightarrow>
      (case stream_ending st e of (code, ec, final) \<Rightarrow>
        (case settle E (st\<lparr>sb_latest_usage := usage\<rparr>) l code ec s of (r, s1) \<Rightarrow>
          s' = s1 \<and> evs = map (chunk_event st) cs @ [settled_event r final])))"

definition abandoned_stream ::
  "stream_build_state \<Rightarrow> (app_error + chat_stream_chunk) list \<Rightarrow> lease \<Rightarrow> 'r gateway_state
    \<Rightarrow> event list \<Rightarrow> 'r gateway_state \<Rightarrow> bool" where
  "abandoned_stream st outs l s evs s' \<longleftrightarrow>
     (\<exists>n. evs = map (chunk_event st) (take n (fst (stream_content (sb_latest_usage st) outs))))
     \<and> s' = s\<lparr>gs_tasks := gs_tasks s @ [ReleaseTask l]\<rparr>"

lemma stream_usage_upstream [simp]: "stream_usage (st\<lparr>sb_upstream := up\<rparr>) = stream_usage st"
  by (simp add: stream_usage_def split: option.split)

lemma settle_upstream [simp]: "settle E (st\<lparr>sb_upstream := up\<rparr>) = settle E st"
proof -
  have "stream_billing_input (st\<lparr>sb_upstream := up\<rparr>) = stream_billing_input st"
    "stream_observation (st\<lparr>sb_upstream := up\<rparr>) = stream_observation st"
    by (simp_all add: fun_eq_iff stream_billing_input_def stream_observation_def Let_def split: option.split)
  then show ?thesis by (simp add: fun_eq_iff settle_def)
qed

lemma settle_next [simp]:
  "settle E (st\<lparr>sb_upstream := up, sb_latest_usage := u\<rparr>) = settle E (st\<lparr>sb_latest_usage := u\<rparr>)"
proof -
  have "st\<lparr>sb_upstream := up, sb_latest_usage := u\<rparr> = (st\<lparr>sb_latest_usage := u\<rparr>)\<lparr>sb_upstream := up\<rparr>" by simp
  then show ?thesis by (simp only: settle_upstream)
qed

lemma drop_run [simp]:
  "run_state (drop_stream st) s = ((), case sb_limit_lease st of None \<Rightarrow> s
     | Some l \<Rightarrow> s\<lparr>gs_tasks := gs_tasks s @ [ReleaseTask l]\<rparr>)"
  by (simp add: drop_stream_def release_limit_lease_def split: option.splits)

lemma ended_next: "\<not> sb_emit_done st \<Longrightarrow> run_state (next_event E st) s = ((None, st), s)"
  by (simp add: next_event_def)

lemma next_chunk:
  assumes "sb_emit_done st" "sse_next (ge_stream E) (sb_upstream st) = (Some (Inr c), up)"
  shows "run_state (next_event E st) s = ((Some (chunk_event st c), st\<lparr>sb_upstream := up, sb_latest_usage :=
    (case ck_usage c of Some v \<Rightarrow> Some v | None \<Rightarrow> sb_latest_usage st)\<rparr>), s)"
  using assms by (simp add: next_event_def chunk_event_def)

lemma next_last:
  assumes "sb_emit_done st" "sb_limit_lease st = Some l"
    "sse_next (ge_stream E) (sb_upstream st) = (map_option Inl e, up)" "stream_ending st e = (code, ec, final)"
  shows "run_state (next_event E st) s = (case settle E st l code ec s of (r, s1) \<Rightarrow>
    ((Some (settled_event r final), st\<lparr>sb_upstream := up, sb_emit_done := False, sb_latest_usage := None,
      sb_limit_lease := None\<rparr>), s1))"
  using assms finish_stream_run [of "st\<lparr>sb_upstream := up\<rparr>" l E code ec final s]
  by (cases e) (auto simp: next_event_def stream_ending_def Let_def split: prod.splits)

text \<open>After its last event a stream only ends.\<close>

lemma consumed_ended:
  assumes "\<not> sb_emit_done st" "sb_limit_lease st = None" "consumed E st s evs whole s'"
  shows "evs = [] \<and> s' = s"
  using assms(3) by cases (auto simp: ended_next [OF assms(1)] assms(2))

lemma chunk_event_upstream [simp]:
  "chunk_event (st\<lparr>sb_upstream := up, sb_latest_usage := u\<rparr>) = chunk_event st"
  "stream_ending (st\<lparr>sb_upstream := up, sb_latest_usage := u\<rparr>) = stream_ending st"
  by (simp_all add: fun_eq_iff chunk_event_def stream_ending_def split: option.splits)

lemma settled_Cons:
  assumes "settled_stream E (st\<lparr>sb_upstream := up, sb_latest_usage :=
    (case ck_usage c of Some v \<Rightarrow> Some v | None \<Rightarrow> sb_latest_usage st)\<rparr>) outs l s evs s'"
  shows "settled_stream E st (Inr c # outs) l s (chunk_event st c # evs) s'"
  using assms by (auto simp: settled_stream_def split: prod.splits)

lemma abandoned_Cons:
  assumes "abandoned_stream (st\<lparr>sb_upstream := up, sb_latest_usage :=
    (case ck_usage c of Some v \<Rightarrow> Some v | None \<Rightarrow> sb_latest_usage st)\<rparr>) outs l s evs s'"
  shows "abandoned_stream st (Inr c # outs) l s (chunk_event st c # evs) s'"
  using assms by (auto simp: abandoned_stream_def split: prod.splits intro: exI [of _ "Suc n" for n])

lemma settled_last:
  assumes polled: "run_state (next_event E st) s = ((Some ev, st'), s1)" "consumed E st' s1 evs whole s2"
    and st: "sb_emit_done st" "sb_limit_lease st = Some l"
    and last: "sse_next (ge_stream E) (sb_upstream st) = (map_option Inl e, up)"
      "stream_content (sb_latest_usage st) outs = ([], sb_latest_usage st, e)"
  shows "settled_stream E st outs l s (ev # evs) s2"
proof -
  obtain code ec final where fin: "stream_ending st e = (code, ec, final)" by (cases "stream_ending st e") auto
  obtain r s3 where settle: "settle E st l code ec s = (r, s3)" by fastforce
  have "st' = st\<lparr>sb_upstream := up, sb_emit_done := False, sb_latest_usage := None, sb_limit_lease := None\<rparr>"
    "ev = settled_event r final" "s1 = s3"
    using polled(1) next_last [OF st last(1) fin, of s] settle by auto
  moreover from this consumed_ended [OF _ _ polled(2)] have "evs = [] \<and> s2 = s3" by simp
  moreover have "st\<lparr>sb_latest_usage := sb_latest_usage st\<rparr> = st" by simp
  ultimately show ?thesis using last(2) fin settle by (simp add: settled_stream_def)
qed

lemma consumed_accounts:
  assumes "consumed E st s evs whole s'" "sse_polls (ge_stream E) (sb_upstream st) outs"
    "sb_emit_done st" "sb_limit_lease st = Some l"
  shows "settled_stream E st outs l s evs s' \<or> \<not> whole \<and> abandoned_stream st outs l s evs s'"
  using assms
proof (induction arbitrary: outs rule: consumed.induct)
  case (finished st s st' s1 s2)
  from finished(3) show ?case
  proof cases
    case (ended up)
    then show ?thesis
      using finished(1,4,5) next_last [of st l E None up _ _ _ s] by (auto simp: stream_ending_def split: prod.splits)
  next
    case (element x up xs)
    then show ?thesis
      using finished(1,4,5) next_chunk [of st E _ up s] next_last [of st l E "Some _" up _ _ _ s]
      by (cases x) (auto simp: stream_ending_def Let_def split: prod.splits)
  qed
next
  case (polled st s ev st' s1 evs whole s2)
  note last = settled_last [OF polled(1,2,5,6)]
  from polled(4) show ?case
  proof cases
    case (ended up)
    then show ?thesis using last [of None up] by simp
  next
    case (element x up xs)
    show ?thesis
    proof (cases x)
      case (Inl e)
      then show ?thesis using last [of "Some e" up] element by simp
    next
      case (Inr c)
      then have "st' = st\<lparr>sb_upstream := up, sb_latest_usage :=
          (case ck_usage c of Some v \<Rightarrow> Some v | None \<Rightarrow> sb_latest_usage st)\<rparr>" "ev = chunk_event st c" "s1 = s"
        using polled(1) next_chunk [of st E c up s] polled(5) element by auto
      then show ?thesis
        using polled(3) [of xs] polled(5,6) element Inr settled_Cons abandoned_Cons by fastforce
    qed
  qed
next
  case (dropped st s s1)
  then show ?case by (auto simp: abandoned_stream_def intro: exI [of _ 0])
qed

lemma consumed_last:
  assumes "run_state (next_event E st) s = ((Some ev, st'), s1)" "\<not> sb_emit_done st'" "sb_limit_lease st' = None"
  shows "consumed E st s [ev] True s1"
  by (rule consumed.polled [OF assms(1)], rule consumed.finished [OF ended_next [OF assms(2)]])
    (simp add: assms(3))

lemma consumed_end:
  assumes "sse_next (ge_stream E) (sb_upstream st) = (map_option Inl e, up)" "sb_emit_done st" "sb_limit_lease st = Some l"
  shows "\<exists>evs s'. consumed E st s evs True s'"
proof -
  obtain code ec final where fin: "stream_ending st e = (code, ec, final)" by (cases "stream_ending st e") auto
  obtain r s3 where "settle E st l code ec s = (r, s3)" by fastforce
  then show ?thesis
    using next_last [OF assms(2,3,1) fin, of s] consumed_last [of E st s "settled_event r final"]
    by (intro exI) fastforce
qed

lemma consumed_exists:
  assumes "sse_polls k up outs" "k = ge_stream E" "sb_upstream st = up" "sb_emit_done st" "sb_limit_lease st = Some l"
  shows "\<exists>evs s'. consumed E st s evs True s'"
  using assms
proof (induction arbitrary: st rule: sse_polls.induct)
  case (ended k up up')
  then show ?case by (intro consumed_end [where e = None]) auto
next
  case (element k up x up' xs)
  show ?case
  proof (cases x)
    case (Inl e)
    then show ?thesis using element by (intro consumed_end [where e = "Some e"]) auto
  next
    case (Inr c)
    then show ?thesis
      using element.IH [of "st\<lparr>sb_upstream := up', sb_latest_usage := _\<rparr>"] next_chunk [of st E c up' s] element
      by (fastforce intro: consumed.polled)
  qed
qed


definition sample_billing :: stream_billing_context where
  "sample_billing = \<lparr>sx_route_price = \<lparr>input_microcredits_per_1m_tokens = 1000000,
     output_microcredits_per_1m_tokens = 2000000\<rparr>, sx_user_id = [2], sx_api_key_id = None, sx_provider_id = [4],
     sx_route_id = [5], sx_limit_lease = Some [lit ''k'']\<rparr>"

definition sample_pieces :: "(str + u8 list) list" where
  "sample_pieces = [Inr [100, 97, 116, 97, 58, 104], Inr [105, 10, 10]]"

lemma sample_polls: "sse_polls (ge_stream sample_gateway) (new_sse_state sample_pieces)
  [Inr \<lparr>ck_index = 0, ck_delta = lit ''hi'', ck_finish_reason = None, ck_usage = None\<rparr>]"
proof -
  have "text_outputs (ge_stream sample_gateway) False [] (fst (pieces sample_pieces)) (snd (pieces sample_pieces))
    = [Inr \<lparr>ck_index = 0, ck_delta = lit ''hi'', ck_finish_reason = None, ck_usage = None\<rparr>]"
    by (simp add: sample_pieces_def text_outputs_def split_lines.simps take_line_def NEWLINE_def strip_cr_def
        CARRIAGE_RETURN_def line_effect_def from_utf8_def sample_gateway_def lit_def trim_start_def is_whitespace_def
        starts_with_def strip_prefix_def event_effect_def trim_def trim_end_def parse_stream_event_def chunk_of_choice_def
        finish_text_def)
  then show ?thesis
    using polls_text [of "new_sse_state sample_pieces" "ge_stream sample_gateway"] by (simp add: new_sse_state_def outputs_of_def)
qed


end
