(* ===== verification/Gateway.thy ===== *)
theory Gateway
  imports Gateway_Stream
begin

text \<open>
  The handlers of the chat endpoints (crates/mizan-api/src/gateway.rs): \<open>chat_completions\<close> and \<open>responses\<close>, from the
  authenticated request to the response, for a model that a provider route serves and for one that a daemon node
  serves. A handler yields \<open>None\<close> when the wait for a daemon node does not end; a wait whose clock advances
  always ends (theory Dispatch).
\<close>

section \<open>Responses\<close>

datatype response_body =
    ErrorBody error_envelope
  | ChatBody chat_completions_response
  | EventBody stream_build_state

text \<open>The headers are \<open>attach_request_headers\<close>; the content type follows from the body.\<close>

record http_response =
  hs_status :: status
  hs_body :: response_body
  hs_request_id :: uuid
  hs_trace_id :: uuid

definition attach_request_headers :: "request_context \<Rightarrow> status \<Rightarrow> response_body \<Rightarrow> http_response" where
  "attach_request_headers ctx st body = \<lparr>hs_status = st, hs_body = body, hs_request_id = rx_request_id ctx,
     hs_trace_id = rx_trace_id ctx\<rparr>"

definition build_error_response :: "request_context \<Rightarrow> status \<Rightarrow> error_envelope \<Rightarrow> http_response" where
  "build_error_response ctx st body = attach_request_headers ctx st (ErrorBody body)"

definition json_chat_completion_response ::
  "str \<Rightarrow> str \<Rightarrow> chat_response \<Rightarrow> request_context \<Rightarrow> ('r, http_response) gw" where
  "json_chat_completion_response completion_id model upstream_response ctx = do {
     now \<leftarrow> read_clock;
     State_Monad.return (attach_request_headers ctx 200
       (ChatBody (map_to_chat_completion_response completion_id model upstream_response now))) }"

definition stream_chat_completion_response ::
  "str \<Rightarrow> str \<Rightarrow> sse_state \<Rightarrow> chat_message list \<Rightarrow> request_context \<Rightarrow> stream_billing_context \<Rightarrow> ('r, http_response) gw" where
  "stream_chat_completion_response completion_id model upstream_stream request_messages ctx billing = do {
     events \<leftarrow> build_stream_events completion_id model upstream_stream request_messages ctx billing;
     State_Monad.return (attach_request_headers ctx 200 (EventBody events)) }"

text \<open>The early returns: the outcome is logged and the error is the response.\<close>

definition refuse :: "'r gateway_env \<Rightarrow> completion_log \<Rightarrow> request_context \<Rightarrow> app_error \<Rightarrow> ('r, http_response) gw" where
  "refuse E l ctx e = do {
     _ \<leftarrow> record_gateway_request_completion E l (app_error_status_code e) (Some (error_code_from_app_error e));
     State_Monad.return (build_error_response ctx (app_error_status_code e) (snd (from_app_error e))) }"

section \<open>A call\<close>

text \<open>
  What the second half of both handlers works on. \<open>cl_node\<close> is the daemon node, if one serves the model; else
  \<open>cl_served\<close> holds the connection and the route.
\<close>

record call =
  cl_identity :: api_key_identity
  cl_context :: request_context
  cl_log :: completion_log
  cl_model :: str
  cl_served :: "(uuid \<times> uuid) option"
  cl_node :: "uuid option"
  cl_price :: route_price
  cl_request :: chat_request

definition call_billing :: "call \<Rightarrow> token_usage \<Rightarrow> status \<Rightarrow> u64 \<Rightarrow> billing_input" where
  "call_billing c usage st latency_ms =
     \<lparr>bi_request_id = rx_request_id (cl_context c), bi_user_id = id_user_id (cl_identity c),
      bi_api_key_id = Some (id_api_key_id (cl_identity c)), bi_provider_id = map_option fst (cl_served c),
      bi_route_id = map_option snd (cl_served c), bi_daemon_node_id = cl_node c, bi_model = cl_model c,
      bi_usage = usage, bi_status_code = st, bi_latency_ms = latency_ms, bi_route_price = cl_price c\<rparr>"

definition observe_call :: "call \<Rightarrow> token_usage \<Rightarrow> status \<Rightarrow> u64 \<Rightarrow> ('r, unit) gw" where
  "observe_call c usage st latency_ms =
     observe_gateway_metrics_with_daemon_node (cl_context c) (cl_model c) (cl_node c) usage st latency_ms (cl_price c)"

definition record_call :: "'r gateway_env \<Rightarrow> call \<Rightarrow> app_error option \<Rightarrow> ('r, unit) gw" where
  "record_call E c e = (case e of
      None \<Rightarrow> record_gateway_request_completion E (cl_log c) 200 None
    | Some e \<Rightarrow> record_gateway_request_completion E (cl_log c) (app_error_status_code e)
        (Some (error_code_from_app_error e)))"

definition error_of :: "call \<Rightarrow> app_error \<Rightarrow> http_response" where
  "error_of c e = build_error_response (cl_context c) (fst (from_app_error e)) (snd (from_app_error e))"

definition prompt_only_usage :: "call \<Rightarrow> token_usage" where
  "prompt_only_usage c = estimate_usage (cr_messages (cl_request c)) []"

definition admission_usage :: "call \<Rightarrow> token_usage" where
  "admission_usage c = estimate_admission_usage (cr_messages (cl_request c)) (cr_max_tokens (cl_request c))"

text \<open>The usage of an answer: reported, or estimated from its content.\<close>

definition answer_usage :: "call \<Rightarrow> chat_response \<Rightarrow> token_usage" where
  "answer_usage c upstream_response = (case cs_usage upstream_response of
      Some u \<Rightarrow> u | None \<Rightarrow> estimate_usage (cr_messages (cl_request c)) (cs_content upstream_response))"

definition credit_check :: "call \<Rightarrow> ('r, app_error + unit) gw" where
  "credit_check c = on_tables (ensure_sufficient_credit (id_user_id (cl_identity c)) (admission_usage c) (cl_price c))"

text \<open>A daemon-backed request that runtime limits or the wallet refuse is not recorded as usage.\<close>

definition credit_refused :: "'r gateway_env \<Rightarrow> call \<Rightarrow> app_error \<Rightarrow> ('r, http_response) gw" where
  "credit_refused E c e = do {
     latency_ms \<leftarrow> ask_clock (ge_elapsed E);
     _ \<leftarrow> record_call E c (Some e);
     _ \<leftarrow> on_tables (record_usage (call_billing c (prompt_only_usage c) (fst (from_app_error e)) latency_ms));
     observed_ms \<leftarrow> ask_clock (ge_elapsed E);
     _ \<leftarrow> observe_call c (prompt_only_usage c) (fst (from_app_error e)) observed_ms;
     State_Monad.return (error_of c e) }"

definition limits_refused :: "'r gateway_env \<Rightarrow> call \<Rightarrow> app_error \<Rightarrow> ('r, http_response) gw" where
  "limits_refused E c e = do {
     latency_ms \<leftarrow> ask_clock (ge_elapsed E);
     _ \<leftarrow> record_call E c (Some e);
     _ \<leftarrow> observe_call c (admission_usage c) (app_error_status_code e) latency_ms;
     State_Monad.return (error_of c e) }"

definition daemon_credit_refused :: "'r gateway_env \<Rightarrow> call \<Rightarrow> app_error \<Rightarrow> ('r, http_response) gw" where
  "daemon_credit_refused E c e = do {
     _ \<leftarrow> record_call E c (Some e);
     latency_ms \<leftarrow> ask_clock (ge_elapsed E);
     _ \<leftarrow> observe_call c (prompt_only_usage c) (fst (from_app_error e)) latency_ms;
     State_Monad.return (error_of c e) }"

definition daemon_limits_refused :: "'r gateway_env \<Rightarrow> call \<Rightarrow> app_error \<Rightarrow> ('r, http_response) gw" where
  "daemon_limits_refused E c e = do {
     _ \<leftarrow> record_call E c (Some e);
     latency_ms \<leftarrow> ask_clock (ge_elapsed E);
     _ \<leftarrow> observe_call c (admission_usage c) (app_error_status_code e) latency_ms;
     State_Monad.return (error_of c e) }"

text \<open>The failed call of a provider or a daemon node: its prompt is recorded, never charged; a failure to record it is
  only a warning.\<close>

definition call_failed :: "'r gateway_env \<Rightarrow> call \<Rightarrow> app_error \<Rightarrow> ('r, http_response) gw" where
  "call_failed E c e = do {
     latency_ms \<leftarrow> ask_clock (ge_elapsed E);
     _ \<leftarrow> on_tables (record_usage (call_billing c (prompt_only_usage c) (fst (from_app_error e)) latency_ms));
     _ \<leftarrow> observe_call c (prompt_only_usage c) (fst (from_app_error e)) latency_ms;
     _ \<leftarrow> record_call E c (Some e);
     State_Monad.return (error_of c e) }"

text \<open>An answer: usage is recorded, or the answer is withheld; \<open>answer\<close> makes the response.\<close>

definition call_answered ::
  "'r gateway_env \<Rightarrow> call \<Rightarrow> chat_response \<Rightarrow> ('r, http_response) gw \<Rightarrow> ('r, http_response) gw" where
  "call_answered E c upstream_response answer = do {
     latency_ms \<leftarrow> ask_clock (ge_elapsed E);
     recorded \<leftarrow> on_tables (record_usage (call_billing c (answer_usage c upstream_response) 200 latency_ms));
     case recorded of
       Inl e \<Rightarrow> do {
         _ \<leftarrow> observe_call c (answer_usage c upstream_response) (app_error_status_code e) latency_ms;
         _ \<leftarrow> record_call E c (Some e);
         State_Monad.return (error_of c e) }
     | Inr _ \<Rightarrow> do {
         _ \<leftarrow> observe_call c (answer_usage c upstream_response) 200 latency_ms;
         _ \<leftarrow> record_call E c None;
         answer } }"

text \<open>The lease is released after the response was made.\<close>

definition then_release :: "lease \<Rightarrow> ('r, http_response) gw \<Rightarrow> ('r, http_response) gw" where
  "then_release l m = do {
     response \<leftarrow> m;
     _ \<leftarrow> release_limit_lease (Some l);
     State_Monad.return response }"

definition answered :: "('r, http_response) gw \<Rightarrow> ('r, http_response option) gw" where
  "answered m = do { response \<leftarrow> m; State_Monad.return (Some response) }"

text \<open>Admission: credit, then limits; then the call, which holds a lease.\<close>

definition admit ::
  "'r gateway_env \<Rightarrow> call \<Rightarrow> limit_scope list \<Rightarrow> (app_error \<Rightarrow> ('r, http_response) gw) \<Rightarrow> (app_error \<Rightarrow> ('r, http_response) gw)
    \<Rightarrow> (lease \<Rightarrow> ('r, http_response option) gw) \<Rightarrow> ('r, http_response option) gw" where
  "admit E c limit_scopes no_credit no_lease serve = do {
     credit \<leftarrow> credit_check c;
     case credit of
       Inl e \<Rightarrow> answered (no_credit e)
     | Inr _ \<Rightarrow> do {
         limits \<leftarrow> acquire_runtime_limits E limit_scopes (total_tokens (admission_usage c));
         case limits of
           Inl e \<Rightarrow> answered (no_lease e)
         | Inr l \<Rightarrow> serve l } }"

section \<open>A model that a provider route serves\<close>

definition stream_call ::
  "'r gateway_env \<Rightarrow> call \<Rightarrow> openai_provider \<Rightarrow> str \<Rightarrow> lease \<Rightarrow> ('r, http_response) gw" where
  "stream_call E c provider completion_id l = do {
     upstream_result \<leftarrow> ask_clock (\<lambda>n. gateway_chat_completions_stream (ge_upstream E) n (cl_context c) provider (cl_request c));
     case upstream_result of
       Inl e \<Rightarrow> then_release l (call_failed E c (normalize_provider_error e (cl_context c) (cl_model c)))
     | Inr upstream_stream \<Rightarrow> stream_chat_completion_response completion_id (cl_model c) upstream_stream
         (cr_messages (cl_request c)) (cl_context c)
         \<lparr>sx_route_price = cl_price c, sx_user_id = id_user_id (cl_identity c),
          sx_api_key_id = Some (id_api_key_id (cl_identity c)), sx_provider_id = fst (the (cl_served c)),
          sx_route_id = snd (the (cl_served c)), sx_limit_lease = Some l\<rparr> }"

definition plain_call ::
  "'r gateway_env \<Rightarrow> call \<Rightarrow> openai_provider \<Rightarrow> str \<Rightarrow> lease \<Rightarrow> ('r, http_response) gw" where
  "plain_call E c provider completion_id l = then_release l (do {
     upstream_result \<leftarrow> ask_clock (\<lambda>n. gateway_chat_completions (ge_upstream E) n (cl_context c) provider (cl_request c));
     case upstream_result of
       Inl e \<Rightarrow> call_failed E c (normalize_provider_error e (cl_context c) (cl_model c))
     | Inr upstream_response \<Rightarrow> call_answered E c upstream_response
         (json_chat_completion_response completion_id (cl_model c) upstream_response (cl_context c)) })"

definition routed_scopes :: "api_key_identity \<Rightarrow> resolved_route \<Rightarrow> limit_scope list" where
  "routed_scopes identity route =
     [ApiKey (id_api_key_id identity), User (id_user_id identity), limit_scope.Provider (rv_provider_connection_id route)]"

definition provider_name_of :: "resolved_route \<Rightarrow> str" where
  "provider_name_of route = (if eq_ignore_ascii_case (rv_provider_type route) (lit ''openai'') then lit ''openai''
     else lit ''openai-compatible'')"

definition admit_routed ::
  "'r gateway_env \<Rightarrow> call \<Rightarrow> resolved_route \<Rightarrow> openai_provider \<Rightarrow> str \<Rightarrow> ('r, http_response option) gw" where
  "admit_routed E c route provider completion_id =
     admit E c (routed_scopes (cl_identity c) route) (credit_refused E c) (limits_refused E c) (\<lambda>l. answered
       (if cr_stream (cl_request c) then stream_call E c provider completion_id l
        else plain_call E c provider completion_id l))"

definition routed_context ::
  "api_key_identity \<Rightarrow> resolved_route \<Rightarrow> uuid \<Rightarrow> uuid \<Rightarrow> str \<Rightarrow> request_spec \<Rightarrow> bool \<Rightarrow> request_context \<Rightarrow> request_context" where
  "routed_context identity route request_id trace_id public_model spec stream ctx =
     set_streaming stream (set_model (rv_upstream_model route) (set_provider_id (rv_provider_connection_id route)
     (set_path (sp_path spec) (set_method (lit ''POST'') (set_route_id (rv_id route) (set_route public_model
     (set_trace_id trace_id (set_request_id request_id (set_provider (rv_provider_type route)
     (set_api_key_id (id_api_key_id identity) (set_user_id (id_user_id identity) ctx)))))))))))"

definition routed_chat_completion ::
  "'r gateway_env \<Rightarrow> api_key_identity \<Rightarrow> resolved_route \<Rightarrow> uuid \<Rightarrow> uuid \<Rightarrow> str \<Rightarrow> chat_completions_request \<Rightarrow> request_spec
    \<Rightarrow> ('r, http_response option) gw" where
  "routed_chat_completion E identity route request_id trace_id public_model payload spec = do {
     default_id \<leftarrow> draw_uuid;
     let ctx = routed_context identity route request_id trace_id public_model spec (pq_stream payload)
       (new_context default_id);
     let resolved_log = with_route_alias public_model (new_completion_log ctx);
     case resolve_effective_max_tokens (pq_max_tokens payload) (rv_max_tokens route) (sp_max_tokens_field spec) of
       Inl e \<Rightarrow> answered (refuse E resolved_log ctx e)
     | Inr effective_max_tokens \<Rightarrow> do {
         completion_uuid \<leftarrow> draw_uuid;
         let provider_name = provider_name_of route;
         let c = \<lparr>cl_identity = identity, cl_context = ctx, cl_log = with_provider_alias provider_name resolved_log,
           cl_model = public_model, cl_served = Some (rv_provider_connection_id route, rv_id route), cl_node = None,
           cl_price = route_price_of route,
           cl_request = \<lparr>cr_model = rv_upstream_model route, cr_messages = pq_messages payload,
             cr_stream = pq_stream payload, cr_max_tokens = effective_max_tokens\<rparr>\<rparr>;
         admit_routed E c route (new_provider provider_name (rv_provider_base_url route) (rv_provider_api_key route))
           (lit ''chatcmpl-'' @ completion_uuid) } }"

section \<open>A model that a daemon node serves\<close>

definition ask_daemon ::
  "'r gateway_env \<Rightarrow> dispatch_job_input \<Rightarrow> ('r, (app_error + dispatch_job_result) option) gw" where
  "ask_daemon E input = State (\<lambda>s.
     case dispatch_to_daemon_node (ge_chat E) (ge_others E) (ge_waited E) input (gs_world s) of
       None \<Rightarrow> (None, s)
     | Some (r, w) \<Rightarrow> (Some r, s\<lparr>gs_world := w\<rparr>))"

definition daemon_scopes :: "api_key_identity \<Rightarrow> limit_scope list" where
  "daemon_scopes identity = [ApiKey (id_api_key_id identity), User (id_user_id identity)]"

definition daemon_job :: "'r gateway_env \<Rightarrow> call \<Rightarrow> eligible_node \<Rightarrow> dispatch_job_input" where
  "daemon_job E c node = \<lparr>ji_request_id = rx_request_id (cl_context c), ji_node_id = en_id node,
     ji_user_id = Some (id_user_id (cl_identity c)), ji_api_key_id = Some (id_api_key_id (cl_identity c)),
     ji_model = cl_model c, ji_request = cl_request c,
     ji_timeout_seconds = max 1 (min 30 (cf_limit_lease_seconds (ge_config E)))\<rparr>"

text \<open>The error of a job that did not succeed.\<close>

definition daemon_failure :: "str option \<Rightarrow> str \<Rightarrow> app_error" where
  "daemon_failure error_code error_message =
     app_error.Provider (lit ''daemon dispatch failed code='' @ (case error_code of Some v \<Rightarrow> v | None \<Rightarrow> lit ''daemon_error'')
       @ lit '' message='' @ redact_for_logs error_message)"

definition daemon_result ::
  "'r gateway_env \<Rightarrow> call \<Rightarrow> app_error + dispatch_job_result \<Rightarrow> ('r, http_response) gw" where
  "daemon_result E c r = (case r of
      Inr (Succeeded upstream_response) \<Rightarrow> call_answered E c upstream_response (do {
        completion_uuid \<leftarrow> draw_uuid;
        json_chat_completion_response (lit ''chatcmpl-'' @ completion_uuid) (cl_model c) upstream_response (cl_context c) })
    | Inr (Failed error_code error_message) \<Rightarrow> call_failed E c (daemon_failure error_code error_message)
    | Inr TimedOut \<Rightarrow> call_failed E c (app_error.Provider (lit ''daemon dispatch timed out''))
    | Inl e \<Rightarrow> call_failed E c (normalize_provider_error e (cl_context c) (cl_model c)))"

definition daemon_call :: "'r gateway_env \<Rightarrow> call \<Rightarrow> eligible_node \<Rightarrow> lease \<Rightarrow> ('r, http_response option) gw" where
  "daemon_call E c node l = do {
     found \<leftarrow> ask_daemon E (daemon_job E c node);
     case found of
       None \<Rightarrow> State_Monad.return None
     | Some r \<Rightarrow> do { response \<leftarrow> then_release l (daemon_result E c r); State_Monad.return (Some response) } }"

definition admit_daemon :: "'r gateway_env \<Rightarrow> call \<Rightarrow> eligible_node \<Rightarrow> ('r, http_response option) gw" where
  "admit_daemon E c node =
     admit E c (daemon_scopes (cl_identity c)) (daemon_credit_refused E c) (daemon_limits_refused E c)
       (daemon_call E c node)"

definition daemon_context ::
  "api_key_identity \<Rightarrow> eligible_node \<Rightarrow> uuid \<Rightarrow> uuid \<Rightarrow> str \<Rightarrow> request_spec \<Rightarrow> request_context \<Rightarrow> request_context" where
  "daemon_context identity node request_id trace_id public_model spec ctx =
     set_streaming False (set_model (en_model_id node) (set_path (sp_path spec) (set_method (lit ''POST'')
     (set_route public_model (set_trace_id trace_id (set_request_id request_id (set_provider (en_provider_family node)
     (set_api_key_id (id_api_key_id identity) (set_user_id (id_user_id identity) ctx)))))))))"

definition serve_from_node ::
  "'r gateway_env \<Rightarrow> api_key_identity \<Rightarrow> eligible_node \<Rightarrow> uuid \<Rightarrow> uuid \<Rightarrow> str \<Rightarrow> chat_completions_request \<Rightarrow> request_spec
    \<Rightarrow> ('r, http_response option) gw" where
  "serve_from_node E identity node request_id trace_id public_model payload spec = do {
     default_id \<leftarrow> draw_uuid;
     let ctx = daemon_context identity node request_id trace_id public_model spec (new_context default_id);
     let node_log = with_daemon_node_id (en_id node) (with_provider_alias (lit ''mizan-daemon'')
       (with_route_alias public_model (new_completion_log ctx)));
     case resolve_effective_max_tokens (pq_max_tokens payload) None (sp_max_tokens_field spec) of
       Inl e \<Rightarrow> answered (refuse E node_log ctx e)
     | Inr effective_max_tokens \<Rightarrow>
         admit_daemon E \<lparr>cl_identity = identity, cl_context = ctx, cl_log = node_log, cl_model = public_model,
           cl_served = None, cl_node = Some (en_id node),
           cl_price = \<lparr>input_microcredits_per_1m_tokens = 0, output_microcredits_per_1m_tokens = 0\<rparr>,
           cl_request = \<lparr>cr_model = en_model_id node, cr_messages = pq_messages payload, cr_stream = False,
             cr_max_tokens = effective_max_tokens\<rparr>\<rparr> node }"

definition handle_daemon_chat_completion ::
  "'r gateway_env \<Rightarrow> api_key_identity \<Rightarrow> request_context \<Rightarrow> completion_log \<Rightarrow> uuid \<Rightarrow> str \<Rightarrow> chat_completions_request
    \<Rightarrow> request_spec \<Rightarrow> ('r, http_response option) gw" where
  "handle_daemon_chat_completion E identity ctx l request_id public_model payload spec =
     (if pq_stream payload then answered (refuse E l ctx (InvalidConfig (lit (sp_stream_field spec))
        (lit ''stream is not supported for daemon-backed models yet'')))
      else do {
        found \<leftarrow> on_tables (select_eligible_daemon_node (ge_json E) public_model
          (uint (cf_daemon_stale_seconds (ge_config E))));
        case found of
          Inr (Some node) \<Rightarrow> serve_from_node E identity node request_id (rx_trace_id ctx) public_model payload spec
        | Inr None \<Rightarrow> answered (refuse E l ctx (InvalidConfig (lit (sp_model_field spec)) (lit ''model not found or disabled'')))
        | Inl e \<Rightarrow> answered (refuse E l ctx e) })"

section \<open>The handlers\<close>

definition first_context ::
  "api_key_identity \<Rightarrow> uuid \<Rightarrow> uuid \<Rightarrow> request_spec \<Rightarrow> bool \<Rightarrow> request_context \<Rightarrow> request_context" where
  "first_context identity request_id trace_id spec stream ctx =
     set_streaming stream (set_path (sp_path spec) (set_method (lit ''POST'') (set_trace_id trace_id
     (set_request_id request_id (set_api_key_id (id_api_key_id identity) (set_user_id (id_user_id identity) ctx))))))"

text \<open>The checks before a route is looked for, and the choice between route and daemon node.\<close>

definition serve_request ::
  "'r gateway_env \<Rightarrow> api_key_identity \<Rightarrow> request_context \<Rightarrow> completion_log \<Rightarrow> uuid \<Rightarrow> uuid \<Rightarrow> str
    \<Rightarrow> chat_completions_request \<Rightarrow> request_spec \<Rightarrow> ('r, http_response option) gw" where
  "serve_request E identity ctx unresolved_log request_id trace_id public_model payload spec =
     (if public_model = [] then answered (refuse E unresolved_log ctx
        (InvalidConfig (lit (sp_model_field spec)) (lit ''model is required'')))
      else if \<not> sp_allow_stream spec \<and> pq_stream payload then answered (refuse E unresolved_log ctx
        (InvalidConfig (lit (sp_stream_field spec)) (lit ''stream is not supported for this endpoint yet'')))
      else do {
        found \<leftarrow> on_tables (resolve_model_route (ge_auth E) (ge_vault E) (cf_provider_secret_key (ge_config E))
          (sp_model_field spec) public_model);
        case found of
          Inr route \<Rightarrow> routed_chat_completion E identity route request_id trace_id public_model payload spec
        | Inl e \<Rightarrow> if is_model_route_not_found e
            then handle_daemon_chat_completion E identity ctx unresolved_log request_id public_model payload spec
            else answered (refuse E unresolved_log ctx e) })"

definition chat_completions_impl ::
  "'r gateway_env \<Rightarrow> api_key_identity \<Rightarrow> headers \<Rightarrow> chat_completions_request \<Rightarrow> request_spec
    \<Rightarrow> ('r, http_response option) gw" where
  "chat_completions_impl E identity h payload spec = do {
     out \<leftarrow> what_outside;
     request_id \<leftarrow> (case parse_request_id_header out h ''x-request-id'' of
         Some v \<Rightarrow> State_Monad.return v | None \<Rightarrow> draw_uuid);
     let trace_id = (case parse_request_id_header out h ''x-trace-id'' of Some v \<Rightarrow> v | None \<Rightarrow> request_id);
     let public_model = trim (pq_model payload);
     default_id \<leftarrow> draw_uuid;
     let ctx = first_context identity request_id trace_id spec (pq_stream payload) (new_context default_id);
     let unresolved_log = with_route_alias public_model (new_completion_log ctx);
     serve_request E identity ctx unresolved_log request_id trace_id public_model payload spec }"

definition chat_completions ::
  "'r gateway_env \<Rightarrow> api_key_identity \<Rightarrow> headers \<Rightarrow> chat_completions_request \<Rightarrow> ('r, http_response option) gw" where
  "chat_completions E identity h payload = chat_completions_impl E identity h payload CHAT_COMPLETIONS_SPEC"

definition responses ::
  "'r gateway_env \<Rightarrow> api_key_identity \<Rightarrow> headers \<Rightarrow> chat_completions_request \<Rightarrow> ('r, http_response option) gw" where
  "responses E identity h payload = chat_completions_impl E identity h payload RESPONSES_SPEC"

section \<open>Every request is accounted for\<close>

definition logged :: "spawned list \<Rightarrow> request_log_input list" where
  "logged ts = List.map_filter (\<lambda>t. case t of LogTask i \<Rightarrow> Some i | ReleaseTask _ \<Rightarrow> None) ts"

definition released :: "spawned list \<Rightarrow> lease list" where
  "released ts = List.map_filter (\<lambda>t. case t of LogTask _ \<Rightarrow> None | ReleaseTask l \<Rightarrow> Some l) ts"

lemma logged_simps [simp]: "logged [] = []" "logged (LogTask i # ts) = i # logged ts" "logged (ReleaseTask l # ts) = logged ts"
  "logged (ts @ us) = logged ts @ logged us"
  by (simp_all add: logged_def map_filter_simps) (simp add: List.map_filter_def)

lemma released_simps [simp]: "released [] = []" "released (LogTask i # ts) = released ts"
  "released (ReleaseTask l # ts) = l # released ts" "released (ts @ us) = released ts @ released us"
  by (simp_all add: released_def map_filter_simps) (simp add: List.map_filter_def)

text \<open>A response and the log of its request; a streamed one is logged at its end.\<close>

definition outcome_logged :: "api_key_identity \<Rightarrow> http_response \<Rightarrow> str option \<Rightarrow> request_log_input \<Rightarrow> bool" where
  "outcome_logged who resp code i \<longleftrightarrow> rq_status_code i = hs_status resp \<and> rq_error_code i = code
     \<and> rq_request_id i = hs_request_id resp \<and> rq_user_id i = Some (id_user_id who)
     \<and> rq_api_key_id i = Some (id_api_key_id who)"

definition response_logged :: "api_key_identity \<Rightarrow> http_response \<Rightarrow> request_log_input list \<Rightarrow> bool" where
  "response_logged who resp logs = (case hs_body resp of
      ErrorBody e \<Rightarrow> \<not> is_success_status (hs_status resp) \<and> (\<exists>i. logs = [i] \<and> outcome_logged who resp (Some (env_code e)) i)
    | ChatBody _ \<Rightarrow> hs_status resp = 200 \<and> (\<exists>i. logs = [i] \<and> outcome_logged who resp None i)
    | EventBody st \<Rightarrow> hs_status resp = 200 \<and> logs = [] \<and> sb_emit_done st \<and> sb_latest_usage st = None
        \<and> sb_context st = lg_context (sb_completion_log st) \<and> rx_request_id (sb_context st) = hs_request_id resp
        \<and> sb_user_id st = id_user_id who \<and> (\<exists>items. sb_upstream st = new_sse_state items))"

definition lease_held :: "http_response \<Rightarrow> lease list" where
  "lease_held resp = (case hs_body resp of EventBody st \<Rightarrow> (case sb_limit_lease st of Some l \<Rightarrow> [l] | None \<Rightarrow> []) | _ \<Rightarrow> [])"

text \<open>A step of a handler that makes the response and gets rid of the leases \<open>ls\<close>.\<close>

definition accounts :: "api_key_identity \<Rightarrow> lease list \<Rightarrow> 'r gateway_state \<Rightarrow> http_response \<Rightarrow> 'r gateway_state \<Rightarrow> bool" where
  "accounts who ls s resp s' \<longleftrightarrow> gs_limiter s' = gs_limiter s \<and> (\<exists>added. gs_tasks s' = gs_tasks s @ added
     \<and> response_logged who resp (logged added) \<and> released added @ lease_held resp = ls)"

definition call_ok :: "api_key_identity \<Rightarrow> call \<Rightarrow> bool" where
  "call_ok who c \<longleftrightarrow> cl_identity c = who \<and> lg_context (cl_log c) = cl_context c
     \<and> rx_user_id (cl_context c) = Some (id_user_id who) \<and> rx_api_key_id (cl_context c) = Some (id_api_key_id who)"

lemma error_status [simp]: "\<not> is_success_status (app_error_status_code e)"
  by (cases e) (simp_all add: is_success_status_def)

lemmas step_defs = small_steps record_call_def observe_call_def error_of_def build_error_response_def
  attach_request_headers_def request_log_input_of_def error_code_from_app_error_def envelope_of_def
lemmas accounts_defs = accounts_def response_logged_def outcome_logged_def lease_held_def

lemma refuse_accounts:
  assumes "run_state (refuse E l ctx e) s = (resp, s')" "lg_context l = ctx"
    "rx_user_id ctx = Some (id_user_id who)" "rx_api_key_id ctx = Some (id_api_key_id who)"
  shows "accounts who [] s resp s'"
  using assms by (auto simp: refuse_def step_defs accounts_defs Let_def)

lemma call_step_accounts:
  assumes "call_ok who c"
  shows "run_state (credit_refused E c e) s = (resp, s') \<Longrightarrow> accounts who [] s resp s'"
    "run_state (limits_refused E c e) s = (resp, s') \<Longrightarrow> accounts who [] s resp s'"
    "run_state (daemon_credit_refused E c e) s = (resp, s') \<Longrightarrow> accounts who [] s resp s'"
    "run_state (daemon_limits_refused E c e) s = (resp, s') \<Longrightarrow> accounts who [] s resp s'"
    "run_state (call_failed E c e) s = (resp, s') \<Longrightarrow> accounts who [] s resp s'"
  using assms
  by (auto simp: credit_refused_def limits_refused_def daemon_credit_refused_def daemon_limits_refused_def
      call_failed_def step_defs accounts_defs Let_def call_ok_def split: prod.splits)

lemma call_answered_accounts:
  assumes "run_state (call_answered E c r answer) s = (resp, s')" "call_ok who c"
    and "\<And>s resp s'. run_state answer s = (resp, s') \<Longrightarrow> (\<exists>b. hs_body resp = ChatBody b) \<and> hs_status resp = 200
      \<and> hs_request_id resp = rx_request_id (cl_context c) \<and> gs_tasks s' = gs_tasks s \<and> gs_limiter s' = gs_limiter s"
  shows "accounts who [] s resp s'"
proof -
  obtain r1 w where rec: "record_usage (call_billing c (answer_usage c r) 200 (ge_elapsed E (gs_calls s))) (gs_world s)
    = (r1, w)" by fastforce
  show ?thesis
  proof (cases r1)
    case (Inl e)
    then show ?thesis
      using assms(1,2) rec by (auto simp: call_answered_def step_defs accounts_defs Let_def call_ok_def)
  next
    case (Inr u)
    define s1 where "s1 = snd (run_state (do { _ \<leftarrow> observe_call c (answer_usage c r) 200 (ge_elapsed E (gs_calls s));
      record_call E c None }) (s\<lparr>gs_world := w, gs_calls := Suc (gs_calls s)\<rparr>))"
    have run: "run_state answer s1 = (resp, s')"
      using assms(1) rec Inr by (simp add: call_answered_def step_defs s1_def Let_def)
    have "gs_limiter s1 = gs_limiter s" "\<exists>i. gs_tasks s1 = gs_tasks s @ [LogTask i] \<and> rq_status_code i = 200
      \<and> rq_error_code i = None \<and> rq_request_id i = rx_request_id (cl_context c) \<and> rq_user_id i = Some (id_user_id who)
      \<and> rq_api_key_id i = Some (id_api_key_id who)"
      using assms(2) by (simp_all add: s1_def step_defs Let_def call_ok_def)
    with assms(3) [OF run] show ?thesis by (auto simp: accounts_defs)
  qed
qed

text \<open>An answer whose usage is recorded is given.\<close>

lemma call_answered_recorded:
  assumes "record_usage (call_billing c (answer_usage c x) 200 (ge_elapsed E (gs_calls s))) (gs_world s) = (Inr (), w')"
  shows "\<exists>s'. run_state (call_answered E c x answer) s = run_state answer s' \<and> gs_world s' = w'"
  using assms by (simp add: call_answered_def step_defs) (rule exI, rule conjI, rule refl, simp)

lemma json_response_now:
  "run_state (json_chat_completion_response i m x ctx) s = (attach_request_headers ctx 200
     (ChatBody (map_to_chat_completion_response i m x (clock (env (gs_world s)) (tick (gs_world s))))),
     s\<lparr>gs_world := tick_world (gs_world s)\<rparr>)"
  by (simp add: json_chat_completion_response_def read_clock_def)

lemma then_release_accounts:
  assumes "run_state (then_release l m) s = (resp, s')"
    and "\<And>resp s'. run_state m s = (resp, s') \<Longrightarrow> accounts who [] s resp s'"
  shows "accounts who [l] s resp s'"
proof -
  obtain s1 where m: "run_state m s = (resp, s1)" "s' = s1\<lparr>gs_tasks := gs_tasks s1 @ [ReleaseTask l]\<rparr>"
    using assms(1) by (auto simp: then_release_def release_limit_lease_def split: prod.splits)
  from assms(2) [OF this(1)] this(2) show ?thesis
    by (auto simp: accounts_def)
qed

lemma json_response_run:
  "run_state (json_chat_completion_response cid m r ctx) s = (resp, s') \<Longrightarrow> (\<exists>b. hs_body resp = ChatBody b)
     \<and> hs_status resp = 200 \<and> hs_request_id resp = rx_request_id ctx \<and> gs_tasks s' = gs_tasks s \<and> gs_limiter s' = gs_limiter s"
  by (auto simp: json_chat_completion_response_def read_clock_def attach_request_headers_def)

lemma stream_response_run:
  assumes "run_state (stream_chat_completion_response cid m (new_sse_state items) msgs (cl_context c) b) s = (resp, s')"
    "sx_limit_lease b = Some l" "sx_user_id b = id_user_id who"
  shows "accounts who [l] s resp s'"
  using assms by (auto simp: stream_chat_completion_response_def build_stream_events_def read_clock_def
      attach_request_headers_def accounts_defs new_completion_log_def with_route_alias_def)

lemma stream_call_accounts:
  assumes "run_state (stream_call E c p cid l) s = (resp, s')" "call_ok who c"
  shows "accounts who [l] s resp s'"
proof -
  let ?r = "gateway_chat_completions_stream (ge_upstream E) (gs_calls s) (cl_context c) p (cl_request c)"
  show ?thesis
  proof (cases ?r)
    case (Inl e)
    then have "run_state (then_release l (call_failed E c (normalize_provider_error e (cl_context c) (cl_model c))))
      (s\<lparr>gs_calls := Suc (gs_calls s)\<rparr>) = (resp, s')"
      using assms(1) by (simp add: stream_call_def)
    from then_release_accounts [OF this call_step_accounts(5) [OF assms(2)]] show ?thesis
      by (simp add: accounts_def)
  next
    case (Inr up)
    then obtain items where "up = new_sse_state items"
      by (auto simp: gateway_chat_completions_stream_def provider_chat_completions_stream_def and_then_Inr)
    with Inr assms(1) have "accounts who [l] (s\<lparr>gs_calls := Suc (gs_calls s)\<rparr>) resp s'"
      using assms(2) by (intro stream_response_run [where items = items]) (auto simp: stream_call_def call_ok_def)
    then show ?thesis by (simp add: accounts_def)
  qed
qed

lemma plain_call_accounts:
  assumes "run_state (plain_call E c p cid l) s = (resp, s')" "call_ok who c"
  shows "accounts who [l] s resp s'"
  using assms(1) unfolding plain_call_def
proof (rule then_release_accounts)
  fix resp s'
  assume run: "run_state (do { upstream_result \<leftarrow> ask_clock (\<lambda>n. gateway_chat_completions (ge_upstream E) n (cl_context c) p
      (cl_request c)); case upstream_result of
       Inl e \<Rightarrow> call_failed E c (normalize_provider_error e (cl_context c) (cl_model c))
     | Inr upstream_response \<Rightarrow> call_answered E c upstream_response
         (json_chat_completion_response cid (cl_model c) upstream_response (cl_context c)) }) s = (resp, s')"
  let ?r = "gateway_chat_completions (ge_upstream E) (gs_calls s) (cl_context c) p (cl_request c)"
  have "accounts who [] (s\<lparr>gs_calls := Suc (gs_calls s)\<rparr>) resp s'"
    using run assms(2)
    by (cases ?r) (auto intro: call_step_accounts call_answered_accounts dest: json_response_run)
  then show "accounts who [] s resp s'" by (simp add: accounts_def)
qed

lemma daemon_result_accounts:
  assumes "run_state (daemon_result E c r) s = (resp, s')" "call_ok who c"
  shows "accounts who [] s resp s'"
proof -
  have answer: "(\<exists>b. hs_body resp = ChatBody b) \<and> hs_status resp = 200 \<and> hs_request_id resp = rx_request_id (cl_context c)
      \<and> gs_tasks s' = gs_tasks s \<and> gs_limiter s' = gs_limiter s"
    if "run_state (do { completion_uuid \<leftarrow> draw_uuid;
        json_chat_completion_response (lit ''chatcmpl-'' @ completion_uuid) (cl_model c) r (cl_context c) }) s = (resp, s')"
    for r s resp s'
    using that json_response_run by (fastforce simp: draw_uuid_def)
  show ?thesis
  proof (cases r)
    case (Inl e)
    then show ?thesis using assms by (auto simp: daemon_result_def intro: call_step_accounts)
  next
    case (Inr x)
    then show ?thesis
    proof (cases x)
      case (Succeeded y)
      then show ?thesis
        using assms Inr unfolding daemon_result_def by (simp del: run_bind) (rule call_answered_accounts, assumption+, rule answer)
    qed (use assms Inr in \<open>auto simp: daemon_result_def intro: call_step_accounts\<close>)
  qed
qed

text \<open>The leases that the limiter granted to a request: none, or one for its key and user.\<close>

definition leases_granted ::
  "'r gateway_env \<Rightarrow> api_key_identity \<Rightarrow> 'r gateway_state \<Rightarrow> 'r gateway_state \<Rightarrow> lease list \<Rightarrow> bool" where
  "leases_granted E who s s' ls \<longleftrightarrow> gs_limiter s' = gs_limiter s \<and> ls = []
     \<or> (\<exists>request r. {ApiKey (id_api_key_id who), User (id_user_id who)} \<subseteq> set (scopes request)
          \<and> check_and_acquire (ge_redis E) (runtime_policy (ge_config E)) request (gs_limiter s) = (r, gs_limiter s')
          \<and> ls = (case r of Inl _ \<Rightarrow> [] | Inr l \<Rightarrow> [l]))"

definition accounted ::
  "'r gateway_env \<Rightarrow> api_key_identity \<Rightarrow> 'r gateway_state \<Rightarrow> http_response \<Rightarrow> 'r gateway_state \<Rightarrow> bool" where
  "accounted E who s resp s' \<longleftrightarrow> (\<exists>added. gs_tasks s' = gs_tasks s @ added \<and> response_logged who resp (logged added)
     \<and> leases_granted E who s s' (released added @ lease_held resp))"

lemma accounted_intro:
  assumes "accounts who ls s1 resp s'" "gs_tasks s1 = gs_tasks s" "leases_granted E who s s1 ls"
  shows "accounted E who s resp s'"
  using assms by (auto simp: accounts_def accounted_def leases_granted_def)

lemma accounted_quiet:
  assumes "accounts who [] s1 resp s'" "gs_tasks s1 = gs_tasks s" "gs_limiter s1 = gs_limiter s"
  shows "accounted E who s resp s'"
  using assms by (auto intro: accounted_intro simp: leases_granted_def)

lemma accounted_after:
  "accounted E who s1 resp s' \<Longrightarrow> gs_tasks s1 = gs_tasks s \<Longrightarrow> gs_limiter s1 = gs_limiter s \<Longrightarrow> accounted E who s resp s'"
  by (simp add: accounted_def leases_granted_def)

text \<open>The limiter has room for a call.\<close>

definition admits :: "'r gateway_env \<Rightarrow> limit_scope list \<Rightarrow> call \<Rightarrow> 'r gateway_state \<Rightarrow> bool" where
  "admits E limit_scopes c s \<longleftrightarrow> ge_join E (gs_calls s) = None
     \<and> \<not> isl (fst (check_and_acquire (ge_redis E) (runtime_policy (ge_config E))
          \<lparr>scopes = limit_scopes, estimated_prompt_tokens = total_tokens (admission_usage c)\<rparr> (gs_limiter s)))"

lemma admitsE:
  assumes "admits E limit_scopes c s"
  obtains l limiter where "ge_join E (gs_calls s) = None" "check_and_acquire (ge_redis E) (runtime_policy (ge_config E))
    \<lparr>scopes = limit_scopes, estimated_prompt_tokens = total_tokens (admission_usage c)\<rparr> (gs_limiter s) = (Inr l, limiter)"
  using assms unfolding admits_def by (metis prod.collapse sum.collapse(2))

lemma first_context_trace [simp]: "rx_trace_id (first_context who request_id trace_id spec stream ctx) = trace_id"
  by (simp add: first_context_def set_streaming_def set_path_def set_method_def set_trace_id_def)

text \<open>What an admission yields, before the call is made.\<close>

lemma credit_check_run: "run_state (credit_check c) s = (r, s1) \<Longrightarrow> gs_tasks s1 = gs_tasks s \<and> gs_limiter s1 = gs_limiter s"
  by (auto simp: credit_check_def split: prod.splits)

lemma acquire_run:
  assumes "run_state (acquire_runtime_limits E scs n) s = (r, s1)"
    "{ApiKey (id_api_key_id who), User (id_user_id who)} \<subseteq> set scs"
  shows "gs_tasks s1 = gs_tasks s" "leases_granted E who s s1 (case r of Inl _ \<Rightarrow> [] | Inr l \<Rightarrow> [l])"
proof -
  show "gs_tasks s1 = gs_tasks s"
    using assms(1) by (auto simp: acquire_runtime_limits_def split: option.splits prod.splits)
  show "leases_granted E who s s1 (case r of Inl _ \<Rightarrow> [] | Inr l \<Rightarrow> [l])"
  proof (cases "ge_join E (gs_calls s)")
    case None
    then have "check_and_acquire (ge_redis E) (runtime_policy (ge_config E))
        \<lparr>scopes = scs, estimated_prompt_tokens = n\<rparr> (gs_limiter s) = (r, gs_limiter s1)"
      using assms(1) by (auto simp: acquire_runtime_limits_def split: prod.splits)
    then show ?thesis
      using assms(2) unfolding leases_granted_def
      by (intro disjI2 exI [of _ "\<lparr>scopes = scs, estimated_prompt_tokens = n\<rparr>"] exI [of _ r]) simp
  next
    case (Some e)
    then show ?thesis using assms(1) by (auto simp: acquire_runtime_limits_def leases_granted_def)
  qed
qed

lemma answered_run [simp]:
  "run_state (answered m) s = (x, s') \<longleftrightarrow> (\<exists>resp. run_state m s = (resp, s') \<and> x = Some resp)"
  by (auto simp: answered_def split: prod.splits)

lemma admit_accounted:
  assumes run: "run_state (admit E c scs no_credit no_lease serve) s = (Some resp, s')"
    and sub: "{ApiKey (id_api_key_id who), User (id_user_id who)} \<subseteq> set scs"
    and refused: "\<And>e s s'. run_state (no_credit e) s = (resp, s') \<Longrightarrow> accounts who [] s resp s'"
      "\<And>e s s'. run_state (no_lease e) s = (resp, s') \<Longrightarrow> accounts who [] s resp s'"
    and served: "\<And>l s s'. run_state (serve l) s = (Some resp, s') \<Longrightarrow> accounts who [l] s resp s'"
  shows "accounted E who s resp s'"
proof -
  obtain r s1 where credit: "run_state (credit_check c) s = (r, s1)" by fastforce
  note s1 = credit_check_run [OF credit]
  show ?thesis
  proof (cases r)
    case (Inl e)
    then have "run_state (no_credit e) s1 = (resp, s')" using run credit by (simp add: admit_def)
    with s1 show ?thesis by (auto intro: accounted_quiet refused(1))
  next
    case (Inr u)
    obtain q s2 where acquire: "run_state (acquire_runtime_limits E scs (total_tokens (admission_usage c))) s1 = (q, s2)"
      by fastforce
    note s2 = acquire_run [OF acquire sub]
    have "accounts who (case q of Inl _ \<Rightarrow> [] | Inr l \<Rightarrow> [l]) s2 resp s'"
      using run credit Inr acquire by (cases q) (auto simp: admit_def intro: refused(2) served)
    from accounted_intro [OF this s2] s1 show ?thesis by (auto intro: accounted_after)
  qed
qed

lemma admit_routed_accounted:
  assumes "run_state (admit_routed E c route p cid) s = (Some resp, s')" "call_ok who c"
  shows "accounted E who s resp s'"
  using assms(1) unfolding admit_routed_def
  by (rule admit_accounted)
    (use assms(2) in \<open>auto simp: routed_scopes_def call_ok_def [THEN iffD1] intro: call_step_accounts stream_call_accounts
      plain_call_accounts split: if_splits\<close>)

lemma daemon_call_accounts:
  assumes "run_state (daemon_call E c node l) s = (Some resp, s')" "call_ok who c"
  shows "accounts who [l] s resp s'"
proof -
  obtain d w where d: "run_state (then_release l (daemon_result E c d)) (s\<lparr>gs_world := w\<rparr>) = (resp, s')"
    using assms(1) by (auto simp: daemon_call_def ask_daemon_def split: option.splits prod.splits)
  have "accounts who [l] (s\<lparr>gs_world := w\<rparr>) resp s'"
    by (rule then_release_accounts [OF d]) (rule daemon_result_accounts [OF _ assms(2)])
  then show ?thesis by (simp add: accounts_def)
qed

lemma admit_daemon_accounted:
  assumes "run_state (admit_daemon E c node) s = (Some resp, s')" "call_ok who c"
  shows "accounted E who s resp s'"
  using assms(1) unfolding admit_daemon_def
  by (rule admit_accounted)
    (use assms(2) in \<open>auto simp: daemon_scopes_def call_ok_def [THEN iffD1] intro: call_step_accounts daemon_call_accounts\<close>)

lemma draw_uuid_run [simp]:
  "run_state draw_uuid s = (fresh (env (gs_world s)) (tick (gs_world s)), s\<lparr>gs_world := tick_world (gs_world s)\<rparr>)"
  by (simp add: draw_uuid_def)

text \<open>The contexts of a request carry its identity.\<close>

lemma context_fields [simp]:
  "rx_user_id (routed_context who route rid tid m spec b ctx) = Some (id_user_id who)"
  "rx_api_key_id (routed_context who route rid tid m spec b ctx) = Some (id_api_key_id who)"
  "rx_user_id (daemon_context who node rid tid m spec ctx) = Some (id_user_id who)"
  "rx_api_key_id (daemon_context who node rid tid m spec ctx) = Some (id_api_key_id who)"
  "rx_user_id (first_context who rid tid spec b ctx) = Some (id_user_id who)"
  "rx_api_key_id (first_context who rid tid spec b ctx) = Some (id_api_key_id who)"
  by (simp_all add: routed_context_def daemon_context_def first_context_def set_request_id_def set_trace_id_def
      set_user_id_def set_api_key_id_def set_provider_def set_provider_id_def set_route_def set_route_id_def
      set_method_def set_path_def set_model_def set_streaming_def)

lemma log_context [simp]: "lg_context (new_completion_log ctx) = ctx" "lg_context (with_route_alias v l) = lg_context l"
  "lg_context (with_provider_alias v l) = lg_context l" "lg_context (with_daemon_node_id u l) = lg_context l"
  by (simp_all add: new_completion_log_def with_route_alias_def with_provider_alias_def with_daemon_node_id_def)

lemma refused_accounted:
  assumes "run_state (refuse E l (lg_context l) e) s = (resp, s')"
    "rx_user_id (lg_context l) = Some (id_user_id who)" "rx_api_key_id (lg_context l) = Some (id_api_key_id who)"
  shows "accounted E who s resp s'"
  using refuse_accounts [OF assms(1) refl assms(2,3)] by (auto intro: accounted_quiet)

lemma routed_accounted:
  assumes "run_state (routed_chat_completion E who route rid tid m payload spec) s = (Some resp, s')"
  shows "accounted E who s resp s'"
proof -
  define ctx where "ctx = routed_context who route rid tid m spec (pq_stream payload)
    (new_context (fresh (env (gs_world s)) (tick (gs_world s))))"
  show ?thesis
  proof (cases "resolve_effective_max_tokens (pq_max_tokens payload) (rv_max_tokens route) (sp_max_tokens_field spec)")
    case (Inl e)
    then have "run_state (refuse E (with_route_alias m (new_completion_log ctx)) ctx e)
        (s\<lparr>gs_world := tick_world (gs_world s)\<rparr>) = (resp, s')"
      using assms by (simp add: routed_chat_completion_def ctx_def Let_def)
    then have "accounted E who (s\<lparr>gs_world := tick_world (gs_world s)\<rparr>) resp s'"
      by (intro refused_accounted [where l = "with_route_alias m (new_completion_log ctx)"]) (simp_all add: ctx_def)
    then show ?thesis by (auto intro: accounted_after)
  next
    case (Inr n)
    define c where "c = \<lparr>cl_identity = who, cl_context = ctx,
      cl_log = with_provider_alias (provider_name_of route) (with_route_alias m (new_completion_log ctx)),
      cl_model = m, cl_served = Some (rv_provider_connection_id route, rv_id route), cl_node = None,
      cl_price = route_price_of route, cl_request = \<lparr>cr_model = rv_upstream_model route, cr_messages = pq_messages payload,
        cr_stream = pq_stream payload, cr_max_tokens = n\<rparr>\<rparr>"
    have "\<exists>p cid. run_state (admit_routed E c route p cid)
        (s\<lparr>gs_world := tick_world (tick_world (gs_world s))\<rparr>) = (Some resp, s')"
      using assms Inr by (simp add: routed_chat_completion_def c_def ctx_def Let_def) blast
    moreover have "call_ok who c" by (simp add: call_ok_def c_def ctx_def)
    ultimately have "accounted E who (s\<lparr>gs_world := tick_world (tick_world (gs_world s))\<rparr>) resp s'"
      using admit_routed_accounted by blast
    then show ?thesis by (auto intro: accounted_after)
  qed
qed

lemma served_from_node_accounted:
  assumes "run_state (serve_from_node E who node rid tid m payload spec) s = (Some resp, s')"
  shows "accounted E who s resp s'"
proof -
  define ctx where "ctx = daemon_context who node rid tid m spec
    (new_context (fresh (env (gs_world s)) (tick (gs_world s))))"
  define l where "l = with_daemon_node_id (en_id node) (with_provider_alias (lit ''mizan-daemon'')
    (with_route_alias m (new_completion_log ctx)))"
  have "accounted E who (s\<lparr>gs_world := tick_world (gs_world s)\<rparr>) resp s'"
  proof (cases "resolve_effective_max_tokens (pq_max_tokens payload) None (sp_max_tokens_field spec)")
    case (Inl e)
    then have "run_state (refuse E l ctx e) (s\<lparr>gs_world := tick_world (gs_world s)\<rparr>) = (resp, s')"
      using assms by (simp add: serve_from_node_def ctx_def l_def Let_def)
    then show ?thesis by (intro refused_accounted [where l = l]) (simp_all add: ctx_def l_def)
  next
    case (Inr n)
    define c where "c = \<lparr>cl_identity = who, cl_context = ctx, cl_log = l, cl_model = m, cl_served = None,
      cl_node = Some (en_id node),
      cl_price = \<lparr>input_microcredits_per_1m_tokens = 0, output_microcredits_per_1m_tokens = 0\<rparr>,
      cl_request = \<lparr>cr_model = en_model_id node, cr_messages = pq_messages payload, cr_stream = False,
        cr_max_tokens = n\<rparr>\<rparr>"
    have "run_state (admit_daemon E c node) (s\<lparr>gs_world := tick_world (gs_world s)\<rparr>) = (Some resp, s')"
      using assms Inr by (simp add: serve_from_node_def c_def ctx_def l_def Let_def)
    moreover have "call_ok who c" by (simp add: call_ok_def c_def ctx_def l_def)
    ultimately show ?thesis by (rule admit_daemon_accounted)
  qed
  then show ?thesis by (auto intro: accounted_after)
qed

lemma daemon_accounted:
  assumes run: "run_state (handle_daemon_chat_completion E who ctx l rid m payload spec) s = (Some resp, s')"
    and l: "lg_context l = ctx" "rx_user_id ctx = Some (id_user_id who)" "rx_api_key_id ctx = Some (id_api_key_id who)"
  shows "accounted E who s resp s'"
proof -
  note refused = refused_accounted [where l = l, unfolded l(1), OF _ l(2,3)]
  obtain found w where sel: "select_eligible_daemon_node (ge_json E) m (uint (cf_daemon_stale_seconds (ge_config E)))
      (gs_world s) = (found, w)" by fastforce
  have "accounted E who (s\<lparr>gs_world := w\<rparr>) resp s'" if "\<not> pq_stream payload"
    using run sel that
    by (auto simp: handle_daemon_chat_completion_def intro: refused served_from_node_accounted
        split: sum.splits option.splits)
  then show ?thesis
    using run by (cases "pq_stream payload")
      (auto simp: handle_daemon_chat_completion_def intro: refused accounted_after)
qed

lemma served_accounted:
  assumes run: "run_state (serve_request E who ctx l rid tid m payload spec) s = (Some resp, s')"
    and l: "lg_context l = ctx" "rx_user_id ctx = Some (id_user_id who)" "rx_api_key_id ctx = Some (id_api_key_id who)"
  shows "accounted E who s resp s'"
proof -
  note refused = refused_accounted [where l = l, unfolded l(1), OF _ l(2,3)]
  obtain found w where res: "resolve_model_route (ge_auth E) (ge_vault E) (cf_provider_secret_key (ge_config E))
      (sp_model_field spec) m (gs_world s) = (found, w)" by fastforce
  show ?thesis
  proof (cases "m = [] \<or> \<not> sp_allow_stream spec \<and> pq_stream payload")
    case True
    then show ?thesis using run by (auto simp: serve_request_def intro: refused split: if_splits)
  next
    case False
    then have "accounted E who (s\<lparr>gs_world := w\<rparr>) resp s'"
      using run res l by (auto simp: serve_request_def intro: refused routed_accounted daemon_accounted
          split: sum.splits if_splits)
    then show ?thesis by (auto intro: accounted_after)
  qed
qed

lemma impl_run:
  assumes "run_state (chat_completions_impl E who h payload spec) s = (x, s')"
  shows "\<exists>rid tid w l. run_state (serve_request E who (lg_context l) l rid tid (trim (pq_model payload)) payload spec)
      (s\<lparr>gs_world := w\<rparr>) = (x, s') \<and> rx_user_id (lg_context l) = Some (id_user_id who)
    \<and> rx_api_key_id (lg_context l) = Some (id_api_key_id who) \<and> env w = env (gs_world s) \<and> db w = db (gs_world s)"
proof -
  obtain rid w where rid: "run_state (case parse_request_id_header (env (gs_world s)) h ''x-request-id'' of
      Some v \<Rightarrow> State_Monad.return v | None \<Rightarrow> draw_uuid) s = (rid, s\<lparr>gs_world := w\<rparr>)"
    "env w = env (gs_world s)" "db w = db (gs_world s)"
    by (cases "parse_request_id_header (env (gs_world s)) h ''x-request-id''")
      (auto intro: that that [of _ "gs_world s"])
  define tid where "tid = (case parse_request_id_header (env (gs_world s)) h ''x-trace-id'' of Some v \<Rightarrow> v | None \<Rightarrow> rid)"
  define l where "l = with_route_alias (trim (pq_model payload)) (new_completion_log
    (first_context who rid tid spec (pq_stream payload) (new_context (fresh (env w) (tick w)))))"
  have "run_state (serve_request E who (lg_context l) l rid tid (trim (pq_model payload)) payload spec)
      (s\<lparr>gs_world := tick_world w\<rparr>) = (x, s')"
    using assms rid by (simp add: chat_completions_impl_def what_outside_def l_def tid_def Let_def)
  then show ?thesis
    using rid(2,3) by (intro exI [of _ rid] exI [of _ tid] exI [of _ "tick_world w"] exI [of _ l]) (simp add: l_def)
qed

lemma impl_accounted:
  assumes "run_state (chat_completions_impl E who h payload spec) s = (Some resp, s')"
  shows "accounted E who s resp s'"
proof -
  obtain rid tid w l where "run_state (serve_request E who (lg_context l) l rid tid (trim (pq_model payload)) payload spec)
      (s\<lparr>gs_world := w\<rparr>) = (Some resp, s')" "rx_user_id (lg_context l) = Some (id_user_id who)"
    "rx_api_key_id (lg_context l) = Some (id_api_key_id who)"
    using impl_run [OF assms] by blast
  from served_accounted [OF this(1) refl this(2,3)] show ?thesis by (auto intro: accounted_after)
qed

section \<open>Every request is answered\<close>

definition returns :: "('r, 'a option) gw \<Rightarrow> bool" where
  "returns m \<longleftrightarrow> (\<forall>s. \<exists>x s'. run_state m s = (Some x, s'))"

named_theorems returns_intros \<open>handlers that return\<close>

lemma returns_bind [returns_intros]: "(\<And>a. returns (k a)) \<Longrightarrow> returns (State_Monad.bind m k)"
  unfolding returns_def by (auto split: prod.splits)

lemma returns_answered [returns_intros]: "returns (answered m)"
  unfolding returns_def answered_def by (auto split: prod.splits)

lemma returns_cases [returns_intros]:
  "(c \<Longrightarrow> returns m) \<Longrightarrow> (\<not> c \<Longrightarrow> returns n) \<Longrightarrow> returns (if c then m else n)"
  "(\<And>e. returns (f e)) \<Longrightarrow> (\<And>a. returns (g a)) \<Longrightarrow> returns (case r of Inl e \<Rightarrow> f e | Inr a \<Rightarrow> g a)"
  "returns m' \<Longrightarrow> (\<And>a. returns (k' a)) \<Longrightarrow> returns (case x of None \<Rightarrow> m' | Some a \<Rightarrow> k' a)"
  by (auto split: sum.split option.split)

lemma dispatch_returns:
  assumes "clock_ok elapsed"
  shows "\<exists>r w'. dispatch_to_daemon_node c others elapsed input w = Some (r, w')"
proof -
  have "\<exists>x. wait_for_dispatch_result c others elapsed i t w1 = Some x" for i t w1
    using wait_loop_terminates [OF assms, of "t * 1000" 0 "wait_fuel (t * 1000)"]
    by (simp add: wait_for_dispatch_result_def wait_fuel_def)
  then show ?thesis
    by (auto simp: dispatch_to_daemon_node_def prod_eq_iff split: prod.splits sum.splits option.splits
        dispatch_job_result.splits) (metis not_None_eq)+
qed

lemma daemon_call_returns:
  fixes E :: "'r gateway_env"
  assumes "clock_ok (ge_waited E)"
  shows "returns (daemon_call E c node l)"
  unfolding returns_def
proof
  fix s :: "'r gateway_state"
  obtain r w where "dispatch_to_daemon_node (ge_chat E) (ge_others E) (ge_waited E) (daemon_job E c node) (gs_world s)
    = Some (r, w)" using dispatch_returns [OF assms] by blast
  then show "\<exists>x s'. run_state (daemon_call E c node l) s = (Some x, s')"
    by (auto simp: daemon_call_def ask_daemon_def split: prod.splits)
qed

lemma impl_returns:
  assumes "clock_ok (ge_waited E)"
  shows "returns (chat_completions_impl E who h payload spec)"
  unfolding chat_completions_impl_def serve_request_def handle_daemon_chat_completion_def serve_from_node_def
    routed_chat_completion_def admit_routed_def admit_daemon_def admit_def Let_def
  by (intro returns_intros daemon_call_returns assms)

section \<open>Properties\<close>

text \<open>C3. Every authenticated chat request is answered, also one that waits for a daemon node, and
  accounted for: an error is never a success status, and it is logged once under the status, error code and
  request id the caller sees, for the caller's key and user; so is an answer; a stream carries
  its log with it. The limiter is asked at most once, for the caller's key and user, and the lease it
  granted is released exactly once or held by the stream that is the response; a request that got no lease
  releases none.\<close>

theorem every_request_is_answered_and_accounted:
  assumes "clock_ok (ge_waited E)"
  shows "\<exists>resp s'. run_state (chat_completions_impl E who h payload spec) s = (Some resp, s') \<and> accounted E who s resp s'"
  using impl_returns [OF assms] impl_accounted unfolding returns_def by blast

definition sample_request :: "string \<Rightarrow> chat_completions_request" where
  "sample_request model = \<lparr>pq_model = lit model, pq_messages = [], pq_stream = False, pq_max_tokens = None\<rparr>"

lemma sample_no_model:
  "\<exists>s'. run_state (chat_completions_impl sample_gateway sample_admin (\<lambda>_. None) (sample_request ''d'')
     CHAT_COMPLETIONS_SPEC) (sample_gateway_state empty_database) = (Some (build_error_response (first_context sample_admin [100]
       [100] CHAT_COMPLETIONS_SPEC False (new_context [101])) 400 (envelope_of (InvalidConfig (lit ''chat_completion.model'')
       (lit ''model not found or disabled'')))), s')"
proof -
  have m: "trim (pq_model (sample_request ''d'')) = lit ''d''" "\<not> pq_stream (sample_request ''d'')"
    by (simp_all add: sample_request_def lit_def sample_trims)
  have no_header: "parse_request_id_header out (\<lambda>_. None) v = None" for out v
    by (simp add: parse_request_id_header_def header_text_def)
  let ?w = "tick_world (tick_world (calm_world empty_database))"
  have route: "\<exists>w'. resolve_model_route a v k f (lit ''d'') ?w =
      (Inl (InvalidConfig (lit f) (lit ''model not found or disabled'')), w') \<and> db w' = empty_database \<and> env w' = calm"
    for a v k f
    by (simp add: resolve_model_route_def run_simps calm_world_def calm_def empty_database_def joined_def)
  have node: "\<exists>w'. select_eligible_daemon_node k (lit ''d'') n w = (Inr None, w')"
    if "db w = empty_database" "env w = calm" for k n w
    using that by (simp add: select_eligible_daemon_node_def run_simps calm_def empty_database_def candidate_rows_def
        sample_trims lit_def)
  obtain w1 where r: "resolve_model_route (ge_auth sample_gateway) (ge_vault sample_gateway)
      (cf_provider_secret_key (ge_config sample_gateway)) CHAT_COMPLETIONS_MODEL_FIELD (lit ''d'') ?w
      = (Inl (InvalidConfig (lit CHAT_COMPLETIONS_MODEL_FIELD) (lit ''model not found or disabled'')), w1)"
    "db w1 = empty_database" "env w1 = calm" using route by blast
  obtain w2 where n: "select_eligible_daemon_node (ge_json sample_gateway) (lit ''d'')
      (uint (cf_daemon_stale_seconds (ge_config sample_gateway))) w1 = (Inr None, w2)" using node [OF r(2,3)] by blast
  have spec: "sp_model_field CHAT_COMPLETIONS_SPEC = CHAT_COMPLETIONS_MODEL_FIELD" "sp_allow_stream CHAT_COMPLETIONS_SPEC"
    by (simp_all add: CHAT_COMPLETIONS_SPEC_def)
  have s0: "gs_world (sample_gateway_state d) = calm_world d" "fresh (env (calm_world d)) = (\<lambda>n. [n])"
    "tick (calm_world d) = 100" for d
    by (simp_all add: sample_gateway_state_def calm_world_def calm_def)
  show ?thesis
    by (simp add: chat_completions_impl_def serve_request_def handle_daemon_chat_completion_def Let_def what_outside_def
        no_header m spec s0 r(1) n is_model_route_not_found_def refuse_def small_steps)
      (simp add: CHAT_COMPLETIONS_MODEL_FIELD_def calm_def)
qed

theorem every_request_is_answered_and_accounted_witness:
  "\<exists>resp s'. run_state (chat_completions_impl sample_gateway sample_admin (\<lambda>_. None) (sample_request ''d'')
       CHAT_COMPLETIONS_SPEC) (sample_gateway_state empty_database) = (Some resp, s')
     \<and> hs_status resp = 400 \<and> map rq_status_code (logged (gs_tasks s')) = [400]"
proof -
  have "clock_ok (ge_waited sample_gateway)" by (simp add: clock_ok_def sample_gateway_def)
  from every_request_is_answered_and_accounted [OF this, of sample_admin "\<lambda>_. None" "sample_request ''d''"
      CHAT_COMPLETIONS_SPEC "sample_gateway_state empty_database"]
  obtain resp s' where a: "run_state (chat_completions_impl sample_gateway sample_admin (\<lambda>_. None) (sample_request ''d'')
      CHAT_COMPLETIONS_SPEC) (sample_gateway_state empty_database) = (Some resp, s')"
    "accounted sample_gateway sample_admin (sample_gateway_state empty_database) resp s'" by blast
  moreover from a(1) sample_no_model have "hs_status resp = 400" "\<exists>e. hs_body resp = ErrorBody e"
    by (auto simp: build_error_response_def attach_request_headers_def)
  ultimately show ?thesis
    by (auto simp: accounted_def response_logged_def outcome_logged_def sample_gateway_state_def)
qed

end
