(* ===== verification/Gateway_Money.thy ===== *)
theory Gateway_Money
  imports Gateway
begin

text \<open>
  What a chat request costs (crates/mizan-api/src/gateway.rs with billing.rs): the effect of every branch of
  the handlers on wallets and on the credit ledger.
\<close>

section \<open>The money of the tables\<close>

definition no_money :: "database \<Rightarrow> database \<Rightarrow> bool" where
  "no_money d d' \<longleftrightarrow> credit_ledger d' = credit_ledger d \<and> wallet_balance d' = wallet_balance d"

text \<open>One row of the ledger: the user's wallet covers it, and it names the request.\<close>

definition pays :: "uuid \<Rightarrow> uuid \<Rightarrow> database \<Rightarrow> database \<Rightarrow> bool" where
  "pays user request_id d d' \<longleftrightarrow> (\<exists>e. credit_ledger d' = credit_ledger d @ [e] \<and> l_request_id e = Some request_id
     \<and> l_delta e < 0 \<and> 0 \<le> l_balance_after e \<and> l_balance_after e = wallet_balance d (l_wallet_id e) + l_delta e
     \<and> wallet_balance d' = (wallet_balance d)(l_wallet_id e := l_balance_after e)
     \<and> (\<exists>r \<in> set (wallets d'). w_id r = l_wallet_id e \<and> w_owner_user_id r = user))"

definition solvent :: "world \<Rightarrow> bool" where
  "solvent w \<longleftrightarrow> books_ok (env w) (db w) \<and> fresh_ok (env w)"

lemma no_money_refl [simp]: "no_money d d"
  by (simp add: no_money_def)

lemma no_money_trans: "no_money a b \<Longrightarrow> no_money b c \<Longrightarrow> no_money a c"
  by (simp add: no_money_def)

lemma no_money_usage: "usage_logged i st d d' \<Longrightarrow> no_money d d'"
  by (auto simp: usage_logged_def no_money_def wallet_balance_def fun_eq_iff)

lemma no_money_opened: "wallet_opened u d d' \<Longrightarrow> no_money d d'"
  by (auto simp: wallet_opened_def no_money_def wallet_balance_def fun_eq_iff find_append
      split: option.splits if_splits)

lemma pays_after: "no_money a b \<Longrightarrow> pays u i b c \<Longrightarrow> pays u i a c"
  by (auto simp: no_money_def pays_def)

lemma solvent_same: "solvent w \<Longrightarrow> env w' = env w \<Longrightarrow> db w' = db w \<Longrightarrow> solvent w'"
  by (simp add: solvent_def)

lemma record_usage_costless:
  assumes "record_usage i w = (r, w')"
    and "\<not> (is_success_status (bi_status_code i) \<and> 0 < charge_total (usage_charge_of i))"
  shows "no_money (db w) (db w')" "env w' = env w"
  using record_usage_free [OF assms] by (auto split: sum.splits dest: no_money_usage)

lemma record_usage_money:
  assumes run: "record_usage i w = (r, w')" and w: "solvent w"
  shows "no_money (db w) (db w') \<or> (\<exists>u. r = Inr u) \<and> pays (bi_user_id i) (bi_request_id i) (db w) (db w')"
proof (cases "is_success_status (bi_status_code i) \<and> 0 < charge_total (usage_charge_of i)")
  case False
  then show ?thesis using record_usage_costless [OF run False] by simp
next
  case True
  show ?thesis
  proof (cases r)
    case (Inl e)
    then show ?thesis
      using record_usage_error [OF run [unfolded Inl]] True by (auto dest: no_money_usage)
  next
    case (Inr u)
    obtain d1 d2 e b where c: "wallet_opened (bi_user_id i) (db w) d1" "wallets_ok (env w) d1"
      "has_wallet d1 (bi_user_id i) (l_wallet_id e) b" "charge_total (usage_charge_of i) \<le> b"
      "l_delta e = - charge_total (usage_charge_of i)"
      "l_balance_after e = b - charge_total (usage_charge_of i)"
      "l_request_id e = Some (bi_request_id i)" "d2 = post_entry e d1"
      "usage_logged i (bi_status_code i) d2 (db w')"
      using record_usage_charged [OF run [unfolded Inr]] True w books_ok_wallets by (auto simp: solvent_def)
    have b: "wallet_balance d1 (l_wallet_id e) = b" "l_wallet_id e \<in> w_id ` set (wallets d1)"
      using wallet_balance_has [OF c(2,3)] by simp_all
    then have "entry_valid d1 e" using c by (simp add: entry_valid_def)
    then have bal: "wallet_balance (post_entry e d1) = (wallet_balance d1)(l_wallet_id e := l_balance_after e)"
      using book.balance_post [of d1 e] b c by (auto simp: fun_eq_iff)
    have own: "\<exists>r \<in> set (wallets (post_entry e d1)). w_id r = l_wallet_id e \<and> w_owner_user_id r = bi_user_id i"
    proof -
      obtain r where r: "r \<in> set (wallets d1)" "w_id r = l_wallet_id e" "w_owner_user_id r = bi_user_id i"
        using c(3) by (auto simp: has_wallet_def)
      then have "r\<lparr>w_balance := l_balance_after e, w_updated_at := l_created_at e\<rparr> \<in> set (wallets (post_entry e d1))"
        by (auto simp: post_entry_def update_rows_def intro!: image_eqI [of _ _ r])
      then show ?thesis using r by (intro bexI) auto
    qed
    have "pays (bi_user_id i) (bi_request_id i) d1 (db w')"
      using c(9) bal own b c True
      by (auto simp: usage_logged_def pays_def wallet_balance_def fun_eq_iff post_entry_def intro!: exI [of _ e])
    then show ?thesis using pays_after [OF no_money_opened [OF c(1)]] Inr by blast
  qed
qed

lemma ensure_wallet_money:
  assumes run: "ensure_wallet u w = (r, w')" and w: "solvent w"
  shows "no_money (db w) (db w') \<and> solvent w'"
proof (cases "begin_tx w")
  case (Pair b w1)
  show ?thesis
  proof (cases b)
    case (Inl m)
    then show ?thesis
      using run Pair begin_tx_Inl [of w m w1] w by (auto simp: ensure_wallet_def op_results intro: solvent_same)
  next
    case (Inr v)
    then have w1: "w1 = (tick_world w)\<lparr>tx := db w\<rparr>" using Pair by (simp add: begin_tx_Inr)
    obtain y w2 where y: "ensure_wallet_in_tx u w1 = (y, w2)" by fastforce
    then have fr: "env w2 = env w" "db w2 = db w" using ensure_in_tx_frame w1 by fastforce+
    show ?thesis
    proof (cases y)
      case (Inl e)
      then have "w' = w2" using run Pair Inr y by (auto simp: ensure_wallet_def op_results)
      then show ?thesis using fr w solvent_same by simp
    next
      case y': (Inr x)
      have o: "wallet_opened u (db w) (tx w2)" "wallets_ok (env w) (tx w2)"
        using ensure_in_tx_ok [OF y [unfolded y']] w w1 by (auto simp: solvent_def books_ok_def)
      have "env w' = env w \<and> (db w' = db w \<or> db w' = tx w2)"
        using run Pair Inr y y' fr by (auto simp: ensure_wallet_def bind_op_def err_op_def ret_def commit_tx_def tick_world_def
            split: option.splits)
      then show ?thesis
        using w wallet_opened_books [OF o(1) _ o(2)] no_money_opened [OF o(1)] by (auto simp: solvent_def)
    qed
  qed
qed

lemma credit_money:
  assumes run: "ensure_sufficient_credit u usage price w = (r, w')" and w: "solvent w"
  shows "no_money (db w) (db w') \<and> solvent w'"
proof (cases "charge_total (calculate_usage_charge (charge_input_of usage) price) \<le> 0")
  case True
  then show ?thesis using run w by (simp add: ensure_sufficient_credit_def ret_def)
next
  case False
  obtain q w1 where q: "ensure_wallet u w = (q, w1)" by fastforce
  then have "w' = w1" using run False
    by (cases q) (auto simp: ensure_sufficient_credit_def Let_def bind_op_def throw_def ret_def split: if_splits)
  then show ?thesis using ensure_wallet_money [OF q w] by simp
qed

section \<open>Lookups and dispatch cost nothing\<close>

lemma lookups_same:
  "resolve_model_route a v k f m w = (r, w') \<Longrightarrow> env w' = env w \<and> db w' = db w"
  "select_eligible_daemon_node j m n w = (q, w') \<Longrightarrow> env w' = env w \<and> db w' = db w"
proof -
  show "resolve_model_route a v k f m w = (r, w') \<Longrightarrow> env w' = env w \<and> db w' = db w"
    by (erule keeps_frame) (unfold resolve_model_route_def, intro keeps_intros)
  show "select_eligible_daemon_node j m n w = (q, w') \<Longrightarrow> env w' = env w \<and> db w' = db w"
    by (auto simp: select_eligible_daemon_node_def Let_def bind_op_def err_op_def now_utc_epoch_seconds_def exec_def ret_def
        query_stmt_def tick_world_def split: if_splits option.splits)
qed

definition idle :: "(nat \<Rightarrow> world \<Rightarrow> world) \<Rightarrow> bool" where
  "idle others \<longleftrightarrow> (\<forall>n w. no_money (db w) (db (others n w)))"

lemma no_money_jobs [simp]: "no_money d (d'\<lparr>dispatch_jobs := js\<rparr>) = no_money d d'"
  by (simp add: no_money_def wallet_balance_def fun_eq_iff)

lemma job_ops_costless:
  "create_dispatch_job c i w = (r, w') \<Longrightarrow> no_money (db w) (db w')"
  "mark_job_timed_out n w = (q, w') \<Longrightarrow> no_money (db w) (db w')"
proof -
  have "keeps (on_db out (no_money d)) (create_dispatch_job c i)" for out d
    unfolding create_dispatch_job_def by (intro keeps_intros keeps_exec) (auto simp: insert_job_def split: if_splits)
  then show "create_dispatch_job c i w = (r, w') \<Longrightarrow> no_money (db w) (db w')"
    using keepsD' [of "on_db (env w) (no_money (db w))" _ w r w'] by (auto simp: on_db_def)
  have "keeps (on_db out (no_money d)) (mark_job_timed_out n)" for out d
    unfolding mark_job_timed_out_def by (intro keeps_intros keeps_exec) (auto simp: time_out_rows_def update_jobs_eq split: if_splits prod.splits)
  then show "mark_job_timed_out n w = (q, w') \<Longrightarrow> no_money (db w) (db w')"
    using keepsD' [of "on_db (env w) (no_money (db w))" _ w q w'] by (auto simp: on_db_def)
qed

lemma wait_costless:
  assumes "idle others"
  shows "wait_loop c others elapsed i t n fuel w = Some (r, w') \<Longrightarrow> no_money (db w) (db w')"
proof (induction fuel arbitrary: n w)
  case (Suc fuel)
  obtain f w1 where f: "fetch_terminal_result c i w = (f, w1)" by fastforce
  have o: "no_money (db w1) (db (others n w1))" using assms by (simp add: idle_def)
  show ?case
    using Suc.prems f fetch_frame [OF f] Suc.IH [of "Suc n" "others n w1"] no_money_trans [OF o]
    by (auto split: sum.splits option.splits if_splits)
qed simp

lemma dispatch_costless:
  assumes "idle others" "dispatch_to_daemon_node c others elapsed input w = Some (r, w')"
  shows "no_money (db w) (db w')"
proof -
  obtain cr w1 where cr: "create_dispatch_job c input w = (cr, w1)" by fastforce
  have m: "no_money (db w2) (db (snd (bind_op (mark_job_timed_out i) (\<lambda>_. ret TimedOut) w2)))" for i w2
    using job_ops_costless(2) [of i w2]
    by (cases "mark_job_timed_out i w2") (auto simp: bind_op_def ret_def split: sum.splits)
  show ?thesis
    using assms(2) cr job_ops_costless(1) [OF cr] m
    by (auto simp: dispatch_to_daemon_node_def wait_for_dispatch_result_def prod_eq_iff
        split: sum.splits option.splits prod.splits dispatch_job_result.splits
        dest!: wait_costless [OF assms(1)] intro: no_money_trans)
qed

section \<open>What the handlers cost\<close>

definition costs :: "api_key_identity \<Rightarrow> http_response \<Rightarrow> database \<Rightarrow> database \<Rightarrow> bool" where
  "costs who resp d d' = (case hs_body resp of
      ChatBody _ \<Rightarrow> no_money d d' \<or> pays (id_user_id who) (hs_request_id resp) d d'
    | _ \<Rightarrow> no_money d d')"

abbreviation tables :: "'r gateway_state \<Rightarrow> database" where
  "tables s \<equiv> db (gs_world s)"

lemma costs_after: "no_money a b \<Longrightarrow> costs who resp b c \<Longrightarrow> costs who resp a c"
  by (auto simp: costs_def split: response_body.splits intro: no_money_trans pays_after)

lemma costs_nothing: "no_money d d' \<Longrightarrow> costs who resp d d'"
  by (simp add: costs_def split: response_body.splits)

lemma failed_usage_costless:
  assumes "record_usage (call_billing c u (app_error_status_code e) n) w = (r, w')"
  shows "no_money (db w) (db w')"
  using record_usage_costless(1) [OF assms] by (simp add: call_billing_def)

lemma quiet_steps:
  "run_state (refuse E l ctx e) s = (resp, s') \<Longrightarrow> tables s' = tables s"
  "run_state (limits_refused E c e) s = (resp, s') \<Longrightarrow> tables s' = tables s"
  "run_state (daemon_credit_refused E c e) s = (resp, s') \<Longrightarrow> tables s' = tables s"
  "run_state (daemon_limits_refused E c e) s = (resp, s') \<Longrightarrow> tables s' = tables s"
  by (auto simp: refuse_def limits_refused_def daemon_credit_refused_def daemon_limits_refused_def step_defs Let_def)

lemma failed_steps:
  "run_state (credit_refused E c e) s = (resp, s') \<Longrightarrow> no_money (tables s) (tables s')"
  "run_state (call_failed E c e) s = (resp, s') \<Longrightarrow> no_money (tables s) (tables s')"
  by (auto simp: credit_refused_def call_failed_def step_defs Let_def dest: failed_usage_costless split: prod.splits)

lemma answer_costs:
  assumes run: "run_state (call_answered E c r answer) s = (resp, s')" and c: "call_ok who c"
    and w: "solvent (gs_world s) \<or> cl_price c = \<lparr>input_microcredits_per_1m_tokens = 0, output_microcredits_per_1m_tokens = 0\<rparr>"
    and answer: "\<And>s resp s'. run_state answer s = (resp, s') \<Longrightarrow> (\<exists>b. hs_body resp = ChatBody b)
      \<and> hs_request_id resp = rx_request_id (cl_context c) \<and> tables s' = tables s"
  shows "costs who resp (tables s) (tables s')"
proof -
  let ?i = "call_billing c (answer_usage c r) 200 (ge_elapsed E (gs_calls s))"
  obtain r1 w1 where rec: "record_usage ?i (gs_world s) = (r1, w1)" by fastforce
  have money: "no_money (tables s) (db w1) \<or> (\<exists>u. r1 = Inr u)
      \<and> pays (id_user_id who) (rx_request_id (cl_context c)) (tables s) (db w1)"
    using w
  proof
    assume "solvent (gs_world s)"
    from record_usage_money [OF rec this] show ?thesis using c by (simp add: call_billing_def call_ok_def)
  next
    assume "cl_price c = \<lparr>input_microcredits_per_1m_tokens = 0, output_microcredits_per_1m_tokens = 0\<rparr>"
    then have "charge_total (usage_charge_of ?i) = 0"
      by (simp add: usage_charge_of_def call_billing_def calculate_usage_charge_def ceil_div_def as_i64_id in_i64_def)
    then show ?thesis using record_usage_costless(1) [OF rec] by simp
  qed
  show ?thesis
  proof (cases r1)
    case (Inl e)
    then have "tables s' = db w1" "\<exists>e. hs_body resp = ErrorBody e"
      using run rec by (auto simp: call_answered_def step_defs Let_def)
    then show ?thesis using money Inl by (auto simp: costs_def)
  next
    case (Inr u)
    obtain s1 where s1: "run_state answer s1 = (resp, s')" "tables s1 = db w1"
      using run rec Inr by (auto simp: call_answered_def step_defs Let_def)
    then show ?thesis using money answer [OF s1(1)] by (auto simp: costs_def)
  qed
qed

lemma then_release_tables:
  assumes "run_state (then_release l m) s = (resp, s')"
  shows "\<exists>s1. run_state m s = (resp, s1) \<and> tables s' = tables s1"
  using assms by (auto simp: then_release_def release_limit_lease_def split: prod.splits)

lemma json_answer:
  "run_state (json_chat_completion_response cid m r ctx) s = (resp, s') \<Longrightarrow> (\<exists>b. hs_body resp = ChatBody b)
     \<and> hs_request_id resp = rx_request_id ctx \<and> tables s' = tables s"
  by (auto simp: json_chat_completion_response_def read_clock_def attach_request_headers_def)

lemma stream_call_costs:
  assumes "run_state (stream_call E c p cid l) s = (resp, s')"
  shows "no_money (tables s) (tables s')"
proof (cases "gateway_chat_completions_stream (ge_upstream E) (gs_calls s) (cl_context c) p (cl_request c)")
  case (Inl e)
  then have "run_state (then_release l (call_failed E c (normalize_provider_error e (cl_context c) (cl_model c))))
      (s\<lparr>gs_calls := Suc (gs_calls s)\<rparr>) = (resp, s')"
    using assms by (simp add: stream_call_def)
  from then_release_tables [OF this] failed_steps(2) show ?thesis by fastforce
next
  case (Inr up)
  then show ?thesis
    using assms by (auto simp: stream_call_def stream_chat_completion_response_def build_stream_events_def read_clock_def)
qed

lemma plain_call_costs:
  assumes "run_state (plain_call E c p cid l) s = (resp, s')" "call_ok who c" "solvent (gs_world s)"
  shows "costs who resp (tables s) (tables s')"
proof -
  let ?r = "gateway_chat_completions (ge_upstream E) (gs_calls s) (cl_context c) p (cl_request c)"
  from then_release_tables [OF assms(1) [unfolded plain_call_def]] obtain s1 where s1:
    "run_state (case ?r of Inl e \<Rightarrow> call_failed E c (normalize_provider_error e (cl_context c) (cl_model c))
       | Inr r \<Rightarrow> call_answered E c r (json_chat_completion_response cid (cl_model c) r (cl_context c)))
      (s\<lparr>gs_calls := Suc (gs_calls s)\<rparr>) = (resp, s1)" "tables s' = tables s1" by auto
  have "costs who resp (tables (s\<lparr>gs_calls := Suc (gs_calls s)\<rparr>)) (tables s1)"
  proof (cases ?r)
    case (Inl e)
    with s1(1) show ?thesis by (intro costs_nothing failed_steps(2)) simp
  next
    case (Inr r)
    with s1(1) assms(2,3) show ?thesis by (intro answer_costs [OF _ assms(2) _ json_answer]) auto
  qed
  then show ?thesis using s1(2) by simp
qed

lemma daemon_result_costs:
  assumes "run_state (daemon_result E c r) s = (resp, s')" "call_ok who c"
    "cl_price c = \<lparr>input_microcredits_per_1m_tokens = 0, output_microcredits_per_1m_tokens = 0\<rparr>"
  shows "costs who resp (tables s) (tables s')"
proof -
  have answer: "(\<exists>b. hs_body resp = ChatBody b) \<and> hs_request_id resp = rx_request_id (cl_context c) \<and> tables s' = tables s"
    if "run_state (do { completion_uuid \<leftarrow> draw_uuid;
        json_chat_completion_response (lit ''chatcmpl-'' @ completion_uuid) (cl_model c) r (cl_context c) }) s = (resp, s')"
    for r s resp s'
    using that by (auto dest!: json_answer)
  show ?thesis
  proof (cases "\<exists>x. r = Inr (Succeeded x)")
    case True
    then show ?thesis
      using assms(1,3) unfolding daemon_result_def
      by (auto simp del: run_bind intro!: answer_costs [OF _ assms(2)] answer)
  next
    case False
    then obtain e where "run_state (call_failed E c e) s = (resp, s')"
      using assms(1) by (auto simp: daemon_result_def split: sum.splits dispatch_job_result.splits)
    then show ?thesis by (intro costs_nothing failed_steps(2))
  qed
qed

lemma acquire_world: "run_state (acquire_runtime_limits E scs n) s = (r, s1) \<Longrightarrow> gs_world s1 = gs_world s"
  by (auto simp: acquire_runtime_limits_def split: option.splits prod.splits)

lemma admit_costs:
  assumes run: "run_state (admit E c scs no_credit no_lease serve) s = (Some resp, s')" and w: "solvent (gs_world s)"
    and refused: "\<And>e s s'. run_state (no_credit e) s = (resp, s') \<Longrightarrow> no_money (tables s) (tables s')"
      "\<And>e s s'. run_state (no_lease e) s = (resp, s') \<Longrightarrow> no_money (tables s) (tables s')"
    and served: "\<And>l s s'. run_state (serve l) s = (Some resp, s') \<Longrightarrow> solvent (gs_world s)
      \<Longrightarrow> costs who resp (tables s) (tables s')"
  shows "costs who resp (tables s) (tables s')"
proof -
  obtain r s1 where credit: "run_state (credit_check c) s = (r, s1)" by fastforce
  then have s1: "no_money (tables s) (tables s1) \<and> solvent (gs_world s1)"
    using credit_money [OF _ w] by (auto simp: credit_check_def split: prod.splits)
  have "costs who resp (tables s1) (tables s')"
  proof (cases r)
    case (Inl e)
    then show ?thesis using run credit by (auto simp: admit_def intro: costs_nothing refused(1))
  next
    case (Inr u)
    obtain q s2 where acquire: "run_state (acquire_runtime_limits E scs (total_tokens (admission_usage c))) s1 = (q, s2)"
      by fastforce
    have "solvent (gs_world s2)" using acquire_world [OF acquire] s1 by simp
    then have "costs who resp (tables s2) (tables s')"
      using run credit Inr acquire
      by (cases q) (auto simp: admit_def intro: costs_nothing refused(2) served)
    then show ?thesis using acquire_world [OF acquire] by simp
  qed
  then show ?thesis using s1 costs_after by blast
qed

lemma admit_routed_costs:
  assumes "run_state (admit_routed E c route p cid) s = (Some resp, s')" "solvent (gs_world s)" "call_ok who c"
  shows "costs who resp (tables s) (tables s')"
  using assms(1) unfolding admit_routed_def
  by (rule admit_costs [OF _ assms(2)])
    (use assms(3) in \<open>auto simp: quiet_steps intro: failed_steps costs_nothing stream_call_costs plain_call_costs
      split: if_splits\<close>)

lemma daemon_call_costs:
  assumes "run_state (daemon_call E c node l) s = (Some resp, s')" "call_ok who c" "idle (ge_others E)"
    "cl_price c = \<lparr>input_microcredits_per_1m_tokens = 0, output_microcredits_per_1m_tokens = 0\<rparr>"
  shows "costs who resp (tables s) (tables s')"
proof -
  obtain d w where d: "dispatch_to_daemon_node (ge_chat E) (ge_others E) (ge_waited E) (daemon_job E c node) (gs_world s)
      = Some (d, w)" "run_state (then_release l (daemon_result E c d)) (s\<lparr>gs_world := w\<rparr>) = (resp, s')"
    using assms(1) by (auto simp: daemon_call_def ask_daemon_def split: option.splits prod.splits)
  obtain s1 where s1: "run_state (daemon_result E c d) (s\<lparr>gs_world := w\<rparr>) = (resp, s1)" "tables s' = tables s1"
    using then_release_tables [OF d(2)] by auto
  have "costs who resp (db w) (tables s')" using daemon_result_costs [OF s1(1) assms(2,4)] s1(2) by simp
  then show ?thesis using dispatch_costless [OF assms(3) d(1)] costs_after by blast
qed

lemma admit_daemon_costs:
  assumes "run_state (admit_daemon E c node) s = (Some resp, s')" "solvent (gs_world s)" "call_ok who c" "idle (ge_others E)"
    "cl_price c = \<lparr>input_microcredits_per_1m_tokens = 0, output_microcredits_per_1m_tokens = 0\<rparr>"
  shows "costs who resp (tables s) (tables s')"
  using assms(1) unfolding admit_daemon_def
  by (rule admit_costs [OF _ assms(2)])
    (auto simp: quiet_steps intro: daemon_call_costs [OF _ assms(3,4,5)])

lemma solvent_tick [simp]: "solvent (tick_world w) = solvent w"
  by (simp add: solvent_def tick_world_def)

lemma routed_costs:
  assumes "run_state (routed_chat_completion E who route rid tid m payload spec) s = (Some resp, s')" "solvent (gs_world s)"
  shows "costs who resp (tables s) (tables s')"
proof (cases "resolve_effective_max_tokens (pq_max_tokens payload) (rv_max_tokens route) (sp_max_tokens_field spec)")
  case (Inl e)
  then show ?thesis
    using assms(1) by (auto simp: routed_chat_completion_def Let_def costs_def quiet_steps split: response_body.splits
        dest!: quiet_steps(1))
next
  case (Inr n)
  let ?s = "s\<lparr>gs_world := tick_world (tick_world (gs_world s))\<rparr>"
  have "\<exists>c p cid. run_state (admit_routed E c route p cid) ?s = (Some resp, s') \<and> call_ok who c"
    using assms(1) Inr by (auto simp: routed_chat_completion_def Let_def call_ok_def intro!: exI)
  then have "costs who resp (tables ?s) (tables s')"
    using admit_routed_costs assms(2) by fastforce
  then show ?thesis by simp
qed

lemma served_from_node_costs:
  assumes "run_state (serve_from_node E who node rid tid m payload spec) s = (Some resp, s')" "solvent (gs_world s)"
    "idle (ge_others E)"
  shows "costs who resp (tables s) (tables s')"
proof (cases "resolve_effective_max_tokens (pq_max_tokens payload) None (sp_max_tokens_field spec)")
  case (Inl e)
  then show ?thesis
    using assms(1) by (auto simp: serve_from_node_def Let_def costs_def split: response_body.splits dest!: quiet_steps(1))
next
  case (Inr n)
  let ?s = "s\<lparr>gs_world := tick_world (gs_world s)\<rparr>"
  have "\<exists>c. run_state (admit_daemon E c node) ?s = (Some resp, s') \<and> call_ok who c
      \<and> cl_price c = \<lparr>input_microcredits_per_1m_tokens = 0, output_microcredits_per_1m_tokens = 0\<rparr>"
    using assms(1) Inr by (auto simp: serve_from_node_def Let_def call_ok_def intro!: exI)
  then have "costs who resp (tables ?s) (tables s')"
    using admit_daemon_costs assms(2,3) by fastforce
  then show ?thesis by simp
qed

lemma served_costs:
  assumes run: "run_state (serve_request E who ctx l rid tid m payload spec) s = (Some resp, s')"
    and w: "solvent (gs_world s)" "idle (ge_others E)"
  shows "costs who resp (tables s) (tables s')"
proof -
  have refused: "costs who resp (tables s0) (tables s')" if "run_state (refuse E l ctx e) s0 = (resp, s')" for e s0
    using quiet_steps(1) [OF that] by (simp add: costs_nothing)
  obtain found w1 where res: "resolve_model_route (ge_auth E) (ge_vault E) (cf_provider_secret_key (ge_config E))
      (sp_model_field spec) m (gs_world s) = (found, w1)" by fastforce
  let ?s1 = "s\<lparr>gs_world := w1\<rparr>"
  have w1: "solvent w1" "db w1 = tables s" using lookups_same(1) [OF res] w(1) solvent_same by auto
  have daemon: "costs who resp (tables s) (tables s')"
    if d: "run_state (handle_daemon_chat_completion E who ctx l rid m payload spec) ?s1 = (Some resp, s')"
  proof -
    obtain node w2 where sel: "select_eligible_daemon_node (ge_json E) m (uint (cf_daemon_stale_seconds (ge_config E))) w1
      = (node, w2)" by fastforce
    have w2: "solvent w2" "db w2 = tables s" using lookups_same(2) [OF sel] w1 solvent_same by auto
    show ?thesis
      using d sel w2 w1(2) w(2) refused [of _ "s\<lparr>gs_world := w2\<rparr>"] refused [of _ ?s1]
        served_from_node_costs [of E who _ rid "rx_trace_id ctx" m payload spec "s\<lparr>gs_world := w2\<rparr>" resp s']
      by (auto simp: handle_daemon_chat_completion_def split: if_splits sum.splits option.splits)
  qed
  show ?thesis
    using run res w1 refused [of _ s] refused [of _ ?s1] daemon
      routed_costs [of E who _ rid tid m payload spec ?s1 resp s']
    by (auto simp: serve_request_def split: if_splits sum.splits)
qed

lemma impl_costs:
  assumes run: "run_state (chat_completions_impl E who h payload spec) s = (Some resp, s')"
    and w: "solvent (gs_world s)" "idle (ge_others E)"
  shows "costs who resp (tables s) (tables s')"
proof -
  obtain rid tid w1 l where s1: "run_state (serve_request E who (lg_context l) l rid tid (trim (pq_model payload)) payload spec)
      (s\<lparr>gs_world := w1\<rparr>) = (Some resp, s')" "env w1 = env (gs_world s)" "db w1 = tables s"
    using impl_run [OF run] by blast
  have "solvent (gs_world (s\<lparr>gs_world := w1\<rparr>))" using solvent_same [OF w(1) s1(2,3)] by simp
  from served_costs [OF s1(1) this w(2)] show ?thesis using s1(3) by simp
qed

section \<open>Properties\<close>

text \<open>C2. What a caller does not get it does not pay: whatever goes wrong, on any branch of the handler, a request that
  is answered with an error leaves every wallet and the credit ledger as they were, and so does a stream
  before its end; a complete answer costs at most one ledger row, which names this request, is taken from the
  wallet of the authenticated user, and leaves a balance that is not negative.\<close>

theorem errors_cost_nothing:
  assumes "run_state (chat_completions_impl E who h payload spec) s = (Some resp, s')"
    and "books_ok (env (gs_world s)) (db (gs_world s))" "fresh_ok (env (gs_world s))"
    and "\<forall>n w. no_money (db w) (db (ge_others E n w))"
  shows "case hs_body resp of
      ChatBody _ \<Rightarrow> no_money (db (gs_world s)) (db (gs_world s'))
        \<or> pays (id_user_id who) (hs_request_id resp) (db (gs_world s)) (db (gs_world s'))
    | _ \<Rightarrow> no_money (db (gs_world s)) (db (gs_world s'))"
  using impl_costs [OF assms(1)] assms(2-4) by (simp add: solvent_def idle_def costs_def)

lemma sample_gateway_idle: "\<forall>n w. no_money (db w) (db (ge_others sample_gateway n w))"
  by (simp add: sample_gateway_def)

theorem errors_cost_nothing_witness:
  "\<exists>resp s'. run_state (chat_completions_impl sample_gateway sample_admin (\<lambda>_. None) (sample_request ''d'')
       CHAT_COMPLETIONS_SPEC) (sample_gateway_state empty_database) = (Some resp, s')
     \<and> no_money empty_database (db (gs_world s'))"
proof -
  obtain resp s' where run: "run_state (chat_completions_impl sample_gateway sample_admin (\<lambda>_. None) (sample_request ''d'')
      CHAT_COMPLETIONS_SPEC) (sample_gateway_state empty_database) = (Some resp, s')" "\<exists>e. hs_body resp = ErrorBody e"
    using sample_no_model by (auto simp: build_error_response_def attach_request_headers_def)
  have "books_ok (env (gs_world (sample_gateway_state empty_database))) (db (gs_world (sample_gateway_state empty_database)))"
    by (auto simp: sample_gateway_state_def books_ok_def wallets_ok_def wallet_balance_def ledger_history_def
        empty_database_def)
  from errors_cost_nothing [OF run(1) this _ sample_gateway_idle] run show ?thesis
    by (auto simp: sample_gateway_state_def)
qed

end
