(* ===== verification/Gateway_Routed.thy ===== *)
theory Gateway_Routed
  imports Gateway_Money
begin

text \<open>
  A chat request on the way of a model that a provider route serves, when nothing fails
  (crates/mizan-api/src/gateway.rs, \<open>chat_completions_impl\<close>): from its arrival to the answer of the provider,
  with what the caller pays for it.
\<close>

section \<open>The way to the provider\<close>

definition serves :: "'r gateway_env \<Rightarrow> request_spec \<Rightarrow> str \<Rightarrow> world \<Rightarrow> resolved_route \<Rightarrow> bool" where
  "serves E spec m w route \<longleftrightarrow> m \<noteq> [] \<and> (\<exists>r c.
     find (\<lambda>(r, c). mr_public_model r = m \<and> mr_enabled r = 1 \<and> pc_enabled c = 1) (joined (db w)) = Some (r, c)
     \<and> resolved_row (ge_auth E) (ge_vault E) (env w) (cf_provider_secret_key (ge_config E)) (r, c) = Inr route)"

lemma resolve_served:
  assumes "quiet w" "serves E spec m w route"
  shows "resolve_model_route (ge_auth E) (ge_vault E) (cf_provider_secret_key (ge_config E)) field m w
    = (Inr route, tick_world w)"
  using assms by (auto simp: serves_def resolve_model_route_def run_simps quiet_def query_stmt_def tick_world_def
      ask_outside_def)

text \<open>The call that the handler makes of a request, with the identifiers it draws.\<close>

definition route_chat ::
  "api_key_identity \<Rightarrow> headers \<Rightarrow> chat_completions_request \<Rightarrow> request_spec \<Rightarrow> resolved_route \<Rightarrow> u64 option \<Rightarrow> world \<Rightarrow> call" where
  "route_chat who h payload spec route max_tokens w =
     (let request_id = fresh (env w) (tick w);
          trace_id = (case parse_request_id_header (env w) h ''x-trace-id'' of Some v \<Rightarrow> v | None \<Rightarrow> request_id);
          m = trim (pq_model payload);
          ctx = routed_context who route request_id trace_id m spec (pq_stream payload) (new_context (fresh (env w) (3 + tick w)))
      in \<lparr>cl_identity = who, cl_context = ctx, cl_log = with_provider_alias (provider_name_of route)
            (with_route_alias m (new_completion_log ctx)), cl_model = m,
          cl_served = Some (rv_provider_connection_id route, rv_id route), cl_node = None, cl_price = route_price_of route,
          cl_request = \<lparr>cr_model = rv_upstream_model route, cr_messages = pq_messages payload,
            cr_stream = pq_stream payload, cr_max_tokens = max_tokens\<rparr>\<rparr>)"

definition provider_of :: "resolved_route \<Rightarrow> openai_provider" where
  "provider_of route = new_provider (provider_name_of route) (rv_provider_base_url route) (rv_provider_api_key route)"

lemma impl_run_route:
  assumes "quiet (gs_world s)" "parse_request_id_header (env (gs_world s)) h ''x-request-id'' = None"
    and "\<not> pq_stream payload" "serves E spec (trim (pq_model payload)) (gs_world s) route"
    and "resolve_effective_max_tokens (pq_max_tokens payload) (rv_max_tokens route) (sp_max_tokens_field spec) = Inr max_tokens"
  shows "run_state (chat_completions_impl E who h payload spec) s
    = run_state (admit_routed E (route_chat who h payload spec route max_tokens (gs_world s)) route (provider_of route)
          (lit ''chatcmpl-'' @ fresh (env (gs_world s)) (4 + tick (gs_world s))))
        (s\<lparr>gs_world := (gs_world s)\<lparr>tick := 5 + tick (gs_world s)\<rparr>\<rparr>)"
proof -
  let ?w = "gs_world s" and ?m = "trim (pq_model payload)"
  have q: "quiet (?w\<lparr>tick := n\<rparr>)" for n using assms(1) by (simp add: quiet_def)
  have "resolve_model_route (ge_auth E) (ge_vault E) (cf_provider_secret_key (ge_config E)) field ?m
      (?w\<lparr>tick := Suc (Suc (tick ?w))\<rparr>) = (Inr route, ?w\<lparr>tick := 3 + tick ?w\<rparr>)" for field
    using resolve_served [OF q] assms(4) by (simp add: serves_def tick_world_def numeral_3_eq_3)
  moreover have "?m \<noteq> []" using assms(4) by (simp add: serves_def)
  ultimately show ?thesis
    using assms(2,3,5)
    by (simp add: chat_completions_impl_def serve_request_def routed_chat_completion_def Let_def
        what_outside_def draw_uuid_def tick_world_def route_chat_def provider_of_def
        split: option.splits)
qed

section \<open>The answer and its price\<close>

definition charge_of :: "call \<Rightarrow> token_usage \<Rightarrow> microcredits" where
  "charge_of c usage = charge_total (calculate_usage_charge (charge_input_of usage) (cl_price c))"

text \<open>The wallet covers what the admission estimates and what the answer costs; and what the request leaves in the tables.\<close>

definition covered :: "call \<Rightarrow> chat_response \<Rightarrow> uuid \<Rightarrow> i64 \<Rightarrow> world \<Rightarrow> bool" where
  "covered c x wallet_id balance w \<longleftrightarrow> select_wallet (id_user_id (cl_identity c)) (db w) = Some (wallet_id, balance)
     \<and> charge_of c (admission_usage c) \<le> balance \<and> 0 < charge_of c (answer_usage c x) \<and> charge_of c (answer_usage c x) \<le> balance"

definition paid_once :: "call \<Rightarrow> chat_response \<Rightarrow> uuid \<Rightarrow> i64 \<Rightarrow> database \<Rightarrow> database \<Rightarrow> bool" where
  "paid_once c x wallet_id balance d d' \<longleftrightarrow>
     wallet_balance d' = (wallet_balance d)(wallet_id := balance - charge_of c (answer_usage c x))
     \<and> (\<exists>e row. credit_ledger d' = credit_ledger d @ [e] \<and> l_wallet_id e = wallet_id
          \<and> l_delta e = - charge_of c (answer_usage c x) \<and> l_request_id e = Some (rx_request_id (cl_context c))
          \<and> usage_events d' = usage_events d @ [row] \<and> ue_request_id row = rx_request_id (cl_context c)
          \<and> ue_user_id row = Some (id_user_id (cl_identity c)) \<and> ue_provider_id row = map_option fst (cl_served c)
          \<and> ue_route_id row = map_option snd (cl_served c) \<and> ue_status_code row = 200
          \<and> ue_prompt_tokens row = uint (prompt_tokens (answer_usage c x))
          \<and> ue_completion_tokens row = uint (completion_tokens (answer_usage c x)))"

lemma covered_wallet:
  assumes "solvent w" "covered c x wallet_id balance w"
  shows "uuid_ok (env w) wallet_id" "wallet_balance (db w) wallet_id = balance" "wallet_id \<in> w_id ` set (wallets (db w))"
proof -
  have ok: "wallets_ok (env w) (db w)" using assms(1) by (simp add: solvent_def books_ok_def)
  have has: "has_wallet (db w) (id_user_id (cl_identity c)) wallet_id balance"
    using assms(2) select_wallet_Some unfolding covered_def has_wallet_def by blast
  show "wallet_balance (db w) wallet_id = balance" "wallet_id \<in> w_id ` set (wallets (db w))"
    using wallet_balance_has [OF ok has] by simp_all
  show "uuid_ok (env w) wallet_id" using ok has by (auto simp: wallets_ok_def has_wallet_def)
qed

lemma recorded_and_paid:
  assumes "quiet w" "solvent w" "covered c x wallet_id balance w" "fits (answer_usage c x) latency" "unused_ids w"
  shows "\<exists>w'. record_usage (call_billing c (answer_usage c x) 200 latency) w = (Inr (), w')
    \<and> paid_once c x wallet_id balance (db w) (db w')"
proof -
  let ?i = "call_billing c (answer_usage c x) 200 latency"
  note wallet = covered_wallet [OF assms(2,3)]
  have charge: "charge_total (usage_charge_of ?i) = charge_of c (answer_usage c x)"
    by (simp add: usage_charge_of_def charge_of_def call_billing_def)
  obtain e row w' where w': "record_usage ?i w = (Inr (), w')" "event_of ?i row"
    "db w' = (post_entry e (db w))\<lparr>usage_events := usage_events (db w) @ [row]\<rparr>" "l_wallet_id e = wallet_id"
    "l_delta e = - charge_of c (answer_usage c x)" "l_balance_after e = balance - charge_of c (answer_usage c x)"
    "l_request_id e = Some (bi_request_id ?i)"
    using record_paid_usage [OF assms(1), of ?i wallet_id balance] assms(3-5) wallet(1)
    unfolding charge by (auto simp: covered_def call_billing_def is_success_status_def)
  have "entry_valid (db w) e" using w'(4-6) wallet by (simp add: entry_valid_def)
  then have "wallet_balance (post_entry e (db w)) = (wallet_balance (db w))(wallet_id := balance - charge_of c (answer_usage c x))"
    using book.balance_post [of "db w" e] w'(4,5) wallet(2) by (auto simp: fun_eq_iff)
  then have "paid_once c x wallet_id balance (db w) (db w')"
    using w'(2-7) by (auto simp: paid_once_def event_of_def call_billing_def wallet_balance_def fun_eq_iff post_entry_def)
  then show ?thesis using w'(1) by blast
qed

lemma admit_routed_run:
  assumes quiet: "quiet (gs_world s)" "solvent (gs_world s)" and wallet: "covered c x wallet_id balance (gs_world s)"
    and plain: "\<not> cr_stream (cl_request c)" and "ge_join E (gs_calls s) = None"
    and "check_and_acquire (ge_redis E) (runtime_policy (ge_config E)) \<lparr>scopes = routed_scopes (cl_identity c) route,
      estimated_prompt_tokens = total_tokens (admission_usage c)\<rparr> (gs_limiter s) = (Inr l, limiter)"
  shows "\<exists>w'. run_state (admit_routed E c route provider completion_id) s = run_state (answered (plain_call E c provider completion_id l))
      (s\<lparr>gs_world := w', gs_calls := Suc (gs_calls s), gs_limiter := limiter\<rparr>)
    \<and> env w' = env (gs_world s) \<and> db w' = db (gs_world s) \<and> tick (gs_world s) \<le> tick w'"
proof -
  obtain w' where "ensure_sufficient_credit (id_user_id (cl_identity c)) (admission_usage c) (cl_price c) (gs_world s)
      = (Inr (), w')" "env w' = env (gs_world s)" "db w' = db (gs_world s)" "tick (gs_world s) \<le> tick w'"
    using credit_check_passes [OF quiet(1), of "id_user_id (cl_identity c)" wallet_id balance "admission_usage c" "cl_price c"] wallet
      covered_wallet(1) [OF quiet(2) wallet]
    by (auto simp: covered_def charge_of_def)
  then show ?thesis
    using assms(4-6) by (auto simp: admit_routed_def admit_def credit_check_def acquire_runtime_limits_def)
qed

lemma plain_call_run:
  assumes quiet: "quiet (gs_world s)" "solvent (gs_world s)" and wallet: "covered c x wallet_id balance (gs_world s)"
    and upstream: "gateway_chat_completions (ge_upstream E) (gs_calls s) (cl_context c) provider (cl_request c) = Inr x"
    and "fits (answer_usage c x) (ge_elapsed E (Suc (gs_calls s)))" "unused_ids (gs_world s)"
  shows "\<exists>s' now. run_state (answered (plain_call E c provider completion_id l)) s
      = (Some (attach_request_headers (cl_context c) 200
          (ChatBody (map_to_chat_completion_response completion_id (cl_model c) x now))), s')
    \<and> paid_once c x wallet_id balance (db (gs_world s)) (db (gs_world s'))"
proof -
  let ?s1 = "s\<lparr>gs_calls := Suc (gs_calls s)\<rparr>"
  obtain w' where w': "record_usage (call_billing c (answer_usage c x) 200 (ge_elapsed E (gs_calls ?s1))) (gs_world ?s1) = (Inr (), w')"
    "paid_once c x wallet_id balance (db (gs_world s)) (db w')"
    using recorded_and_paid [OF quiet wallet assms(5,6)] by auto
  obtain s1 where s1: "run_state (call_answered E c x (json_chat_completion_response completion_id (cl_model c) x (cl_context c)))
      ?s1 = run_state (json_chat_completion_response completion_id (cl_model c) x (cl_context c)) s1" "gs_world s1 = w'"
    using call_answered_recorded [OF w'(1)] by blast
  then show ?thesis
    using upstream w'(2) by (simp add: answered_def plain_call_def then_release_def small_steps json_response_now tick_world_def) blast
qed

lemma route_chat_fields [simp]:
  "cl_identity (route_chat who h payload spec route mt w) = who"
  "cl_model (route_chat who h payload spec route mt w) = trim (pq_model payload)"
  "cl_price (route_chat who h payload spec route mt w) = route_price_of route"
  "cl_request (route_chat who h payload spec route mt w) = \<lparr>cr_model = rv_upstream_model route,
     cr_messages = pq_messages payload, cr_stream = pq_stream payload, cr_max_tokens = mt\<rparr>"
  by (simp_all add: route_chat_def Let_def)

text \<open>C4. A chat request for a model that a route serves is answered with what the provider answers: if nothing
  fails, the limiter admits the caller and the wallet covers the estimate and the price of the answer, the
  response is 200 with the content of the provider under the public name of the model, and the caller
  has paid exactly the charge of the tokens at the prices of the route: one ledger row and one usage event that
  name the request, the provider and the route; no other wallet changed.\<close>

theorem routed_request_is_answered_and_charged:
  assumes calm: "quiet (gs_world s)" "unused_ids (gs_world s)" "books_ok (env (gs_world s)) (db (gs_world s))"
      "fresh_ok (env (gs_world s))"
    and request: "\<not> pq_stream payload" "parse_request_id_header (env (gs_world s)) h ''x-request-id'' = None"
      "serves E spec (trim (pq_model payload)) (gs_world s) route"
      "resolve_effective_max_tokens (pq_max_tokens payload) (rv_max_tokens route) (sp_max_tokens_field spec) = Inr max_tokens"
    and call: "c = route_chat who h payload spec route max_tokens (gs_world s)"
      "admits E (routed_scopes who route) c s" "covered c x wallet_id balance (gs_world s)"
    and upstream: "gateway_chat_completions (ge_upstream E) (Suc (gs_calls s)) (cl_context c) (provider_of route) (cl_request c) = Inr x"
      "fits (answer_usage c x) (ge_elapsed E (Suc (Suc (gs_calls s))))"
  shows "\<exists>s' completion_id now. run_state (chat_completions_impl E who h payload spec) s
      = (Some (attach_request_headers (cl_context c) 200
          (ChatBody (map_to_chat_completion_response completion_id (trim (pq_model payload)) x now))), s')
    \<and> paid_once c x wallet_id balance (db (gs_world s)) (db (gs_world s'))"
proof -
  let ?s5 = "s\<lparr>gs_world := (gs_world s)\<lparr>tick := 5 + tick (gs_world s)\<rparr>\<rparr>"
  obtain l limiter where lease: "ge_join E (gs_calls s) = None" "check_and_acquire (ge_redis E) (runtime_policy (ge_config E))
      \<lparr>scopes = routed_scopes who route, estimated_prompt_tokens = total_tokens (admission_usage c)\<rparr> (gs_limiter s) = (Inr l, limiter)"
    by (rule admitsE [OF call(2)])
  have here: "quiet (gs_world ?s5)" "solvent (gs_world ?s5)" "covered c x wallet_id balance (gs_world ?s5)" "unused_ids (gs_world ?s5)"
    using calm call(3) unused_later [OF calm(2), of "gs_world ?s5"] by (simp_all add: quiet_def solvent_def covered_def)
  obtain w' where admitted: "run_state (admit_routed E c route (provider_of route) (lit ''chatcmpl-'' @ fresh (env (gs_world s)) (4 + tick (gs_world s)))) ?s5
      = run_state (answered (plain_call E c (provider_of route) (lit ''chatcmpl-'' @ fresh (env (gs_world s)) (4 + tick (gs_world s))) l))
          (?s5\<lparr>gs_world := w', gs_calls := Suc (gs_calls s), gs_limiter := limiter\<rparr>)"
      "env w' = env (gs_world s)" "db w' = db (gs_world s)" "tick (gs_world s) \<le> tick w'"
    using admit_routed_run [OF here(1-3), of E route l limiter "provider_of route"
        "lit ''chatcmpl-'' @ fresh (env (gs_world s)) (4 + tick (gs_world s))"] request(1) lease by (auto simp: call(1))
  have there: "quiet w'" "solvent w'" "covered c x wallet_id balance w'" "unused_ids w'"
    using calm call(3) admitted(2-4) unused_later [OF calm(2) admitted(2-4)] by (simp_all add: quiet_def solvent_def covered_def)
  show ?thesis
    using impl_run_route [OF calm(1) request(2,1,3,4)] admitted(1,3) call(1) upstream
      plain_call_run [of "?s5\<lparr>gs_world := w', gs_calls := Suc (gs_calls s), gs_limiter := limiter\<rparr>" c x wallet_id balance E
        "provider_of route" "lit ''chatcmpl-'' @ fresh (env (gs_world s)) (4 + tick (gs_world s))" l] there
    by auto
qed

section \<open>Witness\<close>

definition sealed_key :: str where
  "sealed_key = (case encrypt_provider_api_key toy_digest toy_vault (lit ''s'') [100] (lit ''key'') of Inr e \<Rightarrow> e | Inl _ \<Rightarrow> [])"

definition priced_database :: database where
  "priced_database = sample_books\<lparr>model_routes := [sample_route\<lparr>mr_provider_connection_id := [100], mr_pricing_input := 1000000, mr_pricing_output := 1000000\<rparr>],
     provider_connections := [\<lparr>pc_id = [100], pc_name = lit ''p'', pc_provider_type = lit ''openai'', pc_base_url = lit ''u'',
       pc_api_key_encrypted = sealed_key, pc_auth_mode = PROVIDER_AUTH_MODE_API_KEY, pc_auth_config_json = None, pc_enabled = 1,
       pc_created_at = [], pc_updated_at = []\<rparr>]\<rparr>"

definition hi_upstream :: upstream where
  "hi_upstream = \<lparr>up_send = (\<lambda>_ _. Inr \<lparr>hp_status = 200, hp_status_text = [], hp_text = Inr [], hp_pieces = []\<rparr>),
     up_decode = (\<lambda>_. Inr \<lparr>or_model = None, or_choices = [\<lparr>oh_message = Some \<lparr>om_content = Some (lit ''hi'')\<rparr>\<rparr>],
       or_usage = None\<rparr>)\<rparr>"

definition hi_gateway :: "(str \<Rightarrow> int option) gateway_env" where
  "hi_gateway = sample_gateway\<lparr>ge_upstream := hi_upstream, ge_config := (ge_config sample_gateway)\<lparr>cf_limit_concurrency := 0\<rparr>\<rparr>"

definition priced_route :: resolved_route where
  "priced_route = \<lparr>rv_id = [7], rv_provider_connection_id = [100], rv_upstream_model = lit ''u'', rv_provider_type = lit ''openai'',
     rv_provider_base_url = lit ''u'', rv_provider_api_key = lit ''key'', rv_max_tokens = None, rv_input_price = 1000000,
     rv_output_price = 1000000\<rparr>"

definition hi_answer :: chat_response where
  "hi_answer = \<lparr>cs_provider = lit ''openai'', cs_model = lit ''u'', cs_content = lit ''hi'', cs_usage = None\<rparr>"

definition hi_call :: call where
  "hi_call = route_chat sample_admin (\<lambda>_. None) (sample_request ''m'') CHAT_COMPLETIONS_SPEC priced_route None
     (calm_world priced_database)"

lemma model_m: "trim (lit ''m'') = lit ''m''"
  by (rule trim_clean) (simp add: is_whitespace_def lit_def)

lemma sealed_key_opens: "decrypt_provider_api_key toy_digest toy_vault (lit ''s'') [100] sealed_key = Inr (lit ''key'')"
proof -
  have "\<exists>e. encrypt_provider_api_key toy_digest toy_vault (lit ''s'') [100] (lit ''key'') = Inr e"
    by (simp add: encrypt_provider_api_key_def sample_trims provider_cipher_def toy_vault_def utf8_encode_def
        utf8_char_def lit_def [of "''key''"] Let_def) (simp add: sample_trims(5) [unfolded lit_def, simplified])
  then obtain e where e: "encrypt_provider_api_key toy_digest toy_vault (lit ''s'') [100] (lit ''key'') = Inr e" ..
  show ?thesis
    unfolding sealed_key_def e sum.case by (rule decrypt_encrypted [OF toy_vault_ok e]) (simp add: lit_def is_char_def)
qed

lemma hi_served: "serves hi_gateway CHAT_COMPLETIONS_SPEC (lit ''m'') (calm_world priced_database) priced_route"
proof -
  have rows: "joined priced_database = [(hd (model_routes priced_database), hd (provider_connections priced_database))]"
    by (simp add: joined_def priced_database_def)
  have env: "cf_provider_secret_key (ge_config hi_gateway) = Some (lit ''s'')" "ge_auth hi_gateway = toy_digest"
    "ge_vault hi_gateway = toy_vault"
    by (simp_all add: hi_gateway_def sample_gateway_def)
  have "resolved_row toy_digest toy_vault calm (Some (lit ''s'')) (hd (model_routes priced_database),
      hd (provider_connections priced_database)) = Inr priced_route"
    by (simp add: resolved_row_def priced_database_def sample_route_def calm_def sealed_key_opens priced_route_def sample_trims transpose_opt_def)
  moreover have "find (\<lambda>(r, c). mr_public_model r = lit ''m'' \<and> mr_enabled r = 1 \<and> pc_enabled c = 1) (joined priced_database)
      = Some (hd (model_routes priced_database), hd (provider_connections priced_database))"
    unfolding rows by (simp add: priced_database_def sample_route_def)
  moreover have "lit ''m'' \<noteq> []" by (simp add: lit_def)
  ultimately show ?thesis unfolding serves_def env env_calm_world by blast
qed

lemma hi_conditions:
  "quiet (calm_world priced_database)" "unused_ids (calm_world priced_database)" "books_ok calm priced_database"
  "admits hi_gateway (routed_scopes sample_admin priced_route) hi_call (sample_gateway_state priced_database)"
  "covered hi_call hi_answer [1] 500 (calm_world priced_database)" "fits (answer_usage hi_call hi_answer) 5"
proof -
  show "quiet (calm_world priced_database)" by (simp add: quiet_def calm_def)
  show "unused_ids (calm_world priced_database)"
    by (simp add: unused_ids_def priced_database_def sample_books_def empty_database_def calm_world_def calm_def)
  show "books_ok calm priced_database"
    using sample_books_ok by (simp add: books_ok_def wallets_ok_def wallet_balance_def ledger_history_def priced_database_def)
  show "admits hi_gateway (routed_scopes sample_admin priced_route) hi_call (sample_gateway_state priced_database)"
    by (simp add: admits_def hi_gateway_def sample_gateway_def runtime_policy_def check_and_acquire_def is_disabled_def ret_def)
  have usage: "answer_usage hi_call hi_answer = \<lparr>prompt_tokens = 0, completion_tokens = 1, total_tokens = 1, estimated = True\<rparr>"
    by (simp add: answer_usage_def hi_call_def hi_answer_def sample_request_def estimate_usage_def Let_def
        byte_len_def len_utf8_def lit_def ceil_divide_def u64_saturating_add_def)
  show "fits (answer_usage hi_call hi_answer) 5" by (simp add: fits_def usage)
  have "admission_usage hi_call = \<lparr>prompt_tokens = 0, completion_tokens = 0, total_tokens = 0, estimated = True\<rparr>"
    by (simp add: admission_usage_def hi_call_def sample_request_def estimate_admission_usage_def estimate_usage_def Let_def
        byte_len_def ceil_divide_def u64_saturating_add_def)
  moreover have "cl_price hi_call = route_price_of priced_route" "cl_identity hi_call = sample_admin" by (simp_all add: hi_call_def)
  ultimately show "covered hi_call hi_answer [1] 500 (calm_world priced_database)"
    by (simp add: covered_def charge_of_def usage priced_route_def route_price_of_def calculate_usage_charge_def
        charge_input_of_def ceil_div_def Let_def sample_admin_def select_wallet_def priced_database_def sample_books_def
        sample_wallet_def order_by_desc_def order_by_def as_i64_def)
qed

theorem routed_request_is_answered_and_charged_witness:
  "\<exists>resp s'. run_state (chat_completions_impl hi_gateway sample_admin (\<lambda>_. None) (sample_request ''m'') CHAT_COMPLETIONS_SPEC)
       (sample_gateway_state priced_database) = (Some resp, s')
     \<and> hs_status resp = 200 \<and> wallet_balance (db (gs_world s')) [1] = 499"
proof -
  have w: "gs_world (sample_gateway_state priced_database) = calm_world priced_database" "env (calm_world priced_database) = calm"
    by (simp_all add: sample_gateway_state_def)
  have charge: "charge_of hi_call (answer_usage hi_call hi_answer) = 1"
    by (simp add: charge_of_def hi_call_def answer_usage_def hi_answer_def sample_request_def estimate_usage_def Let_def
        byte_len_def len_utf8_def lit_def ceil_divide_def u64_saturating_add_def route_price_of_def priced_route_def
        calculate_usage_charge_def charge_input_of_def ceil_div_def as_i64_def)
  have "\<exists>s' completion_id now. run_state (chat_completions_impl hi_gateway sample_admin (\<lambda>_. None) (sample_request ''m'')
        CHAT_COMPLETIONS_SPEC) (sample_gateway_state priced_database)
      = (Some (attach_request_headers (cl_context hi_call) 200
          (ChatBody (map_to_chat_completion_response completion_id (trim (pq_model (sample_request ''m''))) hi_answer now))), s')
      \<and> paid_once hi_call hi_answer [1] 500 (db (calm_world priced_database)) (db (gs_world s'))"
  proof (rule routed_request_is_answered_and_charged [where s = "sample_gateway_state priced_database" and E = hi_gateway
        and route = priced_route and max_tokens = None and x = hi_answer, unfolded w])
    show "serves hi_gateway CHAT_COMPLETIONS_SPEC (trim (pq_model (sample_request ''m''))) (calm_world priced_database) priced_route"
      using hi_served by (simp add: sample_request_def model_m)
    show "gateway_chat_completions (ge_upstream hi_gateway) (Suc (gs_calls (sample_gateway_state priced_database)))
        (cl_context hi_call) (provider_of priced_route) (cl_request hi_call) = Inr hi_answer"
      by (simp add: hi_gateway_def hi_upstream_def gateway_chat_completions_def provider_chat_completions_def
          send_chat_completion_request_def parse_chat_completion_response_def is_success_status_def hi_answer_def hi_call_def
          priced_route_def provider_of_def new_provider_def provider_name_of_def with_optional_api_key_def eq_ignore_ascii_case_def)
  qed (rule hi_conditions hi_call_def | simp add: calm_fresh sample_request_def parse_request_id_header_def header_text_def
      resolve_effective_max_tokens_def priced_route_def | use hi_conditions(6) in \<open>simp add: hi_gateway_def sample_gateway_def\<close>)+
  then show ?thesis by (auto simp: attach_request_headers_def paid_once_def charge)
qed

end
