(* ===== verification/Daemon_Client.thy ===== *)
theory Daemon_Client
  imports Dispatch Daemon_Nodes Upstream
begin

text \<open>
  The daemon on a node (crates/mizan-daemon/src/main.rs): its configuration, the signed requests it makes
  to the control plane, and its loop of heartbeat, lease, call of the local provider and
  completion. The control plane is a \<open>transport\<close> on a state of its own; the clock, the random
  nonces, the TOML and JSON libraries and the file with the token are fields of \<open>daemon_env\<close>,
  the first two numbered by the calls that were made.
\<close>

section \<open>Configuration\<close>

record raw_daemon_config =
  rd_control_plane_url :: "str option"
  rd_daemon_token_path :: "str option"
  rd_local_provider_url :: "str option"
  rd_local_provider_api_key :: "str option"
  rd_provider_family :: "str option"
  rd_advertised_models :: "str list option"
  rd_max_concurrency :: "u32 option"
  rd_pricing_metadata :: "json option"
  rd_region :: "str option"
  rd_labels :: "str list option"
  rd_health_addr :: "str option"
  rd_heartbeat_interval_seconds :: "u32 option"

text \<open>\<open>dc_health_addr\<close> is the text of the socket address.\<close>

record daemon_config =
  dc_control_plane_url :: str
  dc_daemon_token_path :: str
  dc_local_provider_url :: str
  dc_local_provider_api_key :: "str option"
  dc_provider_family :: str
  dc_advertised_models :: "str list"
  dc_max_concurrency :: u32
  dc_pricing_metadata :: "json option"
  dc_region :: "str option"
  dc_labels :: "str list"
  dc_health_addr :: str
  dc_heartbeat_interval_seconds :: u32

record daemon_env =
  de_auth :: auth_env
  de_clock :: "nat \<Rightarrow> i64"
  de_nonce :: "nat \<Rightarrow> str"
  de_fresh :: "nat \<Rightarrow> uuid"
  de_late :: "nat \<Rightarrow> bool"
  de_parse_uuid :: "str \<Rightarrow> str + uuid"
  de_read_file :: "str \<Rightarrow> str + str"
  de_toml :: "str \<Rightarrow> str + raw_daemon_config"
  de_socket_addr :: "str \<Rightarrow> str + str"
  de_hostname :: "str option"
  de_registration_json :: "registration_request \<Rightarrow> str + str"
  de_heartbeat_json :: "heartbeat_request \<Rightarrow> str + str"
  de_completion_json :: "job_complete_request \<Rightarrow> str + str"
  de_provider :: upstream

definition required_field :: "'a option \<Rightarrow> string \<Rightarrow> app_error + 'a" where
  "required_field v key = ok_or (InvalidConfig (lit key) (lit ''is required'')) v"

definition non_blank :: "str option \<Rightarrow> str option" where
  "non_blank v = (case map_option trim v of None \<Rightarrow> None | Some t \<Rightarrow> if t = [] then None else Some t)"

definition parse_daemon_config :: "daemon_env \<Rightarrow> str \<Rightarrow> app_error + daemon_config" where
  "parse_daemon_config D raw =
     and_then (map_err (Config (lit ''config'')) (de_toml D raw)) (\<lambda>c.
     and_then (required_field (rd_control_plane_url c) ''control_plane_url'') (\<lambda>control_plane_url.
     and_then (required_field (rd_daemon_token_path c) ''daemon_token_path'') (\<lambda>daemon_token_path.
     and_then (required_field (rd_local_provider_url c) ''local_provider_url'') (\<lambda>local_provider_url.
     let provider_family = to_ascii_lowercase (trim (case rd_provider_family c of
         Some f \<Rightarrow> f | None \<Rightarrow> lit ''openai-compatible'')) in
     and_then (required_field (rd_advertised_models c) ''advertised_models'') (\<lambda>advertised_models.
     let max_concurrency = (case rd_max_concurrency c of Some n \<Rightarrow> n | None \<Rightarrow> 1) in
     and_then (map_err (Config (lit ''health_addr'')) (de_socket_addr D (case rd_health_addr c of
         Some s \<Rightarrow> s | None \<Rightarrow> lit ''127.0.0.1:19180''))) (\<lambda>health_addr.
     if advertised_models = [] then
       Inl (InvalidConfig (lit ''advertised_models'') (lit ''at least one model is required''))
     else if provider_family = [] then
       Inl (InvalidConfig (lit ''provider_family'') (lit ''provider_family is required''))
     else if max_concurrency = 0 then
       Inl (InvalidConfig (lit ''max_concurrency'') (lit ''must be greater than zero''))
     else let interval = (case rd_heartbeat_interval_seconds c of Some n \<Rightarrow> n | None \<Rightarrow> 30) in
     if interval = 0 then
       Inl (InvalidConfig (lit ''heartbeat_interval_seconds'') (lit ''must be greater than zero''))
     else Inr \<lparr>dc_control_plane_url = control_plane_url, dc_daemon_token_path = daemon_token_path,
       dc_local_provider_url = local_provider_url, dc_local_provider_api_key = non_blank (rd_local_provider_api_key c),
       dc_provider_family = provider_family, dc_advertised_models = advertised_models,
       dc_max_concurrency = max_concurrency, dc_pricing_metadata = rd_pricing_metadata c,
       dc_region = non_blank (rd_region c),
       dc_labels = normalize_string_list (case rd_labels c of Some l \<Rightarrow> l | None \<Rightarrow> []),
       dc_health_addr = health_addr, dc_heartbeat_interval_seconds = interval\<rparr>))))))"

definition load_daemon_config :: "daemon_env \<Rightarrow> str \<Rightarrow> app_error + daemon_config" where
  "load_daemon_config D path = and_then (map_err Io (de_read_file D path)) (parse_daemon_config D)"

definition capabilities_payload :: "daemon_config \<Rightarrow> capability_payload" where
  "capabilities_payload c =
     \<lparr>cp_provider_family = dc_provider_family c, cp_model_ids = dc_advertised_models c,
      cp_max_concurrency = dc_max_concurrency c, cp_pricing_metadata = dc_pricing_metadata c,
      cp_region = dc_region c, cp_labels = dc_labels c, cp_health_status = Some (lit ''healthy''),
      cp_metadata = Some (JObject [(lit ''local_provider_url'', JString (dc_local_provider_url c)),
        (lit ''health_addr'', JString (dc_health_addr c))])\<rparr>"

definition read_daemon_token :: "daemon_env \<Rightarrow> daemon_config \<Rightarrow> app_error + str" where
  "read_daemon_token D c =
     and_then (map_err (Config (lit ''daemon_token_path'')) (de_read_file D (dc_daemon_token_path c))) (\<lambda>raw.
     if trim raw = [] then Inl (InvalidConfig (lit ''daemon_token_path'') (lit ''daemon token file is empty''))
     else Inr (trim raw))"

definition trim_start_matches :: "uchar \<Rightarrow> str \<Rightarrow> str" where
  "trim_start_matches c s = dropWhile (\<lambda>x. x = c) s"

definition control_plane_endpoint :: "str \<Rightarrow> str \<Rightarrow> str" where
  "control_plane_endpoint control_plane_url path =
     trim_end_matches 47 control_plane_url @ lit ''/'' @ trim_start_matches 47 path"

section \<open>Signed requests\<close>

definition EMPTY_BODY_HASH :: str where
  "EMPTY_BODY_HASH = lit ''e3b0c44298fc1c149afbf4c8996fb92427ae41e4649b934ca495991b7852b855''"

definition hash_bytes :: "daemon_env \<Rightarrow> str \<Rightarrow> str" where
  "hash_bytes D s = hex_bytes (sha256 (de_auth D) s)"

definition hash_token :: "daemon_env \<Rightarrow> str \<Rightarrow> str" where
  "hash_token D token = hash_bytes D token"

definition hash_body :: "daemon_env \<Rightarrow> ('b \<Rightarrow> str + str) \<Rightarrow> 'b \<Rightarrow> app_error + str" where
  "hash_body D to_json body = and_then (map_err (infra ''daemon body hash failed: '') (to_json body)) (\<lambda>payload.
     Inr (hash_bytes D payload))"

text \<open>The updates of the digest, in order.\<close>

definition compute_request_signature :: "daemon_env \<Rightarrow> str \<Rightarrow> str \<Rightarrow> str \<Rightarrow> i64 \<Rightarrow> str \<Rightarrow> str \<Rightarrow> str" where
  "compute_request_signature D token_hash method path timestamp nonce body_hash =
     hex_bytes (sha256 (de_auth D) (concat [token_hash, lit ''|'', method, lit ''|'', path, lit ''|'',
       show_int timestamp, lit ''|'', nonce, lit ''|'', body_hash]))"

text \<open>A request on its way: \<open>then_sign\<close> sets four headers, \<open>bearer_auth\<close> the fifth.\<close>

record wire =
  wr_url :: str
  wr_headers :: "(string \<times> str) list"

definition received :: "wire \<Rightarrow> headers" where
  "received r k = map_option Some (map_of (map (\<lambda>(n, v). (lit n, v)) (wr_headers r)) k)"

record 's daemon_state =
  ds_calls :: nat
  ds_plane :: 's

type_synonym ('s, 'a) daemon_op = "'s daemon_state \<Rightarrow> (app_error + 'a) \<times> 's daemon_state"

definition ask :: "(nat \<Rightarrow> 'a) \<Rightarrow> ('s, 'a) daemon_op" where
  "ask f s = (Inr (f (ds_calls s)), s\<lparr>ds_calls := Suc (ds_calls s)\<rparr>)"

definition then_sign :: "daemon_env \<Rightarrow> str \<Rightarrow> str \<Rightarrow> str \<Rightarrow> str \<Rightarrow> ('s, (string \<times> str) list) daemon_op" where
  "then_sign D token method path body_hash =
     bind_op (ask (de_clock D)) (\<lambda>timestamp.
     bind_op (ask (de_nonce D)) (\<lambda>nonce.
     ret [(TIMESTAMP_HEADER, show_int timestamp), (NONCE_HEADER, nonce), (BODY_HASH_HEADER, body_hash),
          (SIGNATURE_HEADER, compute_request_signature D (hash_token D token) method path timestamp nonce body_hash)]))"

definition signed_post :: "daemon_env \<Rightarrow> daemon_config \<Rightarrow> str \<Rightarrow> str \<Rightarrow> str \<Rightarrow> ('s, wire) daemon_op" where
  "signed_post D c token path body_hash =
     bind_op (then_sign D token (lit ''POST'') path body_hash) (\<lambda>signature.
     ret \<lparr>wr_url = control_plane_endpoint (dc_control_plane_url c) path,
          wr_headers = signature @ [(''authorization'', lit ''Bearer '' @ token)]\<rparr>)"

section \<open>The control plane\<close>

record seen_reply =
  sr_node_id :: str
  sr_status :: str
  sr_last_seen_at :: str

record client_lease =
  li_id :: str
  li_request_id :: str
  li_model :: str
  li_request :: chat_request

text \<open>The answer to a request, or the error of sending it; the body may fail to decode.\<close>

record 's transport =
  tp_register :: "wire \<Rightarrow> registration_request \<Rightarrow> 's \<Rightarrow> (str + status \<times> (str + seen_reply)) \<times> 's"
  tp_heartbeat :: "wire \<Rightarrow> heartbeat_request \<Rightarrow> 's \<Rightarrow> (str + status \<times> (str + seen_reply)) \<times> 's"
  tp_lease :: "wire \<Rightarrow> 's \<Rightarrow> (str + status \<times> (str + client_lease option)) \<times> 's"
  tp_complete :: "str \<Rightarrow> wire \<Rightarrow> job_complete_request \<Rightarrow> 's \<Rightarrow> (str + status) \<times> 's"
  tp_status_text :: "status \<Rightarrow> str"

definition on_plane :: "('s \<Rightarrow> (str + 'a) \<times> 's) \<Rightarrow> string \<Rightarrow> ('s, 'a) daemon_op" where
  "on_plane m message s = (case m (ds_plane s) of
      (r, p) \<Rightarrow> (map_err (\<lambda>e. Infrastructure (lit message @ e)) r, s\<lparr>ds_plane := p\<rparr>))"

definition accepted_status :: "'s transport \<Rightarrow> string \<Rightarrow> status \<Rightarrow> ('s, unit) daemon_op" where
  "accepted_status T what st =
     (if is_success_status st then ret ()
      else throw (Infrastructure (lit what @ lit '' rejected by control plane with status '' @ tp_status_text T st)))"

definition hostname_of :: "daemon_env \<Rightarrow> str option" where
  "hostname_of D = non_blank (de_hostname D)"

definition daemon_register ::
  "daemon_env \<Rightarrow> 's transport \<Rightarrow> str \<Rightarrow> daemon_config \<Rightarrow> ('s, seen_reply) daemon_op" where
  "daemon_register D T token c =
     (let request = \<lparr>rg_hostname = hostname_of D, rg_public_key = None,
        rg_capabilities = Some (capabilities_payload c)\<rparr> in
      bind_op (of_result (hash_body D (de_registration_json D) request)) (\<lambda>body_hash.
      bind_op (signed_post D c token (lit ''/daemon/register'') body_hash) (\<lambda>wire.
      bind_op (on_plane (tp_register T wire request) ''daemon registration failed: '') (\<lambda>(st, body).
      bind_op (accepted_status T ''daemon registration'' st) (\<lambda>_.
      of_result (map_err (infra ''invalid daemon registration response: '') body))))))"

definition send_heartbeat ::
  "daemon_env \<Rightarrow> 's transport \<Rightarrow> str \<Rightarrow> daemon_config \<Rightarrow> ('s, seen_reply) daemon_op" where
  "send_heartbeat D T token c =
     (let request = \<lparr>hb_hostname = hostname_of D, hb_public_key = None,
        hb_capabilities = capabilities_payload c\<rparr> in
      bind_op (of_result (hash_body D (de_heartbeat_json D) request)) (\<lambda>body_hash.
      bind_op (signed_post D c token (lit ''/daemon/heartbeat'') body_hash) (\<lambda>wire.
      bind_op (on_plane (tp_heartbeat T wire request) ''daemon heartbeat failed: '') (\<lambda>(st, body).
      bind_op (accepted_status T ''daemon heartbeat'' st) (\<lambda>_.
      of_result (map_err (infra ''invalid daemon heartbeat response: '') body))))))"

section \<open>Jobs\<close>

definition provider_context :: "uuid \<Rightarrow> client_lease \<Rightarrow> request_context \<Rightarrow> request_context" where
  "provider_context request_id job ctx =
     set_streaming False (set_path (lit ''/v1/chat/completions'') (set_method (lit ''POST'')
     (set_model (cr_model (li_request job)) (set_route (li_model job) (set_provider (lit ''mizan-daemon'')
     (set_trace_id request_id (set_request_id request_id ctx)))))))"

text \<open>A call that takes more than 30 seconds is given up; \<open>de_late\<close> knows which do.\<close>

definition call_local_provider ::
  "daemon_env \<Rightarrow> daemon_config \<Rightarrow> client_lease \<Rightarrow> ('s, chat_response) daemon_op" where
  "call_local_provider D c job =
     bind_op (of_result (map_err (infra ''daemon dispatch request_id is invalid: '') (de_parse_uuid D (li_request_id job))))
       (\<lambda>request_id.
     bind_op (ask (de_fresh D)) (\<lambda>default_id.
     bind_op (ask (\<lambda>n. n)) (\<lambda>n.
     if de_late D n then throw (Infrastructure (lit ''local provider request timed out after 30 seconds''))
     else of_result (provider_chat_completions (de_provider D) n
       (with_optional_api_key (lit ''mizan-daemon'') (dc_local_provider_url c) (dc_local_provider_api_key c))
       (provider_context request_id job (new_context default_id)) (li_request job)))))"

definition completion_of :: "app_error + chat_response \<Rightarrow> job_complete_request" where
  "completion_of r = (case r of
      Inr response \<Rightarrow> \<lparr>jc_status = lit ''succeeded'', jc_response = Some response, jc_error_code = None,
        jc_error_message = None\<rparr>
    | Inl e \<Rightarrow> \<lparr>jc_status = lit ''failed'', jc_response = None, jc_error_code = Some (lit ''provider_error''),
        jc_error_message = Some (redact_for_logs (error_to_string e))\<rparr>)"

definition complete_path :: "str \<Rightarrow> str" where
  "complete_path job_id = lit ''/daemon/jobs/'' @ job_id @ lit ''/complete''"

definition submit_completion ::
  "daemon_env \<Rightarrow> 's transport \<Rightarrow> str \<Rightarrow> daemon_config \<Rightarrow> str \<Rightarrow> job_complete_request \<Rightarrow> ('s, unit) daemon_op" where
  "submit_completion D T token c job_id completion =
     bind_op (of_result (hash_body D (de_completion_json D) completion)) (\<lambda>body_hash.
     bind_op (signed_post D c token (complete_path job_id) body_hash) (\<lambda>wire.
     bind_op (on_plane (tp_complete T job_id wire completion) ''daemon job completion submit failed: '') (\<lambda>st.
     accepted_status T ''daemon job completion'' st)))"

definition lease_and_run_one_job ::
  "daemon_env \<Rightarrow> 's transport \<Rightarrow> str \<Rightarrow> daemon_config \<Rightarrow> ('s, unit) daemon_op" where
  "lease_and_run_one_job D T token c =
     bind_op (signed_post D c token (lit ''/daemon/jobs/lease'') EMPTY_BODY_HASH) (\<lambda>wire.
     bind_op (on_plane (tp_lease T wire) ''daemon job lease failed: '') (\<lambda>(st, body).
     bind_op (accepted_status T ''daemon job lease'' st) (\<lambda>_.
     bind_op (of_result (map_err (infra ''invalid daemon job lease response: '') body)) (\<lambda>leased.
     case leased of
       None \<Rightarrow> ret ()
     | Some job \<Rightarrow> bind_op (try_op (call_local_provider D c job)) (\<lambda>r.
         submit_completion D T token c (li_id job) (completion_of r))))))"

section \<open>The loop\<close>

text \<open>One turn: both errors are only logged. Between two turns the daemon sleeps.\<close>

definition run_turn :: "daemon_env \<Rightarrow> 's transport \<Rightarrow> str \<Rightarrow> daemon_config \<Rightarrow> 's daemon_state \<Rightarrow> 's daemon_state" where
  "run_turn D T token c s =
     snd (lease_and_run_one_job D T token c (snd (send_heartbeat D T token c s)))"

definition sleep_seconds :: "daemon_config \<Rightarrow> u32" where
  "sleep_seconds c = max (dc_heartbeat_interval_seconds c) 1"

text \<open>The first \<open>n\<close> turns of the loop, which has no end; \<open>others\<close> is what happens during the \<open>n\<close>-th sleep.\<close>

fun run_turns ::
  "daemon_env \<Rightarrow> 's transport \<Rightarrow> (nat \<Rightarrow> 's \<Rightarrow> 's) \<Rightarrow> str \<Rightarrow> daemon_config \<Rightarrow> nat \<Rightarrow> 's daemon_state \<Rightarrow> 's daemon_state" where
  "run_turns D T others token c 0 s = s"
| "run_turns D T others token c (Suc n) s =
     (let s' = run_turns D T others token c n s in
      run_turn D T token c (s'\<lparr>ds_plane := others n (ds_plane s')\<rparr>))"

section \<open>The control plane accepts what the daemon signs\<close>

text \<open>Text that a header carries unchanged: no white space, not empty.\<close>

definition plain :: "str \<Rightarrow> bool" where
  "plain v \<longleftrightarrow> v \<noteq> [] \<and> (\<forall>c \<in> set v. \<not> is_whitespace c)"

lemma plain_trim [simp]: "plain v \<Longrightarrow> trim v = v" "plain v \<Longrightarrow> v \<noteq> []"
  by (simp_all add: plain_def trim_clean)

lemma plain_hex: "bs \<noteq> [] \<Longrightarrow> plain (hex_bytes bs)"
  using hex_not_space by (auto simp: plain_def hex_bytes_def)

lemma plain_show_int: "plain (show_int t)"
  by (auto simp: plain_def show_int_def is_whitespace_def dest: show_nat_digits)

lemma split_plain: "plain v \<Longrightarrow> split_whitespace v = [v]"
proof -
  assume v: "plain v"
  have d: "dropWhile is_whitespace v = v" "takeWhile (\<lambda>c. \<not> is_whitespace c) v = v"
    "dropWhile (\<lambda>c. \<not> is_whitespace c) v = []" "v \<noteq> []"
    using v by (cases v; auto simp: plain_def takeWhile_eq_all_conv dropWhile_eq_Nil_conv)+
  have "split_whitespace [] = []" by (simp add: split_whitespace.simps [of "[]"])
  then show ?thesis by (subst split_whitespace.simps) (simp add: Let_def d)
qed

lemma bearer_token: "plain token \<Longrightarrow> authorization_token (lit ''Bearer '' @ token) = Some token"
proof -
  assume t: "plain token"
  have "split_whitespace (lit ''Bearer '' @ token) = lit ''Bearer'' # split_whitespace (32 # token)"
    by (subst split_whitespace.simps) (simp add: lit_def is_whitespace_def)
  also have "split_whitespace (32 # token) = split_whitespace token"
    by (simp add: split_whitespace.simps [of "32 # token"] split_whitespace.simps [of token] is_whitespace_def)
  finally show ?thesis using split_plain [OF t] by (simp add: authorization_token_def eq_ignore_ascii_case_def)
qed

lemma request_signature_agrees:
  "sha256 (de_auth D) = sha256 a \<Longrightarrow> compute_request_signature D (hash_token D token) m p t n b
     = compute_daemon_signature a (hash_value a token) m p t n b"
  by (simp add: compute_request_signature_def compute_daemon_signature_def signed_message_def hash_token_def
      hash_bytes_def hash_value_def)

lemma received_texts:
  assumes "wr_headers r = [(TIMESTAMP_HEADER, t), (NONCE_HEADER, n), (BODY_HASH_HEADER, b), (SIGNATURE_HEADER, sig),
    (''authorization'', v)]"
  shows "header_text (received r) TIMESTAMP_HEADER = Some t" "header_text (received r) NONCE_HEADER = Some n"
    "header_text (received r) BODY_HASH_HEADER = Some b" "header_text (received r) SIGNATURE_HEADER = Some sig"
    "header_text (received r) ''authorization'' = Some v"
  by (simp_all add: header_text_def received_def assms TIMESTAMP_HEADER_def NONCE_HEADER_def BODY_HASH_HEADER_def
      SIGNATURE_HEADER_def)

lemma signed_post_run:
  "signed_post D c token path b s = (Inr \<lparr>wr_url = control_plane_endpoint (dc_control_plane_url c) path,
     wr_headers = [(TIMESTAMP_HEADER, show_int (de_clock D (ds_calls s))), (NONCE_HEADER, de_nonce D (Suc (ds_calls s))),
       (BODY_HASH_HEADER, b), (SIGNATURE_HEADER, compute_request_signature D (hash_token D token) (lit ''POST'') path
         (de_clock D (ds_calls s)) (de_nonce D (Suc (ds_calls s))) b), (''authorization'', lit ''Bearer '' @ token)]\<rparr>,
     s\<lparr>ds_calls := Suc (Suc (ds_calls s))\<rparr>)"
  by (simp add: signed_post_def then_sign_def bind_op_def ask_def ret_def)

definition live_node :: "auth_env \<Rightarrow> str \<Rightarrow> world \<Rightarrow> daemon_node_row \<Rightarrow> uuid \<Rightarrow> bool" where
  "live_node a token w row node_id \<longleftrightarrow> row \<in> set (daemon_nodes (db w)) \<and> dn_token_hash row = hash_value a token
     \<and> dn_revoked row = 0 \<and> dn_status row \<noteq> STATUS_REVOKED \<and> parse_uuid (env w) (dn_id row) = Inr node_id
     \<and> (\<forall>r \<in> set (daemon_nodes (db w)). dn_token_hash r = hash_value a token \<longrightarrow> r = row)"

definition identity_of :: "daemon_node_row \<Rightarrow> uuid \<Rightarrow> daemon_identity" where
  "identity_of row node_id = \<lparr>di_node_id = node_id, di_status = dn_status row, di_token_hash = dn_token_hash row\<rparr>"

lemma find_unique: "x \<in> set xs \<Longrightarrow> P x \<Longrightarrow> (\<And>y. y \<in> set xs \<Longrightarrow> P y \<Longrightarrow> y = x) \<Longrightarrow> find P xs = Some x"
  by (metis find_SomeD find_None_iff not_None_eq)

lemma resolve_live:
  assumes "live_node a token w row node_id" "plain token" "fault (env w) (tick w) = None"
  shows "resolve_daemon_node_identity a (lit ''Bearer '' @ token) w = (Inr (identity_of row node_id), tick_world w)"
proof -
  have "find (\<lambda>n. dn_token_hash n = hash_value a token \<and> dn_revoked n = 0 \<and> dn_status n \<noteq> STATUS_REVOKED)
      (daemon_nodes (db w)) = Some row"
    using assms(1) by (intro find_unique) (auto simp: live_node_def)
  moreover have "parse_uuid (env w) (dn_id row) = Inr node_id" using assms(1) by (simp add: live_node_def)
  ultimately show ?thesis
    using assms(2,3) by (simp add: resolve_daemon_node_identity_def bearer_token identity_of_def bind_op_def
        of_result_def err_op_def exec_def query_stmt_def tick_world_def)
qed

lemma admit_fresh: "sc_nonce_key c \<notin> fst ` set cache \<Longrightarrow> fst (admit_nonce now c cache) = Inr ()"
  by (force simp: admit_nonce_def prune_stale_nonces_def Let_def)

lemma parse_show_i64: "\<bar>t\<bar> < 2 ^ 62 \<Longrightarrow> parse_i64 (show_int t) = Some t"
proof (cases "t < 0")
  case True
  then show "\<bar>t\<bar> < 2 ^ 62 \<Longrightarrow> ?thesis" by (simp add: show_int_def parse_i64_def Let_def in_i64_def)
next
  case False
  then show "\<bar>t\<bar> < 2 ^ 62 \<Longrightarrow> ?thesis" using parse_i64_show [of "nat t"] by (simp add: show_int_def)
qed

lemma claim_accepted:
  assumes wire: "wr_headers r = [(TIMESTAMP_HEADER, show_int t), (NONCE_HEADER, n), (BODY_HASH_HEADER, b),
      (SIGNATURE_HEADER, compute_daemon_signature a (di_token_hash who) m p t n b), (''authorization'', v)]"
    and ok: "plain n" "plain b" "sha256 a (signed_message (di_token_hash who) m p t n b) \<noteq> []"
    and time: "\<bar>now - t\<bar> \<le> 300" "\<bar>t\<bar> < 2 ^ 62"
  shows "check_claim a m p (received r) who now
    = Inr \<lparr>sc_timestamp = t, sc_expiry = t + 300, sc_nonce_key = di_node_id who @ lit ''::'' @ n\<rparr>"
proof -
  note h = received_texts [OF wire]
  have sig: "plain (compute_daemon_signature a (di_token_hash who) m p t n b)"
    using ok(3) by (simp add: compute_daemon_signature_def plain_hex)
  have "parse_i64 (show_int t) = Some t" using parse_show_i64 [OF time(2)] .
  moreover have "in_i64 (now - t)" "in_i64 \<bar>now - t\<bar>" "in_i64 (t + 300)"
    using time by (auto simp: in_i64_def)
  ultimately show ?thesis
    using ok(1,2) sig plain_show_int [of t] time(1)
    by (simp add: check_claim_def header_value_def h Let_def parse_timestamp_def checked_def
        DAEMON_SIGNATURE_TTL_SECONDS_def verify_daemon_signature_def secure_eq_bytes)
qed

lemma signed_request_admitted:
  assumes wire: "signed_post D c token path b d = (Inr wire, d')"
    and req: "dq_method req = lit ''POST''" "dq_path req = path" "dq_headers req = received wire"
    and clean: "plain token" "plain (de_nonce D (Suc (ds_calls d)))" "plain b"
    and digest: "sha256 (de_auth D) = sha256 a" "\<forall>m. sha256 a m \<noteq> []"
    and node: "live_node a token (as_world s) row node_id" "fault (env (as_world s)) (tick (as_world s)) = None"
    and time: "\<bar>int (clock (env (as_world s)) (Suc (tick (as_world s)))) - de_clock D (ds_calls d)\<bar> \<le> 300"
      "\<bar>de_clock D (ds_calls d)\<bar> < 2 ^ 62"
    and nonce: "node_id @ lit ''::'' @ de_nonce D (Suc (ds_calls d)) \<notin> fst ` set (as_nonces s)"
  shows "\<exists>cache. daemon_node_auth a req next_handler s = next_handler (identity_of row node_id) (dq_body req)
      \<lparr>as_world = tick_world (tick_world (as_world s)), as_nonces = cache\<rparr>
    \<and> (node_id @ lit ''::'' @ de_nonce D (Suc (ds_calls d)), de_clock D (ds_calls d) + 300) \<in> set cache
    \<and> fst ` set cache \<subseteq> insert (node_id @ lit ''::'' @ de_nonce D (Suc (ds_calls d))) (fst ` set (as_nonces s))"
proof -
  let ?w = "as_world s" and ?t = "de_clock D (ds_calls d)" and ?n = "de_nonce D (Suc (ds_calls d))"
  let ?now = "int (clock (env ?w) (Suc (tick ?w)))"
  let ?c = "\<lparr>sc_timestamp = ?t, sc_expiry = ?t + 300, sc_nonce_key = node_id @ lit ''::'' @ ?n\<rparr>"
  have h: "wr_headers wire = [(TIMESTAMP_HEADER, show_int ?t), (NONCE_HEADER, ?n), (BODY_HASH_HEADER, b),
      (SIGNATURE_HEADER, compute_daemon_signature a (hash_value a token) (lit ''POST'') path ?t ?n b),
      (''authorization'', lit ''Bearer '' @ token)]"
    using wire request_signature_agrees [OF digest(1)] by (auto simp: signed_post_run)
  have claim: "check_claim a (lit ''POST'') path (received wire) (identity_of row node_id) ?now = Inr ?c"
    using claim_accepted [of wire ?t ?n b a "identity_of row node_id" "lit ''POST''" path _ ?now] h clean(2,3) digest(2) time
      conjunct1 [OF conjunct2 [OF node(1) [unfolded live_node_def]]]
    by (simp add: identity_of_def)
  obtain cache where adm: "admit_nonce ?now ?c (as_nonces s) = (Inr (), cache)"
    using admit_fresh [of ?c "as_nonces s" ?now] nonce by (metis prod.collapse signed_claim.select_convs(3))
  have "daemon_node_auth a req next_handler s = next_handler (identity_of row node_id) (dq_body req)
      \<lparr>as_world = tick_world (tick_world ?w), as_nonces = cache\<rparr>"
    using resolve_live [OF node(1) clean(1) node(2)] claim adm
    by (cases s) (simp add: daemon_node_auth_def req received_texts(5) [OF h] validate_daemon_request_signature_def bind_op_def
        of_result_def on_world_def on_nonces_def now_utc_epoch_seconds_def tick_world_def)
  moreover have "fst ` set cache \<subseteq> insert (sc_nonce_key ?c) (fst ` set (as_nonces s))"
    using adm by (auto simp: admit_nonce_def prune_stale_nonces_def Let_def split: if_splits)
  ultimately show ?thesis using admit_nonce_Inr [OF adm] by auto
qed

section \<open>What a configuration offers\<close>

lemma whitespace_lower [simp]: "is_whitespace (ascii_lower c) = is_whitespace c"
  by (auto simp: is_whitespace_def ascii_lower_def)

lemma trim_map_lower: "trim (to_ascii_lowercase v) = to_ascii_lowercase (trim v)"
  by (simp add: trim_def trim_start_def trim_end_def to_ascii_lowercase_def dropWhile_map comp_def rev_map)

lemma lower_idem [simp]: "to_ascii_lowercase (to_ascii_lowercase v) = to_ascii_lowercase v"
  by (simp add: to_ascii_lowercase_def ascii_lower_def)

lemma non_blank_trimmed: "normalize_optional (non_blank v) = non_blank v"
  by (auto simp: non_blank_def normalize_optional_def split: option.splits)

lemma normalize_list_idem [simp]: "normalize_string_list (normalize_string_list vs) = normalize_string_list vs"
  using normalize_string_list_keeps_first_names by blast

lemma parse_daemon_config_Inr:
  assumes "parse_daemon_config D raw = Inr c"
  shows "to_ascii_lowercase (trim (dc_provider_family c)) = dc_provider_family c" "dc_provider_family c \<noteq> []"
    "dc_advertised_models c \<noteq> []" "dc_max_concurrency c \<noteq> 0" "dc_heartbeat_interval_seconds c \<noteq> 0"
    "normalize_optional (dc_region c) = dc_region c" "normalize_string_list (dc_labels c) = dc_labels c"
  using assms
  by (auto simp: parse_daemon_config_def Let_def and_then_Inr non_blank_trimmed trim_map_lower split: if_splits)



lemma spent_request_refused:
  assumes wire: "signed_post D c token path b d = (Inr wire, d')"
    and req: "dq_method req = lit ''POST''" "dq_path req = path" "dq_headers req = received wire"
    and clean: "plain token" "plain (de_nonce D (Suc (ds_calls d)))"
    and node: "live_node a token w row node_id" "fault (env w) (tick w) = None"
    and time: "\<bar>de_clock D (ds_calls d)\<bar> < 2 ^ 62"
    and kept: "(node_id @ lit ''::'' @ de_nonce D (Suc (ds_calls d)), de_clock D (ds_calls d) + 300) \<in> set cache"
  shows "\<exists>e. fst (daemon_node_auth a req other \<lparr>as_world = w, as_nonces = cache\<rparr>) = Inl e \<and> fst e = 401"
proof -
  let ?t = "de_clock D (ds_calls d)" and ?n = "de_nonce D (Suc (ds_calls d))"
  let ?now = "int (clock (env w) (Suc (tick w)))" and ?who = "identity_of row node_id"
  obtain sig where h: "wr_headers wire = [(TIMESTAMP_HEADER, show_int ?t), (NONCE_HEADER, ?n), (BODY_HASH_HEADER, b),
      (SIGNATURE_HEADER, sig), (''authorization'', lit ''Bearer '' @ token)]"
    using wire by (auto simp: signed_post_run)
  note texts = received_texts [OF h]
  show ?thesis
  proof (cases "check_claim a (lit ''POST'') path (received wire) ?who ?now")
    case (Inl e)
    then show ?thesis
      using check_claim_Inl [OF Inl] resolve_live [OF node(1) clean(1) node(2)]
      by (simp add: daemon_node_auth_def req texts(5) validate_daemon_request_signature_def bind_op_def
          of_result_def on_world_def now_utc_epoch_seconds_def tick_world_def)
  next
    case (Inr claim)
    note facts = check_claim_Inr [OF Inr]
    have "sc_nonce_key claim = node_id @ lit ''::'' @ ?n" "sc_expiry claim = ?t + 300" "?now \<le> ?t + 300"
      using facts texts clean(2) parse_show_i64 [OF time]
      by (auto simp: header_value_def identity_of_def plain_show_int split: if_splits)
    then have "fst (admit_nonce ?now claim cache) = Inl unauthorized"
      using admit_nonce_rejects [of claim "?t + 300"] kept by simp
    then show ?thesis
      using Inr resolve_live [OF node(1) clean(1) node(2)]
      by (cases "admit_nonce ?now claim cache")
        (simp add: daemon_node_auth_def req texts(5) validate_daemon_request_signature_def bind_op_def of_result_def
          on_world_def on_nonces_def now_utc_epoch_seconds_def tick_world_def unauthorized_def map_error_def)
  qed
qed

text \<open>C15. The two ends of a signed request, written independently, agree: what the daemon of a live node signs
  with its token, the control plane admits and hands, with the node's identity, to the handler, if
  the two clocks are at most 300 seconds apart and the nonce is new. And only once: the same bytes sent again
  are answered with 401, whenever they arrive.\<close>

theorem signed_request_is_admitted_once:
  assumes wire: "signed_post D c token path b d = (Inr wire, d')"
    and req: "dq_method req = lit ''POST''" "dq_path req = path" "dq_headers req = received wire"
    and clean: "plain token" "plain (de_nonce D (Suc (ds_calls d)))" "plain b"
    and digest: "sha256 (de_auth D) = sha256 a" "\<forall>m. sha256 a m \<noteq> []"
    and node: "live_node a token (as_world s) row node_id" "fault (env (as_world s)) (tick (as_world s)) = None"
    and time: "\<bar>int (clock (env (as_world s)) (Suc (tick (as_world s)))) - de_clock D (ds_calls d)\<bar> \<le> 300"
      "\<bar>de_clock D (ds_calls d)\<bar> < 2 ^ 62"
    and nonce: "node_id @ lit ''::'' @ de_nonce D (Suc (ds_calls d)) \<notin> fst ` set (as_nonces s)"
  shows "\<exists>cache. daemon_node_auth a req next_handler s = next_handler (identity_of row node_id) (dq_body req)
      \<lparr>as_world = tick_world (tick_world (as_world s)), as_nonces = cache\<rparr>
    \<and> (\<forall>w other. live_node a token w row node_id \<longrightarrow> fault (env w) (tick w) = None \<longrightarrow>
         (\<exists>e. fst (daemon_node_auth a req other \<lparr>as_world = w, as_nonces = cache\<rparr>) = Inl e \<and> fst e = 401))"
proof -
  let ?t = "de_clock D (ds_calls d)" and ?key = "node_id @ lit ''::'' @ de_nonce D (Suc (ds_calls d))"
  obtain cache where run: "daemon_node_auth a req next_handler s = next_handler (identity_of row node_id) (dq_body req)
      \<lparr>as_world = tick_world (tick_world (as_world s)), as_nonces = cache\<rparr>" and kept: "(?key, ?t + 300) \<in> set cache"
    using signed_request_admitted [OF wire req clean digest node time nonce, of next_handler] by blast
  have "\<exists>e. fst (daemon_node_auth a req other \<lparr>as_world = w, as_nonces = cache\<rparr>) = Inl e \<and> fst e = 401"
    if w: "live_node a token w row node_id" "fault (env w) (tick w) = None" for w other
    by (rule spent_request_refused [OF wire req clean(1,2) w time(2) kept])
  then show ?thesis using run by blast
qed

section \<open>Witnesses\<close>

definition marked_crypto :: auth_env where
  "marked_crypto = plain_crypto\<lparr>sha256 := \<lambda>m. 0 # map (\<lambda>c. c mod 256) m\<rparr>"

definition awake_node :: daemon_node_row where
  "awake_node = sample_node\<lparr>dn_token_hash := hex_bytes [0, 107]\<rparr>"

definition awake_state :: app_state where
  "awake_state = \<lparr>as_world = calm_world (empty_database\<lparr>daemon_nodes := [awake_node]\<rparr>), as_nonces = []\<rparr>"

definition sample_config :: raw_daemon_config where
  "sample_config = \<lparr>rd_control_plane_url = Some (lit ''u''), rd_daemon_token_path = Some (lit ''t''),
     rd_local_provider_url = Some (lit ''l''), rd_local_provider_api_key = None, rd_provider_family = None,
     rd_advertised_models = Some [lit ''m''], rd_max_concurrency = None, rd_pricing_metadata = None,
     rd_region = None, rd_labels = None, rd_health_addr = None, rd_heartbeat_interval_seconds = None\<rparr>"

definition sample_daemon :: daemon_env where
  "sample_daemon = \<lparr>de_auth = marked_crypto, de_clock = (\<lambda>_. 1700000000),
     de_nonce = (\<lambda>n. replicate (Suc n) 110), de_fresh = (\<lambda>n. [n]), de_late = (\<lambda>_. False), de_parse_uuid = Inr,
     de_read_file = (\<lambda>_. Inr (lit ''k'')), de_toml = (\<lambda>_. Inr sample_config), de_socket_addr = Inr,
     de_hostname = None, de_registration_json = (\<lambda>_. Inr []), de_heartbeat_json = (\<lambda>_. Inr []),
     de_completion_json = (\<lambda>_. Inr []),
     de_provider = \<lparr>up_send = (\<lambda>_ _. Inr \<lparr>hp_status = 200, hp_status_text = [], hp_text = Inr [], hp_pieces = []\<rparr>),
       up_decode = (\<lambda>_. Inr \<lparr>or_model = None,
         or_choices = [\<lparr>oh_message = Some \<lparr>om_content = Some (lit ''hi'')\<rparr>\<rparr>], or_usage = None\<rparr>)\<rparr>\<rparr>"

definition loaded_config :: daemon_config where
  "loaded_config = \<lparr>dc_control_plane_url = lit ''u'', dc_daemon_token_path = lit ''t'', dc_local_provider_url = lit ''l'',
     dc_local_provider_api_key = None, dc_provider_family = lit ''openai-compatible'',
     dc_advertised_models = [lit ''m''], dc_max_concurrency = 1, dc_pricing_metadata = None, dc_region = None,
     dc_labels = [], dc_health_addr = lit ''127.0.0.1:19180'', dc_heartbeat_interval_seconds = 30\<rparr>"

lemma sample_config_loads: "parse_daemon_config sample_daemon [] = Inr loaded_config"
proof -
  have "to_ascii_lowercase (trim (lit ''openai-compatible'')) = lit ''openai-compatible''"
    "lit ''openai-compatible'' \<noteq> []" "normalize_string_list [] = []"
    by code_simp+
  then show ?thesis
    by (simp add: parse_daemon_config_def sample_daemon_def sample_config_def loaded_config_def Let_def required_field_def
        non_blank_def)
qed


lemma marked_digest [simp]: "sha256 marked_crypto m \<noteq> []"
  by (simp add: marked_crypto_def)

lemma plain_k: "plain (lit ''k'')"
  by (simp add: plain_def lit_def is_whitespace_def)

lemma plain_nonce: "plain (de_nonce sample_daemon n)"
  by (simp add: plain_def sample_daemon_def is_whitespace_def)

lemma plain_empty_hash: "plain EMPTY_BODY_HASH"
  by (simp add: plain_def EMPTY_BODY_HASH_def lit_def is_whitespace_def)

lemma awake: "live_node marked_crypto (lit ''k'') (as_world awake_state) awake_node [1]"
  by (simp add: live_node_def awake_state_def awake_node_def sample_node_def calm_world_def calm_def hash_value_def
      marked_crypto_def lit_def)

definition leasing_request :: "wire \<Rightarrow> unit daemon_request" where
  "leasing_request wire = \<lparr>dq_method = lit ''POST'', dq_path = lit ''/daemon/jobs/lease'', dq_headers = received wire,
     dq_body = ()\<rparr>"

theorem signed_request_is_admitted_once_witness:
  "\<exists>wire d'. signed_post sample_daemon loaded_config (lit ''k'') (lit ''/daemon/jobs/lease'') EMPTY_BODY_HASH
      \<lparr>ds_calls = 0, ds_plane = ()\<rparr> = (Inr wire, d')
    \<and> fst (daemon_node_auth marked_crypto (leasing_request wire) (\<lambda>who _. ret (di_node_id who)) awake_state) = Inr [1]"
proof -
  let ?d = "\<lparr>ds_calls = 0, ds_plane = ()\<rparr>"
  obtain wire d' where w: "signed_post sample_daemon loaded_config (lit ''k'') (lit ''/daemon/jobs/lease'')
      EMPTY_BODY_HASH ?d = (Inr wire, d')"
    by (simp add: signed_post_run)
  have env: "fault (env (as_world awake_state)) (tick (as_world awake_state)) = None"
    "sha256 (de_auth sample_daemon) = sha256 marked_crypto" "\<forall>m. sha256 marked_crypto m \<noteq> []"
    "\<bar>int (clock (env (as_world awake_state)) (Suc (tick (as_world awake_state))))
       - de_clock sample_daemon (ds_calls ?d)\<bar> \<le> 300" "\<bar>de_clock sample_daemon (ds_calls ?d)\<bar> < 2 ^ 62"
    by (simp_all add: awake_state_def calm_world_def calm_def sample_daemon_def)
  have new: "[1] @ lit ''::'' @ de_nonce sample_daemon (Suc (ds_calls ?d)) \<notin> fst ` set (as_nonces awake_state)"
    by (simp add: awake_state_def)
  have req: "dq_method (leasing_request wire) = lit ''POST''" "dq_path (leasing_request wire) = lit ''/daemon/jobs/lease''"
    "dq_headers (leasing_request wire) = received wire"
    by (simp_all add: leasing_request_def)
  show ?thesis
    using signed_request_is_admitted_once [OF w req plain_k plain_nonce plain_empty_hash env(2,3) awake env(1,4,5) new,
      of "\<lambda>who _. ret (di_node_id who)"] w
    by (auto simp: identity_of_def ret_def)
qed

end
