(* ===== verification/Daemon_Session.thy ===== *)
theory Daemon_Session
  imports Daemon_Client
begin

text \<open>
  The daemon and the control plane together: the routes of a node (crates/mizan-api/src/lib.rs,
  \<open>daemon_router\<close>) as the transport of the daemon, and what one exchange over it comes to. HTTP and
  JSON carry the values between the two as they are; the clocks of both sides go on ticking.
\<close>

section \<open>The control plane as a transport\<close>

definition serve :: "auth_env \<Rightarrow> str \<Rightarrow> wire \<Rightarrow> (daemon_identity \<Rightarrow> 'a handler) \<Rightarrow> 'a app_handler" where
  "serve a path wire h = daemon_node_auth a
     \<lparr>dq_method = lit ''POST'', dq_path = path, dq_headers = received wire, dq_body = ()\<rparr> (\<lambda>who _. on_world (h who))"

text \<open>An error envelope is no value of the type the daemon decodes.\<close>

definition reply_of :: "('a \<Rightarrow> 'b) \<Rightarrow> ((status \<times> error_envelope) + 'a) \<times> 's \<Rightarrow> (str + status \<times> (str + 'b)) \<times> 's" where
  "reply_of f p = (case p of
      (Inl e, s) \<Rightarrow> (Inr (fst e, Inl (lit ''error decoding response body'')), s)
    | (Inr x, s) \<Rightarrow> (Inr (200, Inr (f x)), s))"

definition seen_of :: "node_seen_response \<Rightarrow> seen_reply" where
  "seen_of r = \<lparr>sr_node_id = ns_node_id r, sr_status = ns_status r, sr_last_seen_at = ns_last_seen_at r\<rparr>"

definition lease_of :: "job_lease \<Rightarrow> client_lease" where
  "lease_of l = \<lparr>li_id = jl_id l, li_request_id = jl_request_id l, li_model = jl_model l, li_request = jl_request l\<rparr>"

definition control_plane :: "auth_env \<Rightarrow> json_codec \<Rightarrow> chat_codec \<Rightarrow> (status \<Rightarrow> str) \<Rightarrow> app_state transport" where
  "control_plane a k c status_text =
     \<lparr>tp_register = (\<lambda>wire request s. reply_of seen_of
        (serve a (lit ''/daemon/register'') wire (\<lambda>who. register_daemon_node k who request) s)),
      tp_heartbeat = (\<lambda>wire request s. reply_of seen_of
        (serve a (lit ''/daemon/heartbeat'') wire (\<lambda>who. daemon_heartbeat k who request) s)),
      tp_lease = (\<lambda>wire s. reply_of (map_option lease_of)
        (serve a (lit ''/daemon/jobs/lease'') wire (\<lambda>who. lease_next_dispatch_job c (di_node_id who)) s)),
      tp_complete = (\<lambda>job_id wire completion s.
        case reply_of (\<lambda>_. ()) (serve a (complete_path job_id) wire
          (\<lambda>who. complete_dispatch_job c (di_node_id who) job_id completion) s) of (r, s') \<Rightarrow> (map_sum id fst r, s')),
      tp_status_text = status_text\<rparr>"

section \<open>One job of a node\<close>

text \<open>What an exchange about a job leaves as it was.\<close>

definition books_kept :: "world \<Rightarrow> world \<Rightarrow> bool" where
  "books_kept w w' \<longleftrightarrow> env w' = env w \<and> usage_events (db w') = usage_events (db w)
     \<and> wallets (db w') = wallets (db w) \<and> credit_ledger (db w') = credit_ledger (db w) \<and> tick w \<le> tick w'"

lemma books_kept_trans: "books_kept a b \<Longrightarrow> books_kept b c \<Longrightarrow> books_kept a c"
  by (simp add: books_kept_def)

lemma books_kept_tick: "books_kept w w' \<Longrightarrow> books_kept w (tick_world w')"
  by (simp add: books_kept_def tick_world_def)

lemma books_kept_env: "books_kept w w' \<Longrightarrow> env w' = env w"
  by (simp add: books_kept_def)

definition only_job :: "uuid \<Rightarrow> dispatch_job_row \<Rightarrow> dispatch_job_row list \<Rightarrow> bool" where
  "only_job node_id j js \<longleftrightarrow> distinct (map dj_id js) \<and> j \<in> set js \<and> dj_node_id j = node_id \<and> dj_status j = STATUS_ACCEPTED
     \<and> (\<forall>r \<in> set js. dj_node_id r = node_id \<and> dj_status r = STATUS_ACCEPTED \<longrightarrow> r = j)"

definition leased_to :: "uuid \<Rightarrow> uuid \<Rightarrow> dispatch_job_row list \<Rightarrow> bool" where
  "leased_to node_id i js \<longleftrightarrow> distinct (map dj_id js)
     \<and> (\<exists>r \<in> set js. dj_id r = i \<and> dj_node_id r = node_id \<and> dj_status r = STATUS_LEASED)"

lemma filter_one:
  assumes "distinct xs" "x \<in> set xs" "P x" "\<And>y. y \<in> set xs \<Longrightarrow> P y \<Longrightarrow> y = x"
  shows "filter P xs = [x]"
proof -
  obtain us vs where xs: "xs = us @ x # vs" using split_list [OF assms(2)] by blast
  have other: "\<not> P y" if "y \<in> set us \<union> set vs" for y
  proof
    assume "P y"
    then have "y = x" using assms(4) [of y] xs that by simp
    then show False using assms(1) xs that by simp
  qed
  have "filter P us = []" "filter P vs = []" using other by (simp_all add: filter_empty_conv)
  then show ?thesis using assms(3) xs by simp
qed

lemma one_id: "distinct (map f xs) \<Longrightarrow> x \<in> set xs \<Longrightarrow> y \<in> set xs \<Longrightarrow> f x = f y \<Longrightarrow> x = y"
  by (metis distinct_map inj_onD)

lemma only_job_expired:
  assumes "only_job node_id j js" "str_le now (dj_deadline_at j)"
  shows "only_job node_id j (map (\<lambda>r. if job_open r \<and> str_less (dj_deadline_at r) now then time_out now r else r) js)"
proof -
  have "map dj_id (map (\<lambda>r. if job_open r \<and> str_less (dj_deadline_at r) now then time_out now r else r) js) = map dj_id js"
    by (simp add: time_out_def comp_def if_distrib cong: if_cong)
  moreover have "\<not> str_less (dj_deadline_at j) now" using assms(2) by (simp add: str_less_iff)
  ultimately show ?thesis
    using assms(1) unfolding only_job_def by (force simp: image_iff simp del: map_map)
qed

lemma only_job_leased:
  assumes "only_job node_id j js"
  shows "leased_to node_id (dj_id j) (map (\<lambda>r. if dj_id r = dj_id j \<and> dj_node_id r = node_id
      \<and> dj_status r = STATUS_ACCEPTED
    then r\<lparr>dj_status := STATUS_LEASED, dj_leased_at := Some now, dj_updated_at := now\<rparr> else r) js)" (is "leased_to _ _ ?js")
proof -
  have "map dj_id ?js = map dj_id js" by (simp add: comp_def if_distrib cong: if_cong)
  then have "distinct (map dj_id ?js)" using assms by (simp add: only_job_def del: map_map)
  moreover have "j\<lparr>dj_status := STATUS_LEASED, dj_leased_at := Some now, dj_updated_at := now\<rparr> \<in> set ?js"
    using assms by (auto simp: only_job_def image_iff intro!: bexI [of _ j])
  ultimately show ?thesis
    using assms unfolding leased_to_def only_job_def
    by (intro conjI bexI [of _ "j\<lparr>dj_status := STATUS_LEASED, dj_leased_at := Some now, dj_updated_at := now\<rparr>"]) simp_all
qed

lemma lease_only_job:
  assumes "quiet w" and job: "only_job node_id j (dispatch_jobs (db w))"
    and live: "str_le (show_nat (clock (env w) (tick w))) (dj_deadline_at j)"
      "str_le (show_nat (clock (env w) (Suc (Suc (tick w))))) (dj_deadline_at j)"
    and ids: "parse_uuid (env w) (dj_id j) = Inr (dj_id j)" "parse_uuid (env w) (dj_request_id j) = Inr (dj_request_id j)"
    and request: "decode_request c (dj_request_json j) = Inr request"
  shows "\<exists>w'. lease_next_job_for_node c node_id w = (Inr (Some \<lparr>jl_id = dj_id j, jl_request_id = dj_request_id j,
       jl_model = dj_model j, jl_request = request, jl_deadline_at = dj_deadline_at j\<rparr>), w')
     \<and> books_kept w w' \<and> tick w' = tick w + 5 \<and> daemon_nodes (db w') = daemon_nodes (db w)
     \<and> leased_to node_id (dj_id j) (dispatch_jobs (db w'))"
proof -
  let ?now = "show_nat (clock (env w) (tick w))" and ?now2 = "show_nat (clock (env w) (Suc (Suc (tick w))))"
  let ?js = "map (\<lambda>r. if job_open r \<and> str_less (dj_deadline_at r) ?now then time_out ?now r else r) (dispatch_jobs (db w))"
  have one: "only_job node_id j ?js" by (rule only_job_expired [OF job live(1)])
  have d: "distinct ?js" using one by (simp add: only_job_def distinct_map del: map_map)
  have q: "filter (\<lambda>r. dj_node_id r = node_id \<and> dj_status r = STATUS_ACCEPTED \<and> str_le ?now2 (dj_deadline_at r)) ?js = [j]"
    by (rule filter_one [OF d]) (use one live(2) in \<open>auto simp: only_job_def\<close>)
  have u: "filter (\<lambda>r. dj_id r = dj_id j \<and> dj_node_id r = node_id \<and> dj_status r = STATUS_ACCEPTED) ?js = [j]"
    by (rule filter_one [OF d]) (use one in \<open>auto simp: only_job_def\<close>)
  show ?thesis
    using assms(1) q u ids request only_job_leased [OF one]
    by (simp add: quiet_def lease_next_job_for_node_def mark_expired_jobs_timed_out_def run_simps expire_rows_def
        update_jobs_eq leasable_jobs_def lease_rows_def tick_world_def books_kept_def del: map_map)
qed


definition job_answer :: "app_error + chat_response \<Rightarrow> dispatch_job_result" where
  "job_answer r = (case r of
      Inr response \<Rightarrow> Succeeded response
    | Inl e \<Rightarrow> Failed (Some (lit ''provider_error''))
        (if trim (redact_for_logs (error_to_string e)) = [] then lit ''daemon job failed''
         else trim (redact_for_logs (error_to_string e))))"

lemma leased_update:
  assumes "leased_to node_id i js" and f: "\<And>r. dj_id (f r) = dj_id r"
  shows "\<exists>row. filter (\<lambda>j. dj_id j = i \<and> dj_node_id j = node_id \<and> dj_status j = STATUS_LEASED) js = [row]
    \<and> find (\<lambda>j. dj_id j = i) (map (\<lambda>j. if dj_id j = i \<and> dj_node_id j = node_id \<and> dj_status j = STATUS_LEASED
        then f j else j) js) = Some (f row)"
proof -
  obtain row where d: "distinct (map dj_id js)"
    and row: "row \<in> set js" "dj_id row = i" "dj_node_id row = node_id" "dj_status row = STATUS_LEASED"
    using assms(1) by (auto simp: leased_to_def)
  have same: "r = row" if "r \<in> set js" "dj_id r = i" for r
    using one_id [OF d that(1) row(1)] that(2) row(2) by simp
  have "filter (\<lambda>j. dj_id j = i \<and> dj_node_id j = node_id \<and> dj_status j = STATUS_LEASED) js = [row]"
    by (rule filter_one) (use d row in \<open>simp_all add: distinct_map\<close>, use same in blast)
  moreover have "find (\<lambda>j. dj_id j = i) (map (\<lambda>j. if dj_id j = i \<and> dj_node_id j = node_id \<and> dj_status j = STATUS_LEASED
      then f j else j) js) = Some (f row)" (is "find _ ?js = _")
  proof (rule find_unique)
    show "f row \<in> set ?js" using row by (auto simp: image_iff intro!: bexI [of _ row])
    show "dj_id (f row) = i" using f row(2) by simp
    fix y
    assume y: "y \<in> set ?js" "dj_id y = i"
    obtain r where r: "r \<in> set js"
      "y = (if dj_id r = i \<and> dj_node_id r = node_id \<and> dj_status r = STATUS_LEASED then f r else r)"
      using y(1) unfolding set_map by (rule imageE)
    have "dj_id r = i" using y(2) f [of r] unfolding r(2) by (metis (full_types))
    then have "r = row" using same r(1) by blast
    then show "y = f row" unfolding r(2) using row by simp
  qed
  ultimately show ?thesis by blast
qed

lemma complete_leased:
  assumes "quiet w" and leased: "leased_to node_id i (dispatch_jobs (db w))"
    and codec: "\<And>x. r = Inr x \<Longrightarrow> \<exists>raw. encode_response c x = Inr raw \<and> decode_response c raw = Inr x"
  shows "\<exists>w' st j. complete_job c node_id i (completion_of r) w = (Inr st, w') \<and> books_kept w w'
     \<and> find (\<lambda>j. dj_id j = i) (dispatch_jobs (db w')) = Some j \<and> terminal_result c j = Inr (Some (job_answer r))"
proof -
  have st: "trim (lit ''succeeded'') = STATUS_SUCCEEDED" "trim (lit ''failed'') = STATUS_FAILED"
    by (simp_all add: trim_clean status_defs lit_def is_whitespace_def)
  let ?now = "show_nat (clock (env w) (tick w))"
  show ?thesis
  proof (cases r)
    case (Inr x)
    obtain raw where raw: "encode_response c x = Inr raw" "decode_response c raw = Inr x" using codec [OF Inr] by blast
    let ?f = "\<lambda>j. j\<lparr>dj_status := STATUS_SUCCEEDED, dj_response_json := Some raw, dj_error_code := None,
        dj_error_message := None, dj_completed_at := Some ?now, dj_updated_at := ?now\<rparr>"
    obtain row where row: "filter (\<lambda>j. dj_id j = i \<and> dj_node_id j = node_id \<and> dj_status j = STATUS_LEASED)
        (dispatch_jobs (db w)) = [row]"
      "find (\<lambda>j. dj_id j = i) (map (\<lambda>j. if dj_id j = i \<and> dj_node_id j = node_id \<and> dj_status j = STATUS_LEASED
        then ?f j else j) (dispatch_jobs (db w))) = Some (?f row)"
      using leased_update [OF leased, of ?f] by auto
    have "terminal_result c (?f row) = Inr (Some (job_answer r))"
      by (simp add: Inr terminal_result_def job_answer_def raw)
    then show ?thesis
      using assms(1) row st raw(1)
      by (simp add: Inr completion_of_def complete_job_def run_simps quiet_def complete_rows_def update_jobs_eq
          tick_world_def books_kept_def exI [of _ "?f row"])
  next
    case (Inl e)
    let ?m = "trim (redact_for_logs (error_to_string e))"
    let ?f = "\<lambda>j. j\<lparr>dj_status := STATUS_FAILED, dj_response_json := None, dj_error_code := Some (lit ''provider_error''),
        dj_error_message := if ?m = [] then None else Some ?m, dj_completed_at := Some ?now, dj_updated_at := ?now\<rparr>"
    obtain row where row: "filter (\<lambda>j. dj_id j = i \<and> dj_node_id j = node_id \<and> dj_status j = STATUS_LEASED)
        (dispatch_jobs (db w)) = [row]"
      "find (\<lambda>j. dj_id j = i) (map (\<lambda>j. if dj_id j = i \<and> dj_node_id j = node_id \<and> dj_status j = STATUS_LEASED
        then ?f j else j) (dispatch_jobs (db w))) = Some (?f row)"
      using leased_update [OF leased, of ?f] by auto
    have "terminal_result c (?f row) = Inr (Some (job_answer r))"
      by (simp add: Inl terminal_result_def job_answer_def)
    then show ?thesis
      using assms(1) row st
      by (simp add: Inl completion_of_def complete_job_def run_simps quiet_def complete_rows_def update_jobs_eq
          tick_world_def books_kept_def exI [of _ "?f row"])
  qed
qed

section \<open>One exchange\<close>

text \<open>
  A daemon and a control plane that know each other: the token belongs to a live node, the database
  answers, both sides hash alike, the daemon's nonces are fresh and the clocks of the
  two are at most 300 seconds apart during the next \<open>span\<close> readings.
\<close>

definition in_session ::
  "nat \<Rightarrow> daemon_env \<Rightarrow> auth_env \<Rightarrow> str \<Rightarrow> daemon_node_row \<Rightarrow> uuid \<Rightarrow> app_state daemon_state \<Rightarrow> bool" where
  "in_session span D a token row node_id d \<longleftrightarrow>
     plain token \<and> sha256 (de_auth D) = sha256 a \<and> (\<forall>m. sha256 a m \<noteq> [])
     \<and> (\<forall>n. plain (de_nonce D n)) \<and> inj (de_nonce D)
     \<and> (\<forall>n \<ge> ds_calls d. node_id @ lit ''::'' @ de_nonce D n \<notin> fst ` set (as_nonces (ds_plane d)))
     \<and> quiet (as_world (ds_plane d)) \<and> live_node a token (as_world (ds_plane d)) row node_id
     \<and> (\<forall>n \<le> span. \<forall>m \<le> span. \<bar>int (clock (env (as_world (ds_plane d))) (tick (as_world (ds_plane d)) + n))
            - de_clock D (ds_calls d + m)\<bar> \<le> 300)
     \<and> (\<forall>m. \<bar>de_clock D m\<bar> < 2 ^ 62)"

lemma serve_signed:
  assumes session: "in_session span D a token row node_id \<lparr>ds_calls = i, ds_plane = s\<rparr>" "1 \<le> span"
    and wire: "signed_post D cfg token path b \<lparr>ds_calls = i, ds_plane = s\<rparr> = (Inr wire, d')" and b: "plain b"
  shows "\<exists>cache. serve a path wire h s = on_world (h (identity_of row node_id))
       \<lparr>as_world = tick_world (tick_world (as_world s)), as_nonces = cache\<rparr>
     \<and> fst ` set cache \<subseteq> insert (node_id @ lit ''::'' @ de_nonce D (Suc i)) (fst ` set (as_nonces s))"
proof -
  let ?req = "\<lparr>dq_method = lit ''POST'', dq_path = path, dq_headers = received wire, dq_body = ()\<rparr>"
  have s: "plain token" "sha256 (de_auth D) = sha256 a" "\<forall>m. sha256 a m \<noteq> []" "plain (de_nonce D (Suc i))"
    "live_node a token (as_world s) row node_id" "fault (env (as_world s)) (tick (as_world s)) = None"
    "node_id @ lit ''::'' @ de_nonce D (Suc i) \<notin> fst ` set (as_nonces s)" "\<bar>de_clock D i\<bar> < 2 ^ 62"
    "n \<le> span \<Longrightarrow> m \<le> span \<Longrightarrow> \<bar>int (clock (env (as_world s)) (tick (as_world s) + n)) - de_clock D (i + m)\<bar> \<le> 300" for n m
    using session(1) by (auto simp: in_session_def quiet_def)
  have now: "\<bar>int (clock (env (as_world s)) (Suc (tick (as_world s)))) - de_clock D i\<bar> \<le> 300"
    using s(9) [of 1 0] session(2) by simp
  show ?thesis
    using signed_request_admitted [OF wire _ _ _ s(1) _ b s(2,3,5,6) _ _ _, of ?req "\<lambda>who _. on_world (h who)"] s(4,7,8) now
    by (auto simp: serve_def)
qed

lemma call_local_provider_calls:
  "\<exists>n. n \<in> {0, 2} \<and> call_local_provider D cfg job \<lparr>ds_calls = i, ds_plane = p\<rparr>
     = (fst (call_local_provider D cfg job \<lparr>ds_calls = i, ds_plane = q\<rparr>), \<lparr>ds_calls = i + n, ds_plane = p\<rparr>)"
  by (cases "de_parse_uuid D (li_request_id job)")
    (auto simp: call_local_provider_def bind_op_def of_result_def ask_def throw_def numeral_2_eq_2)

lemma live_node_same: "live_node a token w row node_id \<Longrightarrow> env w' = env w \<Longrightarrow> daemon_nodes (db w') = daemon_nodes (db w)
    \<Longrightarrow> live_node a token w' row node_id"
  by (simp add: live_node_def)

lemma submit_run:
  assumes "de_completion_json D completion = Inr body"
    and "signed_post D cfg token (complete_path i) (hash_bytes D body) d = (Inr wire, d')"
    and "serve a (complete_path i) wire (\<lambda>who. complete_dispatch_job c (di_node_id who) i completion) (ds_plane d') = (Inr x, p)"
  shows "submit_completion D (control_plane a k c status_text) token cfg i completion d = (Inr (), d'\<lparr>ds_plane := p\<rparr>)"
  using assms by (simp add: submit_completion_def bind_op_def of_result_def hash_body_def on_plane_def control_plane_def
      reply_of_def accepted_status_def is_success_status_def ret_def)

lemma in_session_later:
  assumes "in_session span D a token row node_id \<lparr>ds_calls = i, ds_plane = \<lparr>as_world = w, as_nonces = nonces\<rparr>\<rparr>"
    and "env w' = env w" "daemon_nodes (db w') = daemon_nodes (db w)" "tick w' = tick w + k" "span' + k \<le> span" "span' + l \<le> span"
    and "\<And>n. i + l \<le> n \<Longrightarrow> node_id @ lit ''::'' @ de_nonce D n \<notin> fst ` set nonces'"
  shows "in_session span' D a token row node_id \<lparr>ds_calls = i + l, ds_plane = \<lparr>as_world = w', as_nonces = nonces'\<rparr>\<rparr>"
  using assms(1,5-7) live_node_same [of a token w row node_id w'] quiet_same [of w w']
  by (auto simp: in_session_def assms(2-4) add.assoc)

lemma lease_exchange:
  assumes session: "in_session 8 D a token row node_id \<lparr>ds_calls = i, ds_plane = \<lparr>as_world = w, as_nonces = nonces\<rparr>\<rparr>"
    and job: "only_job node_id j (dispatch_jobs (db w))"
    and live: "\<forall>n \<le> 4. str_le (show_nat (clock (env w) (tick w + n))) (dj_deadline_at j)"
    and ids: "parse_uuid (env w) (dj_id j) = Inr (dj_id j)" "parse_uuid (env w) (dj_request_id j) = Inr (dj_request_id j)"
    and request: "decode_request c (dj_request_json j) = Inr request"
    and wire: "signed_post D cfg token (lit ''/daemon/jobs/lease'') EMPTY_BODY_HASH
      \<lparr>ds_calls = i, ds_plane = \<lparr>as_world = w, as_nonces = nonces\<rparr>\<rparr> = (Inr wire, d')"
  shows "\<exists>w2 cache. serve a (lit ''/daemon/jobs/lease'') wire (\<lambda>who. lease_next_dispatch_job c (di_node_id who))
      \<lparr>as_world = w, as_nonces = nonces\<rparr> = (Inr (Some \<lparr>jl_id = dj_id j, jl_request_id = dj_request_id j,
        jl_model = dj_model j, jl_request = request, jl_deadline_at = dj_deadline_at j\<rparr>), \<lparr>as_world = w2, as_nonces = cache\<rparr>)
    \<and> books_kept w w2 \<and> leased_to node_id (dj_id j) (dispatch_jobs (db w2))
    \<and> (\<forall>m \<in> {0, 2}. in_session 1 D a token row node_id
         \<lparr>ds_calls = i + 2 + m, ds_plane = \<lparr>as_world = w2, as_nonces = cache\<rparr>\<rparr>)"
proof -
  have quiet: "quiet w" and nonces: "inj (de_nonce D)" "\<And>n. i \<le> n \<Longrightarrow> node_id @ lit ''::'' @ de_nonce D n \<notin> fst ` set nonces"
    using session by (auto simp: in_session_def)
  obtain cache where lease1: "serve a (lit ''/daemon/jobs/lease'') wire (\<lambda>who. lease_next_dispatch_job c (di_node_id who))
       \<lparr>as_world = w, as_nonces = nonces\<rparr>
      = on_world (lease_next_dispatch_job c node_id) \<lparr>as_world = tick_world (tick_world w), as_nonces = cache\<rparr>"
    and cache: "fst ` set cache \<subseteq> insert (node_id @ lit ''::'' @ de_nonce D (Suc i)) (fst ` set nonces)"
    using serve_signed [OF session _ wire plain_empty_hash, of "\<lambda>who. lease_next_dispatch_job c (di_node_id who)"]
    by (auto simp: identity_of_def)
  have "str_le (show_nat (clock (env w) (Suc (Suc (tick w))))) (dj_deadline_at j)"
      "str_le (show_nat (clock (env w) (Suc (Suc (Suc (Suc (tick w))))))) (dj_deadline_at j)"
    using live [rule_format, of 2] live [rule_format, of 4] by (simp_all add: eval_nat_numeral)
  then obtain w2 where w2: "lease_next_job_for_node c node_id (tick_world (tick_world w)) = (Inr (Some \<lparr>jl_id = dj_id j,
       jl_request_id = dj_request_id j, jl_model = dj_model j, jl_request = request, jl_deadline_at = dj_deadline_at j\<rparr>), w2)"
      "books_kept (tick_world (tick_world w)) w2" "tick w2 = tick w + 7" "daemon_nodes (db w2) = daemon_nodes (db w)"
      "leased_to node_id (dj_id j) (dispatch_jobs (db w2))"
    using lease_only_job [of "tick_world (tick_world w)" node_id j c request] quiet job ids request
    by (auto simp: tick_world_def quiet_def)
  have kept: "env w2 = env w" and books: "books_kept w w2"
    using w2(2) books_kept_trans [OF _ w2(2), of w] by (simp_all add: books_kept_def tick_world_def)
  have "node_id @ lit ''::'' @ de_nonce D n \<notin> fst ` set cache" if "i + 2 \<le> n" for n
    using cache nonces(2) [of n] injD [OF nonces(1), of n "Suc i"] that by auto
  then have later: "in_session 1 D a token row node_id \<lparr>ds_calls = i + 2 + m, ds_plane = \<lparr>as_world = w2, as_nonces = cache\<rparr>\<rparr>"
    if "m \<le> 2" for m
    using in_session_later [OF session kept w2(4,3), of 1 "2 + m" cache] that by (auto simp: add.assoc)
  have "\<forall>m \<in> {0, 2}. in_session 1 D a token row node_id
      \<lparr>ds_calls = i + 2 + m, ds_plane = \<lparr>as_world = w2, as_nonces = cache\<rparr>\<rparr>"
    by (intro ballI later) auto
  then show ?thesis
    unfolding lease1 using w2 books by (simp add: on_world_def lease_next_dispatch_job_def err_op_def)
qed

lemma completion_exchange:
  assumes session: "in_session 1 D a token row node_id d" and leased: "leased_to node_id i (dispatch_jobs (db (as_world (ds_plane d))))"
    and codec: "\<And>x. r = Inr x \<Longrightarrow> \<exists>raw. encode_response c x = Inr raw \<and> decode_response c raw = Inr x"
    and body: "de_completion_json D (completion_of r) = Inr sent"
  shows "\<exists>d' row'. submit_completion D (control_plane a k c status_text) token cfg i (completion_of r) d = (Inr (), d')
    \<and> books_kept (as_world (ds_plane d)) (as_world (ds_plane d'))
    \<and> find (\<lambda>j. dj_id j = i) (dispatch_jobs (db (as_world (ds_plane d')))) = Some row'
    \<and> terminal_result c row' = Inr (Some (job_answer r))"
proof -
  obtain n s where d: "d = \<lparr>ds_calls = n, ds_plane = s\<rparr>" by (metis daemon_state.cases old.unit.exhaust)
  obtain wire where wire: "signed_post D cfg token (complete_path i) (hash_bytes D sent) d
      = (Inr wire, d\<lparr>ds_calls := n + 2\<rparr>)" by (simp add: signed_post_run d)
  have facts: "quiet (as_world s)" "plain (hash_bytes D sent)"
    using session by (auto simp: in_session_def hash_bytes_def plain_hex d)
  obtain cache where done1: "serve a (complete_path i) wire
       (\<lambda>who. complete_dispatch_job c (di_node_id who) i (completion_of r)) s
      = on_world (complete_dispatch_job c node_id i (completion_of r))
          \<lparr>as_world = tick_world (tick_world (as_world s)), as_nonces = cache\<rparr>"
    using serve_signed [OF session [unfolded d] order.refl wire [unfolded d] facts(2),
        of "\<lambda>who. complete_dispatch_job c (di_node_id who) i (completion_of r)"] by (auto simp: identity_of_def)
  obtain w st row' where w: "complete_job c node_id i (completion_of r) (tick_world (tick_world (as_world s))) = (Inr st, w)"
      "books_kept (tick_world (tick_world (as_world s))) w" "find (\<lambda>j. dj_id j = i) (dispatch_jobs (db w)) = Some row'"
      "terminal_result c row' = Inr (Some (job_answer r))"
    using complete_leased [of "tick_world (tick_world (as_world s))" node_id i r c] facts(1) leased codec
    by (auto simp: tick_world_def quiet_def d)
  have "serve a (complete_path i) wire (\<lambda>who. complete_dispatch_job c (di_node_id who) i (completion_of r)) s
      = (Inr \<lparr>js_id = i, js_status = st\<rparr>, \<lparr>as_world = w, as_nonces = cache\<rparr>)"
    unfolding done1 by (simp add: on_world_def complete_dispatch_job_def bind_op_def err_op_def w(1) ret_def)
  moreover have "books_kept (as_world s) w" using w(2) by (simp add: books_kept_def tick_world_def)
  ultimately show ?thesis
    using submit_run [OF body wire, of a c] w by (simp add: d)
qed

section \<open>The contract of the job board\<close>

text \<open>
  What the daemon relies on, whoever is at the other end: a job that is ready is handed out to the next signed
  request, and a result that can be reported is taken from the daemon that holds the job.
  From this alone it follows that one turn of the daemon answers the job.
\<close>

locale job_board =
  fixes D :: daemon_env and T :: "'s transport" and token :: str and cfg :: daemon_config
    and ready :: "'s daemon_state \<Rightarrow> client_lease \<Rightarrow> bool"
    and holding :: "'s daemon_state \<Rightarrow> client_lease \<Rightarrow> bool"
    and reportable :: "app_error + chat_response \<Rightarrow> bool"
    and answered :: "'s \<Rightarrow> client_lease \<Rightarrow> dispatch_job_result \<Rightarrow> bool"
  assumes handed_out: "ready d job \<Longrightarrow>
      signed_post D cfg token (lit ''/daemon/jobs/lease'') EMPTY_BODY_HASH d = (Inr wire, d1) \<Longrightarrow>
      \<exists>p. tp_lease T wire (ds_plane d1) = (Inr (200, Inr (Some job)), p)
        \<and> (\<forall>n \<in> {0, 2}. holding \<lparr>ds_calls = ds_calls d + 2 + n, ds_plane = p\<rparr> job)"
    and taken_back: "holding d job \<Longrightarrow> reportable r \<Longrightarrow>
      \<exists>d'. submit_completion D T token cfg (li_id job) (completion_of r) d = (Inr (), d')
        \<and> answered (ds_plane d') job (job_answer r)"
begin

lemma one_turn:
  assumes ready: "ready d job" and reportable: "reportable r"
    and call: "r = fst (call_local_provider D cfg job \<lparr>ds_calls = ds_calls d + 2, ds_plane = ()\<rparr>)"
  shows "\<exists>d'. lease_and_run_one_job D T token cfg d = (Inr (), d') \<and> answered (ds_plane d') job (job_answer r)"
proof -
  obtain wire where wire: "signed_post D cfg token (lit ''/daemon/jobs/lease'') EMPTY_BODY_HASH d
      = (Inr wire, d\<lparr>ds_calls := ds_calls d + 2\<rparr>)" by (simp add: signed_post_run)
  obtain p where p: "tp_lease T wire (ds_plane d) = (Inr (200, Inr (Some job)), p)"
      "\<forall>n \<in> {0, 2}. holding \<lparr>ds_calls = ds_calls d + 2 + n, ds_plane = p\<rparr> job"
    using handed_out [OF ready wire] by auto
  obtain n where n: "n \<in> {0, 2 :: nat}" and called: "call_local_provider D cfg job \<lparr>ds_calls = ds_calls d + 2, ds_plane = p\<rparr>
      = (r, \<lparr>ds_calls = ds_calls d + 2 + n, ds_plane = p\<rparr>)"
    using call_local_provider_calls [of D cfg job "ds_calls d + 2" p "()"] call by auto
  have state: "d\<lparr>ds_calls := m, ds_plane := p\<rparr> = \<lparr>ds_calls = m, ds_plane = p\<rparr>" for m by (cases d) simp
  have "lease_and_run_one_job D T token cfg d = submit_completion D T token cfg (li_id job) (completion_of r)
      \<lparr>ds_calls = ds_calls d + 2 + n, ds_plane = p\<rparr>"
    using wire p(1) called by (simp add: lease_and_run_one_job_def bind_op_def of_result_def on_plane_def
        accepted_status_def is_success_status_def ret_def try_op_def state)
  then show ?thesis using taken_back [OF bspec [OF p(2) n] reportable] by simp
qed

end

text \<open>The control plane keeps this contract towards a daemon in session with it.\<close>

definition board_ready ::
  "world \<Rightarrow> daemon_env \<Rightarrow> auth_env \<Rightarrow> chat_codec \<Rightarrow> str \<Rightarrow> daemon_node_row \<Rightarrow> uuid \<Rightarrow> app_state daemon_state \<Rightarrow> client_lease \<Rightarrow> bool"
  where
  "board_ready w0 D a c token row node_id d job \<longleftrightarrow> in_session 8 D a token row node_id d
     \<and> books_kept w0 (as_world (ds_plane d)) \<and> uuid_ok (env w0) (li_id job) \<and> uuid_ok (env w0) (li_request_id job)
     \<and> (\<exists>j. only_job node_id j (dispatch_jobs (db (as_world (ds_plane d)))) \<and> li_id job = dj_id j
          \<and> li_request_id job = dj_request_id j \<and> li_model job = dj_model j
          \<and> decode_request c (dj_request_json j) = Inr (li_request job)
          \<and> (\<forall>n \<le> 4. str_le (show_nat (clock (env w0) (tick (as_world (ds_plane d)) + n))) (dj_deadline_at j)))"

definition board_holding ::
  "world \<Rightarrow> daemon_env \<Rightarrow> auth_env \<Rightarrow> str \<Rightarrow> daemon_node_row \<Rightarrow> uuid \<Rightarrow> app_state daemon_state \<Rightarrow> client_lease \<Rightarrow> bool" where
  "board_holding w0 D a token row node_id d job \<longleftrightarrow> in_session 1 D a token row node_id d
     \<and> books_kept w0 (as_world (ds_plane d)) \<and> leased_to node_id (li_id job) (dispatch_jobs (db (as_world (ds_plane d))))"

definition board_reportable :: "daemon_env \<Rightarrow> chat_codec \<Rightarrow> app_error + chat_response \<Rightarrow> bool" where
  "board_reportable D c r \<longleftrightarrow> (\<exists>sent. de_completion_json D (completion_of r) = Inr sent)
     \<and> (\<forall>x. r = Inr x \<longrightarrow> (\<exists>raw. encode_response c x = Inr raw \<and> decode_response c raw = Inr x))"

definition board_answered :: "world \<Rightarrow> chat_codec \<Rightarrow> app_state \<Rightarrow> client_lease \<Rightarrow> dispatch_job_result \<Rightarrow> bool" where
  "board_answered w0 c p job x \<longleftrightarrow> books_kept w0 (as_world p)
     \<and> (\<exists>row. find (\<lambda>j. dj_id j = li_id job) (dispatch_jobs (db (as_world p))) = Some row
          \<and> terminal_result c row = Inr (Some x))"

lemma board_hands_out:
  assumes "board_ready w0 D a c token row node_id d job"
    and wire: "signed_post D cfg token (lit ''/daemon/jobs/lease'') EMPTY_BODY_HASH d = (Inr wire, d1)"
  shows "\<exists>p. tp_lease (control_plane a k c status_text) wire (ds_plane d1) = (Inr (200, Inr (Some job)), p)
    \<and> (\<forall>n \<in> {0, 2}. board_holding w0 D a token row node_id \<lparr>ds_calls = ds_calls d + 2 + n, ds_plane = p\<rparr> job)"
proof -
  obtain i w nonces where d: "d = \<lparr>ds_calls = i, ds_plane = \<lparr>as_world = w, as_nonces = nonces\<rparr>\<rparr>"
    by (metis daemon_state.cases app_state.cases old.unit.exhaust)
  obtain j where j: "only_job node_id j (dispatch_jobs (db w))" "li_id job = dj_id j" "li_request_id job = dj_request_id j"
      "li_model job = dj_model j" "decode_request c (dj_request_json j) = Inr (li_request job)"
      "\<forall>n \<le> 4. str_le (show_nat (clock (env w) (tick w + n))) (dj_deadline_at j)"
    and ready: "in_session 8 D a token row node_id \<lparr>ds_calls = i, ds_plane = \<lparr>as_world = w, as_nonces = nonces\<rparr>\<rparr>"
      "books_kept w0 w" "parse_uuid (env w) (dj_id j) = Inr (dj_id j)" "parse_uuid (env w) (dj_request_id j) = Inr (dj_request_id j)"
    using assms(1) books_kept_env [of w0 w] by (auto simp: board_ready_def uuid_ok_def d)
  have d1: "ds_plane d1 = \<lparr>as_world = w, as_nonces = nonces\<rparr>" using wire by (auto simp: signed_post_run d)
  have job: "lease_of \<lparr>jl_id = dj_id j, jl_request_id = dj_request_id j, jl_model = dj_model j,
      jl_request = li_request job, jl_deadline_at = dj_deadline_at j\<rparr> = job"
    using j(2-4) by (simp add: lease_of_def)
  show ?thesis
    using lease_exchange [OF ready(1) j(1,6) ready(3,4) j(5) wire [unfolded d]] books_kept_trans [OF ready(2)] j(2)
    by (auto simp: control_plane_def reply_of_def d1 job board_holding_def d)
qed

lemma board_takes_back:
  assumes "board_holding w0 D a token row node_id d job" "board_reportable D c r"
  shows "\<exists>d'. submit_completion D (control_plane a k c status_text) token cfg (li_id job) (completion_of r) d = (Inr (), d')
    \<and> board_answered w0 c (ds_plane d') job (job_answer r)"
proof -
  obtain sent where sent: "de_completion_json D (completion_of r) = Inr sent"
    and codec: "\<And>x. r = Inr x \<Longrightarrow> \<exists>raw. encode_response c x = Inr raw \<and> decode_response c raw = Inr x"
    using assms(2) unfolding board_reportable_def by blast
  show ?thesis
    using completion_exchange [of D a token row node_id d "li_id job" r c sent k status_text cfg] assms(1) sent codec books_kept_trans
    by (auto simp: board_holding_def board_answered_def)
qed

interpretation board: job_board D "control_plane a k c status_text" token cfg "board_ready w0 D a c token row node_id"
    "board_holding w0 D a token row node_id" "board_reportable D c" "board_answered w0 c"
  for D a k c status_text token cfg w0 row node_id
  by unfold_locales (rule board_hands_out, assumption+, rule board_takes_back)

section \<open>A request dispatched to a node\<close>

lemma same_digits: "10 ^ 9 \<le> a \<Longrightarrow> a \<le> b \<Longrightarrow> b < 10 ^ 10 \<Longrightarrow> str_le (show_nat a) (show_nat b)"
  using length_show_nat [of 9 a] length_show_nat [of 9 b] by (intro str_le_show_nat) simp_all

lemma fetch_found:
  "quiet w \<Longrightarrow> find (\<lambda>j. dj_id j = i) (dispatch_jobs (db w)) = Some row
    \<Longrightarrow> fetch_terminal_result c i w = (terminal_result c row, tick_world w)"
  by (simp add: fetch_terminal_result_def run_simps quiet_def tick_world_def)

definition deadline_of :: "dispatch_job_input \<Rightarrow> world \<Rightarrow> nat" where
  "deadline_of input w = clock (env w) (tick w + 2) + unat (max (ji_timeout_seconds input) 1)"

lemma create_run:
  assumes "quiet w" "encode_request c (ji_request input) = Inr raw" "deadline_of input w < 10 ^ 10"
    and "fresh (env w) (tick w) \<notin> dj_id ` set (dispatch_jobs (db w))"
  shows "\<exists>row w'. create_dispatch_job c input w = (Inr (fresh (env w) (tick w)), w')
     \<and> books_kept w w' \<and> tick w' = tick w + 4 \<and> daemon_nodes (db w') = daemon_nodes (db w)
     \<and> dispatch_jobs (db w') = dispatch_jobs (db w) @ [row] \<and> dj_id row = fresh (env w) (tick w)
     \<and> dj_request_id row = ji_request_id input \<and> dj_node_id row = ji_node_id input \<and> dj_model row = ji_model input
     \<and> dj_status row = STATUS_ACCEPTED \<and> dj_request_json row = raw \<and> dj_deadline_at row = show_nat (deadline_of input w)"
proof -
  have "show_int (i64_saturating_add (int (clock (env w) (tick w + 2))) (uint (max (ji_timeout_seconds input) 1)))
      = show_nat (deadline_of input w)"
  proof -
    obtain t where t: "unat (max (ji_timeout_seconds input) 1) = t" "uint (max (ji_timeout_seconds input) 1) = int t"
      by simp
    have sat: "i64_saturating_add (int n) (int t) = int (n + t)" if "n + t < 10 ^ 10" for n
      using that by (simp add: i64_saturating_add_def i64_max_def)
    show ?thesis
      using assms(3) sat [of "clock (env w) (tick w + 2)"] unfolding t deadline_of_def
      by (simp add: show_int_def del: of_nat_add)
  qed
  then show ?thesis
    using assms(1,2,4)
    by (simp add: create_dispatch_job_def run_simps quiet_def tick_world_def insert_job_def books_kept_def)
qed

text \<open>What the daemon's turn does to the world of the control plane.\<close>

definition node_turn :: "daemon_env \<Rightarrow> app_state transport \<Rightarrow> str \<Rightarrow> daemon_config \<Rightarrow> nat \<Rightarrow> nonce_cache \<Rightarrow> world \<Rightarrow> world" where
  "node_turn D T token cfg i nonces w = as_world (ds_plane (snd (lease_and_run_one_job D T token cfg
     \<lparr>ds_calls = i, ds_plane = \<lparr>as_world = w, as_nonces = nonces\<rparr>\<rparr>)))"

text \<open>The only job of a node that waits is a new one.\<close>

definition idle_node :: "uuid \<Rightarrow> uuid \<Rightarrow> dispatch_job_row list \<Rightarrow> bool" where
  "idle_node node_id i js \<longleftrightarrow> distinct (map dj_id js) \<and> i \<notin> dj_id ` set js
     \<and> (\<forall>r \<in> set js. \<not> (dj_node_id r = node_id \<and> dj_status r = STATUS_ACCEPTED))"

lemma idle_node_only_job:
  assumes "idle_node node_id i js" "dj_id row = i" "dj_node_id row = node_id" "dj_status row = STATUS_ACCEPTED"
  shows "only_job node_id row (js @ [row]) \<and> find (\<lambda>j. dj_id j = i) (js @ [row]) = Some row"
proof -
  have "find (\<lambda>j. dj_id j = i) js = None"
    using assms(1) by (auto simp: idle_node_def find_None_iff)
  then have "find (\<lambda>j. dj_id j = i) (js @ [row]) = Some row" using assms(2) by (simp add: find_append)
  moreover have "only_job node_id row (js @ [row])" using assms by (auto simp: idle_node_def only_job_def)
  ultimately show ?thesis by blast
qed

lemma dispatch_answered:
  assumes session: "in_session 13 D a token row node_id \<lparr>ds_calls = i, ds_plane = \<lparr>as_world = w, as_nonces = nonces\<rparr>\<rparr>"
    and id: "job_id = fresh (env w) (tick w)"
    and input: "ji_node_id input = node_id" "idle_node node_id job_id (dispatch_jobs (db w))"
      "uuid_ok (env w) job_id" "uuid_ok (env w) (ji_request_id input)"
    and codec: "codec_ok c" "encode_request c (ji_request input) = Inr raw"
    and time: "\<forall>n \<le> 9. 10 ^ 9 \<le> clock (env w) (tick w + n) \<and> clock (env w) (tick w + n) \<le> deadline_of input w"
      "deadline_of input w < 10 ^ 10" "elapsed 0 < unat (max (ji_timeout_seconds input) 1) * 1000"
    and node: "others 0 = node_turn D (control_plane a k c status_text) token cfg i nonces"
    and call: "r = fst (call_local_provider D cfg \<lparr>li_id = job_id, li_request_id = ji_request_id input,
      li_model = ji_model input, li_request = ji_request input\<rparr> \<lparr>ds_calls = i + 2, ds_plane = ()\<rparr>)"
      "\<forall>x. r = Inr x \<longrightarrow> isl (encode_response c x) = False" "isl (de_completion_json D (completion_of r)) = False"
  shows "\<exists>w'. dispatch_to_daemon_node c others elapsed input w = Some (Inr (job_answer r), w') \<and> books_kept w w'"
proof -
  have quiet: "quiet w" using session by (simp add: in_session_def)
  obtain job w1 where new: "create_dispatch_job c input w = (Inr job_id, w1)" "books_kept w w1" "tick w1 = tick w + 4"
      "daemon_nodes (db w1) = daemon_nodes (db w)" "dispatch_jobs (db w1) = dispatch_jobs (db w) @ [job]"
      "dj_id job = job_id" "dj_request_id job = ji_request_id input" "dj_node_id job = node_id" "dj_model job = ji_model input"
      "dj_status job = STATUS_ACCEPTED" "dj_request_json job = raw" "dj_deadline_at job = show_nat (deadline_of input w)"
    using create_run [OF quiet codec(2) time(2)] input(1,2) unfolding id idle_node_def by metis
  have env1: "env w1 = env w" using new(2) by (rule books_kept_env)
  note one = idle_node_only_job [OF input(2) new(6,8,10), folded new(5)]
  have poll: "fetch_terminal_result c job_id w1 = (Inr None, tick_world w1)"
    using fetch_found [OF quiet_same [OF quiet env1] conjunct2 [OF one]] by (simp add: terminal_result_def new(10))
  let ?d = "\<lparr>ds_calls = i, ds_plane = \<lparr>as_world = tick_world w1, as_nonces = nonces\<rparr>\<rparr>"
  have "\<And>n. i + 0 \<le> n \<Longrightarrow> node_id @ lit ''::'' @ de_nonce D n \<notin> fst ` set nonces"
    using session by (simp add: in_session_def)
  then have session2: "in_session 8 D a token row node_id ?d"
    using in_session_later [OF session, of "tick_world w1" 5 8 0 nonces] by (simp add: tick_world_def new(3,4) env1)
  let ?job = "\<lparr>li_id = job_id, li_request_id = ji_request_id input, li_model = ji_model input, li_request = ji_request input\<rparr>"
  have "\<forall>n\<le>4. str_le (show_nat (clock (env w) (tick (tick_world w1) + n))) (dj_deadline_at job)"
    using time(1) [rule_format, of "5 + n" for n] same_digits [OF _ _ time(2)]
    by (auto simp: tick_world_def new(3,12) algebra_simps)
  then have ready: "board_ready w D a c token row node_id ?d ?job"
    using session2 one codec input by (auto simp: board_ready_def new(1,3-) env1 books_kept_tick [OF new(2)] codec_ok_def intro!: exI [of _ job])
  have "\<exists>raw. encode_response c x = Inr raw \<and> decode_response c raw = Inr x" if "r = Inr x" for x
    using call(2) that codec(1) by (cases "encode_response c x") (auto simp: codec_ok_def)
  then have reportable: "board_reportable D c r"
    using call(3) by (cases "de_completion_json D (completion_of r)") (auto simp: board_reportable_def)
  obtain w2 row' where turn: "others 0 (tick_world w1) = w2" "books_kept w w2"
      "find (\<lambda>j'. dj_id j' = job_id) (dispatch_jobs (db w2)) = Some row'" "terminal_result c row' = Inr (Some (job_answer r))"
    using board.one_turn [OF ready reportable, of cfg k status_text] call(1)
    by (auto simp: node node_turn_def board_answered_def)
  note answer = fetch_found [OF quiet_same [OF quiet books_kept_env [OF turn(2)]] turn(3), of c]
  have "wait_for_dispatch_result c others elapsed job_id (unat (max (ji_timeout_seconds input) 1)) w1
      = Some (Inr (job_answer r), tick_world w2)"
    using time(3) by (simp add: wait_for_dispatch_result_def wait_fuel_def poll numeral_2_eq_2 turn(1,4) answer)
  then show ?thesis
    using books_kept_tick [OF turn(2)]
    by (simp add: dispatch_to_daemon_node_def new(1) job_answer_def split: sum.splits)
qed

text \<open>A request that the gateway dispatches to a node is answered by the provider on the node: between two
  polls of the gateway the daemon takes the job with one signed request, calls its local provider, and
  reports with another; at its next poll the gateway returns the provider's response, or the failure with the
  redacted message, which is never a timeout.\<close>

theorem dispatched_request_is_answered_by_the_node:
  assumes session: "in_session 13 D a token row node_id \<lparr>ds_calls = i, ds_plane = \<lparr>as_world = w, as_nonces = nonces\<rparr>\<rparr>"
    and id: "job_id = fresh (env w) (tick w)"
    and input: "ji_node_id input = node_id" "idle_node node_id job_id (dispatch_jobs (db w))"
      "uuid_ok (env w) job_id" "uuid_ok (env w) (ji_request_id input)"
    and codec: "codec_ok c" "encode_request c (ji_request input) = Inr raw"
    and time: "\<forall>n \<le> 9. 10 ^ 9 \<le> clock (env w) (tick w + n) \<and> clock (env w) (tick w + n) \<le> deadline_of input w"
      "deadline_of input w < 10 ^ 10" "elapsed 0 < unat (max (ji_timeout_seconds input) 1) * 1000"
    and node: "others 0 = node_turn D (control_plane a k c status_text) token cfg i nonces"
    and call: "r = fst (call_local_provider D cfg \<lparr>li_id = job_id, li_request_id = ji_request_id input,
      li_model = ji_model input, li_request = ji_request input\<rparr> \<lparr>ds_calls = i + 2, ds_plane = ()\<rparr>)"
      "\<forall>x. r = Inr x \<longrightarrow> isl (encode_response c x) = False" "isl (de_completion_json D (completion_of r)) = False"
  shows "\<exists>w'. dispatch_to_daemon_node c others elapsed input w = Some (Inr (job_answer r), w')"
  using dispatch_answered [where others = others and elapsed = elapsed, OF assms] by blast

section \<open>Witness\<close>

definition hello :: chat_request where
  "hello = \<lparr>cr_model = lit ''m'', cr_messages = [], cr_stream = False, cr_max_tokens = None\<rparr>"

definition reply_to_hello :: chat_response where
  "reply_to_hello = \<lparr>cs_provider = lit ''mizan-daemon'', cs_model = lit ''m'', cs_content = lit ''hi'', cs_usage = None\<rparr>"

definition hello_codec :: chat_codec where
  "hello_codec = \<lparr>encode_request = (\<lambda>r. if r = hello then Inr [] else Inl []), decode_request = (\<lambda>_. Inr hello),
     encode_response = (\<lambda>r. if r = reply_to_hello then Inr [] else Inl []), decode_response = (\<lambda>_. Inr reply_to_hello)\<rparr>"

definition hello_input :: dispatch_job_input where
  "hello_input = \<lparr>ji_request_id = [2], ji_node_id = [1], ji_user_id = None, ji_api_key_id = None,
     ji_model = lit ''m'', ji_request = hello, ji_timeout_seconds = 10\<rparr>"

definition awake_turn :: "nat \<Rightarrow> world \<Rightarrow> world" where
  "awake_turn n = node_turn sample_daemon (control_plane marked_crypto one_name_codec hello_codec (\<lambda>_. [])) (lit ''k'')
     loaded_config 0 []"

lemma hello_called: "fst (call_local_provider sample_daemon loaded_config \<lparr>li_id = [100], li_request_id = [2],
    li_model = lit ''m'', li_request = hello\<rparr> \<lparr>ds_calls = 2, ds_plane = ()\<rparr>) = Inr reply_to_hello"
  by (simp add: call_local_provider_def bind_op_def of_result_def ask_def sample_daemon_def provider_chat_completions_def
      send_chat_completion_request_def parse_chat_completion_response_def is_success_status_def reply_to_hello_def
      hello_def with_optional_api_key_def loaded_config_def)

lemma ten_seconds: "deadline_of hello_input (as_world awake_state) = 1700000112"
  "unat (max (ji_timeout_seconds hello_input) 1) = 10"
  by (simp_all add: deadline_of_def hello_input_def awake_state_def calm_world_def calm_def max_def word_le_nat_alt)

lemma awake_session: "in_session 13 sample_daemon marked_crypto (lit ''k'') awake_node [1]
    \<lparr>ds_calls = 0, ds_plane = \<lparr>as_world = as_world awake_state, as_nonces = []\<rparr>\<rparr>"
proof -
  have "inj (de_nonce sample_daemon)"
    by (rule injI) (metis daemon_env.select_convs(3) length_replicate nat.inject sample_daemon_def)
  moreover have "as_world awake_state = calm_world (empty_database\<lparr>daemon_nodes := [awake_node]\<rparr>)"
    by (simp add: awake_state_def)
  ultimately show ?thesis
    using awake plain_k plain_nonce
    by (simp add: in_session_def quiet_def) (simp add: sample_daemon_def calm_world_def calm_def)
qed

theorem dispatched_request_is_answered_by_the_node_witness:
  "\<exists>w'. dispatch_to_daemon_node hello_codec awake_turn (\<lambda>n. n * 100) hello_input (as_world awake_state)
     = Some (Inr (Succeeded reply_to_hello), w')"
proof -
  note s = awake_state_def calm_world_def calm_def
  have "job_answer (Inr reply_to_hello) = Succeeded reply_to_hello" by (simp add: job_answer_def)
  moreover have "\<exists>w'. dispatch_to_daemon_node hello_codec awake_turn (\<lambda>n. n * 100) hello_input (as_world awake_state)
     = Some (Inr (job_answer (Inr reply_to_hello)), w')"
  proof (rule dispatched_request_is_answered_by_the_node [where job_id = "[100]" and raw = "[]"
        and k = one_name_codec and status_text = "\<lambda>_. []" and cfg = loaded_config, OF awake_session])
    show "ji_node_id hello_input = [1]" by (simp add: hello_input_def)
    show "codec_ok hello_codec" by (auto simp: codec_ok_def hello_codec_def split: if_splits)
    show "encode_request hello_codec (ji_request hello_input) = Inr []" by (simp add: hello_codec_def hello_input_def)
    show "deadline_of hello_input (as_world awake_state) < 10 ^ 10" by (simp add: ten_seconds)
    show "Inr reply_to_hello = fst (call_local_provider sample_daemon loaded_config \<lparr>li_id = [100],
        li_request_id = ji_request_id hello_input, li_model = ji_model hello_input, li_request = ji_request hello_input\<rparr>
      \<lparr>ds_calls = 0 + 2, ds_plane = ()\<rparr>)"
      using hello_called by (simp add: hello_input_def numeral_2_eq_2)
    show "\<forall>n \<le> 9. 10 ^ 9 \<le> clock (env (as_world awake_state)) (tick (as_world awake_state) + n)
      \<and> clock (env (as_world awake_state)) (tick (as_world awake_state) + n) \<le> deadline_of hello_input (as_world awake_state)"
      unfolding ten_seconds by (simp add: s)
    show "awake_turn 0 = node_turn sample_daemon (control_plane marked_crypto one_name_codec hello_codec (\<lambda>_. [])) (lit ''k'')
     loaded_config 0 []" by (simp add: awake_turn_def)
  qed (simp_all add: s idle_node_def empty_database_def uuid_ok_def hello_input_def ten_seconds
      hello_codec_def sample_daemon_def)
  ultimately show ?thesis by simp
qed

end
