(* ===== verification/Daemon_Chat.thy ===== *)
theory Daemon_Chat
  imports Daemon_Session Gateway
begin

text \<open>
  A chat request from its arrival at the gateway to the answer of the provider on a node and back
  (crates/mizan-api/src/gateway.rs, dispatch.rs and crates/mizan-daemon/src/main.rs together): the steps of
  \<open>chat_completions_impl\<close> on the way of a model that no route serves, when nothing fails.
\<close>

section \<open>The way to the node\<close>

definition unrouted :: "str \<Rightarrow> database \<Rightarrow> bool" where
  "unrouted m d \<longleftrightarrow> (\<forall>(r, c) \<in> set (joined d). \<not> (mr_public_model r = m \<and> mr_enabled r = 1 \<and> pc_enabled c = 1))"

lemma unrouted_find: "unrouted m d \<Longrightarrow>
    find (\<lambda>(r, c). mr_public_model r = m \<and> mr_enabled r = 1 \<and> pc_enabled c = 1) (joined d) = None"
  by (auto simp: unrouted_def find_None_iff)

lemma resolve_unrouted:
  assumes "quiet w" "unrouted m (db w)"
  shows "resolve_model_route a v key field m w
    = (Inl (InvalidConfig (lit field) (lit ''model not found or disabled'')), tick_world w)"
  using assms(1) unrouted_find [OF assms(2)]
  by (simp add: resolve_model_route_def run_simps quiet_def query_stmt_def tick_world_def)

lemma select_run:
  assumes "quiet w" "fst (select_eligible_daemon_node k m stale w) = Inr (Some node)"
  shows "select_eligible_daemon_node k m stale w = (Inr (Some node), tick_world (tick_world w))"
  using assms
  by (cases "trim m = []")
    (auto simp: select_eligible_daemon_node_def Let_def run_simps now_utc_epoch_seconds_def quiet_def query_stmt_def tick_world_def)

abbreviation free :: route_price where
  "free \<equiv> \<lparr>input_microcredits_per_1m_tokens = 0, output_microcredits_per_1m_tokens = 0\<rparr>"

lemma free_charge: "charge_total (calculate_usage_charge input free) = 0"
  by (simp add: calculate_usage_charge_def ceil_div_def as_i64_def)

lemma free_credit_check: "cl_price c = free \<Longrightarrow> run_state (credit_check c) s = (Inr (), s)"
  by (simp add: credit_check_def ensure_sufficient_credit_def free_charge ret_def)

section \<open>The answer\<close>

definition free_of_charge :: "world \<Rightarrow> world \<Rightarrow> bool" where
  "free_of_charge w w' \<longleftrightarrow> wallets (db w') = wallets (db w) \<and> credit_ledger (db w') = credit_ledger (db w)"

lemma failed_usage_free:
  "quiet w \<Longrightarrow> \<not> is_success_status (bi_status_code input) \<Longrightarrow>
    free_of_charge w (snd (record_usage input w)) \<and> env (snd (record_usage input w)) = env w"
  by (cases "usage_row_of input (bi_status_code input) (fresh (env w) (Suc (tick w))) (show_nat (clock (env w) (tick w)))")
    (auto simp: record_usage_def insert_usage_event_def run_simps quiet_def tick_world_def insert_usage_row_def free_of_charge_def)

lemma answered_by_node:
  assumes "quiet (gs_world s)" "cl_price c = free" "fits (answer_usage c x) (ge_elapsed E (gs_calls s))"
    and "\<And>n. tick (gs_world s) \<le> n \<Longrightarrow> fresh (env (gs_world s)) n \<notin> ue_id ` set (usage_events (db (gs_world s)))"
  shows "\<exists>resp s' row i now. run_state (daemon_result E c (Inr (Succeeded x))) s = (resp, s')
    \<and> hs_status resp = 200 \<and> hs_body resp = ChatBody (map_to_chat_completion_response i (cl_model c) x now)
    \<and> usage_events (db (gs_world s')) = usage_events (db (gs_world s)) @ [row]
    \<and> ue_request_id row = rx_request_id (cl_context c) \<and> ue_user_id row = Some (id_user_id (cl_identity c))
    \<and> ue_daemon_node_id row = cl_node c \<and> ue_status_code row = 200 \<and> free_of_charge (gs_world s) (gs_world s')"
proof -
  let ?input = "call_billing c (answer_usage c x) 200 (ge_elapsed E (gs_calls s))"
  obtain row w' where w': "record_usage ?input (gs_world s) = (Inr (), w')" "event_of ?input row"
    "db w' = (db (gs_world s))\<lparr>usage_events := usage_events (db (gs_world s)) @ [row]\<rparr>"
    using record_free_usage [OF assms(1), of ?input] assms(2-4) free_charge
    by (auto simp: call_billing_def usage_charge_of_def)
  obtain s1 where s1: "run_state (call_answered E c x (do { completion_uuid \<leftarrow> draw_uuid; json_chat_completion_response
        (lit ''chatcmpl-'' @ completion_uuid) (cl_model c) x (cl_context c) })) s
      = run_state (do { completion_uuid \<leftarrow> draw_uuid; json_chat_completion_response
        (lit ''chatcmpl-'' @ completion_uuid) (cl_model c) x (cl_context c) }) s1" "gs_world s1 = w'"
    using call_answered_recorded [OF w'(1)] by blast
  have "run_state (daemon_result E c (Inr (Succeeded x))) s = (attach_request_headers (cl_context c) 200
      (ChatBody (map_to_chat_completion_response (lit ''chatcmpl-'' @ fresh (env w') (tick w')) (cl_model c) x
        (clock (env w') (Suc (tick w'))))), s1\<lparr>gs_world := tick_world (tick_world w')\<rparr>)"
    using s1 by (simp add: daemon_result_def json_response_now tick_world_def)
  then show ?thesis
    by - (rule exI, rule exI, rule exI [of _ row], rule exI, rule exI, rule conjI, assumption, use w'(2,3) in
      \<open>simp_all add: attach_request_headers_def event_of_def call_billing_def free_of_charge_def tick_world_def\<close>)
qed

lemma failed_by_node:
  assumes "quiet (gs_world s)"
  shows "\<exists>s'. run_state (daemon_result E c (Inr (Failed code message))) s = (error_of c (daemon_failure code message), s')
    \<and> free_of_charge (gs_world s) (gs_world s')"
proof -
  let ?input = "call_billing c (prompt_only_usage c) 502 (ge_elapsed E (gs_calls s))"
  have "fst (from_app_error (daemon_failure code message)) = 502" by (simp add: from_app_error_def daemon_failure_def)
  moreover obtain x w' where "record_usage ?input (gs_world s) = (x, w')" by fastforce
  moreover have "free_of_charge (gs_world s) (snd (record_usage ?input (gs_world s)))"
    using failed_usage_free [OF assms, of ?input] by (simp add: call_billing_def is_success_status_def)
  ultimately show ?thesis
    by (simp add: daemon_result_def call_failed_def observe_call_def record_call_def small_steps)
qed

text \<open>What the caller gets for the result of the provider on the node.\<close>

definition chat_answer :: "call \<Rightarrow> app_error + chat_response \<Rightarrow> http_response \<Rightarrow> bool" where
  "chat_answer c r resp \<longleftrightarrow> (case r of
      Inr x \<Rightarrow> hs_status resp = 200
        \<and> (\<exists>i now. hs_body resp = ChatBody (map_to_chat_completion_response i (cl_model c) x now))
    | Inl e \<Rightarrow> \<exists>message. resp = error_of c (daemon_failure (Some (lit ''provider_error'')) message)
        \<and> message = (if trim (redact_for_logs (error_to_string e)) = [] then lit ''daemon job failed''
            else trim (redact_for_logs (error_to_string e))))"

definition chat_recorded :: "call \<Rightarrow> app_error + chat_response \<Rightarrow> world \<Rightarrow> world \<Rightarrow> bool" where
  "chat_recorded c r w w' \<longleftrightarrow> free_of_charge w w' \<and> (isl r \<or> (\<exists>row. usage_events (db w') = usage_events (db w) @ [row]
     \<and> ue_request_id row = rx_request_id (cl_context c) \<and> ue_user_id row = Some (id_user_id (cl_identity c))
     \<and> ue_daemon_node_id row = cl_node c \<and> ue_status_code row = 200))"

lemma daemon_result_run:
  assumes "quiet (gs_world s)" "cl_price c = free" "\<And>x. r = Inr x \<Longrightarrow> fits (answer_usage c x) (ge_elapsed E (gs_calls s))"
    and "\<And>n. tick (gs_world s) \<le> n \<Longrightarrow> fresh (env (gs_world s)) n \<notin> ue_id ` set (usage_events (db (gs_world s)))"
  shows "\<exists>resp s'. run_state (daemon_result E c (Inr (job_answer r))) s = (resp, s') \<and> chat_answer c r resp
    \<and> chat_recorded c r (gs_world s) (gs_world s')"
proof (cases r)
  case (Inl e)
  show ?thesis
    using failed_by_node [OF assms(1), of E c "Some (lit ''provider_error'')"
        "if trim (redact_for_logs (error_to_string e)) = [] then lit ''daemon job failed''
         else trim (redact_for_logs (error_to_string e))"]
    by (auto simp: Inl job_answer_def chat_answer_def chat_recorded_def)
next
  case (Inr x)
  show ?thesis
    using answered_by_node [OF assms(1,2) assms(3) [OF Inr] assms(4)]
    by (auto simp: Inr job_answer_def chat_answer_def chat_recorded_def)
qed

section \<open>The call\<close>

lemma admit_daemon_run:
  assumes "cl_price c = free" "ge_join E (gs_calls s) = None"
    and "check_and_acquire (ge_redis E) (runtime_policy (ge_config E)) \<lparr>scopes = daemon_scopes (cl_identity c),
      estimated_prompt_tokens = total_tokens (admission_usage c)\<rparr> (gs_limiter s) = (Inr l, limiter)"
  shows "run_state (admit_daemon E c node) s = run_state (daemon_call E c node l)
    (s\<lparr>gs_calls := Suc (gs_calls s), gs_limiter := limiter\<rparr>)"
  using assms by (simp add: admit_daemon_def admit_def free_credit_check acquire_runtime_limits_def)

lemma daemon_call_run:
  assumes dispatched: "dispatch_to_daemon_node (ge_chat E) (ge_others E) (ge_waited E) (daemon_job E c node) (gs_world s)
      = Some (Inr (job_answer r), w')" "books_kept (gs_world s) w'"
    and "quiet (gs_world s)" "cl_price c = free" "\<And>x. r = Inr x \<Longrightarrow> fits (answer_usage c x) (ge_elapsed E (gs_calls s))"
    and fresh_ids: "\<And>n. tick (gs_world s) \<le> n \<Longrightarrow> fresh (env (gs_world s)) n \<notin> ue_id ` set (usage_events (db (gs_world s)))"
  shows "\<exists>resp s'. run_state (daemon_call E c node l) s = (Some resp, s') \<and> chat_answer c r resp
    \<and> chat_recorded c r (gs_world s) (gs_world s')"
proof -
  note kept = dispatched(2) [unfolded books_kept_def]
  obtain resp s' where s': "run_state (daemon_result E c (Inr (job_answer r))) (s\<lparr>gs_world := w'\<rparr>) = (resp, s')"
    "chat_answer c r resp" "chat_recorded c r w' (gs_world s')"
    using daemon_result_run [of "s\<lparr>gs_world := w'\<rparr>" c r E] assms(3-5) fresh_ids kept by (auto simp: quiet_def)
  then show ?thesis
    using kept by (simp add: daemon_call_def ask_daemon_def dispatched(1) then_release_def small_steps
        chat_recorded_def free_of_charge_def)
qed

section \<open>The handler\<close>

text \<open>The call that the handler makes of a request, with the identifiers it draws.\<close>

definition node_chat ::
  "'r gateway_env \<Rightarrow> api_key_identity \<Rightarrow> headers \<Rightarrow> chat_completions_request \<Rightarrow> request_spec \<Rightarrow> eligible_node \<Rightarrow> world \<Rightarrow> call" where
  "node_chat E who h payload spec node w =
     (let request_id = fresh (env w) (tick w);
          trace_id = (case parse_request_id_header (env w) h ''x-trace-id'' of Some v \<Rightarrow> v | None \<Rightarrow> request_id);
          m = trim (pq_model payload);
          ctx = daemon_context who node request_id trace_id m spec (new_context (fresh (env w) (5 + tick w)))
      in \<lparr>cl_identity = who, cl_context = ctx, cl_log = with_daemon_node_id (en_id node) (with_provider_alias
            (lit ''mizan-daemon'') (with_route_alias m (new_completion_log ctx))), cl_model = m, cl_served = None,
          cl_node = Some (en_id node), cl_price = free, cl_request = \<lparr>cr_model = en_model_id node,
            cr_messages = pq_messages payload, cr_stream = False, cr_max_tokens = pq_max_tokens payload\<rparr>\<rparr>)"

definition offered :: "'r gateway_env \<Rightarrow> str \<Rightarrow> world \<Rightarrow> eligible_node \<Rightarrow> bool" where
  "offered E m w node \<longleftrightarrow> unrouted m (db w)
     \<and> fst (select_eligible_daemon_node (ge_json E) m (uint (cf_daemon_stale_seconds (ge_config E))) (w\<lparr>tick := tick w + 3\<rparr>))
       = Inr (Some node)"

lemma impl_run_node:
  assumes "quiet (gs_world s)" "parse_request_id_header (env (gs_world s)) h ''x-request-id'' = None"
    and "\<not> pq_stream payload" "spec \<in> {CHAT_COMPLETIONS_SPEC, RESPONSES_SPEC}"
    and "offered E (trim (pq_model payload)) (gs_world s) node"
  shows "run_state (chat_completions_impl E who h payload spec) s
    = run_state (admit_daemon E (node_chat E who h payload spec node (gs_world s)) node)
        (s\<lparr>gs_world := (gs_world s)\<lparr>tick := 6 + tick (gs_world s)\<rparr>\<rparr>)"
proof -
  let ?w = "gs_world s" and ?m = "trim (pq_model payload)"
  let ?w3 = "?w\<lparr>tick := tick ?w + 3\<rparr>"
  have q: "quiet (?w\<lparr>tick := n\<rparr>)" for n using assms(1) by (simp add: quiet_def)
  have sel: "select_eligible_daemon_node (ge_json E) ?m (uint (cf_daemon_stale_seconds (ge_config E))) ?w3
      = (Inr (Some node), tick_world (tick_world ?w3))"
    using select_run [OF q] assms(5) by (simp add: offered_def)
  moreover have "?m \<noteq> []"
  proof
    have "trim [] = []" by (simp add: trim_def trim_start_def trim_end_def)
    moreover assume "?m = []"
    ultimately show False using sel by (simp add: select_eligible_daemon_node_def ret_def)
  qed
  moreover have "resolve_model_route (ge_auth E) (ge_vault E) (cf_provider_secret_key (ge_config E)) field ?m
      (?w\<lparr>tick := tick ?w + 2\<rparr>) = (Inl (InvalidConfig (lit field) (lit ''model not found or disabled'')), ?w3)" for field
    using resolve_unrouted [OF q, of ?m] assms(5) by (simp add: offered_def tick_world_def numeral_3_eq_3)
  moreover have "is_model_route_not_found (InvalidConfig (lit (sp_model_field spec)) (lit ''model not found or disabled''))"
    using assms(4) by (auto simp: is_model_route_not_found_def CHAT_COMPLETIONS_SPEC_def RESPONSES_SPEC_def)
  ultimately show ?thesis
    using assms(2,3)
    by (simp add: chat_completions_impl_def serve_request_def handle_daemon_chat_completion_def serve_from_node_def Let_def
        what_outside_def draw_uuid_def tick_world_def resolve_effective_max_tokens_def node_chat_def
        split: option.splits)
qed

lemma node_chat_fields [simp]:
  "cl_identity (node_chat E who h payload spec node w) = who"
  "cl_price (node_chat E who h payload spec node w) = free"
  "cl_node (node_chat E who h payload spec node w) = Some (en_id node)"
  "rx_request_id (cl_context (node_chat E who h payload spec node w)) = fresh (env w) (tick w)"
  by (simp_all add: node_chat_def Let_def daemon_context_def set_streaming_def set_model_def set_path_def set_method_def
      set_route_def set_trace_id_def set_request_id_def)

text \<open>
  The conditions on the outside during the request: the numbered identifiers and clock readings it uses are
  usable, and the request is in time.
\<close>

definition ids_usable :: "uuid \<Rightarrow> world \<Rightarrow> bool" where
  "ids_usable node_id w \<longleftrightarrow> idle_node node_id (fresh (env w) (6 + tick w)) (dispatch_jobs (db w))
     \<and> uuid_ok (env w) (fresh (env w) (6 + tick w)) \<and> uuid_ok (env w) (fresh (env w) (tick w))
     \<and> (\<forall>n \<ge> tick w. fresh (env w) n \<notin> ue_id ` set (usage_events (db w)))"

definition in_time :: "'r gateway_env \<Rightarrow> dispatch_job_input \<Rightarrow> world \<Rightarrow> bool" where
  "in_time E input w \<longleftrightarrow> deadline_of input w < 10 ^ 10 \<and> ge_waited E 0 < unat (max (ji_timeout_seconds input) 1) * 1000
     \<and> (\<forall>n \<le> 9. 10 ^ 9 \<le> clock (env w) (tick w + n) \<and> clock (env w) (tick w + n) \<le> deadline_of input w)"

definition node_result :: "daemon_env \<Rightarrow> daemon_config \<Rightarrow> nat \<Rightarrow> uuid \<Rightarrow> call \<Rightarrow> app_error + chat_response" where
  "node_result D cfg i job_id c = fst (call_local_provider D cfg \<lparr>li_id = job_id, li_request_id = rx_request_id (cl_context c),
     li_model = cl_model c, li_request = cl_request c\<rparr> \<lparr>ds_calls = i + 2, ds_plane = ()\<rparr>)"

lemma chat_dispatched:
  assumes session: "in_session 19 D a token row node_id \<lparr>ds_calls = i, ds_plane = \<lparr>as_world = w, as_nonces = nonces\<rparr>\<rparr>"
    and c: "c = node_chat E who h payload spec node w" "en_id node = node_id" "ids_usable node_id w"
      "in_time E (daemon_job E c node) (w\<lparr>tick := 6 + tick w\<rparr>)"
    and codec: "codec_ok (ge_chat E)" "encode_request (ge_chat E) (cl_request c) = Inr raw"
    and node: "ge_others E 0 = node_turn D (control_plane a k (ge_chat E) status_text) token cfg i nonces"
    and result: "r = node_result D cfg i (fresh (env w) (6 + tick w)) c"
      "\<forall>x. r = Inr x \<longrightarrow> isl (encode_response (ge_chat E) x) = False" "isl (de_completion_json D (completion_of r)) = False"
  shows "\<exists>w'. dispatch_to_daemon_node (ge_chat E) (ge_others E) (ge_waited E) (daemon_job E c node) (w\<lparr>tick := 6 + tick w\<rparr>)
      = Some (Inr (job_answer r), w') \<and> books_kept (w\<lparr>tick := 6 + tick w\<rparr>) w'"
proof -
  let ?w6 = "w\<lparr>tick := 6 + tick w\<rparr>"
  have "\<And>n. i + 0 \<le> n \<Longrightarrow> node_id @ lit ''::'' @ de_nonce D n \<notin> fst ` set nonces"
    using session by (simp add: in_session_def)
  then have later: "in_session 13 D a token row node_id \<lparr>ds_calls = i, ds_plane = \<lparr>as_world = ?w6, as_nonces = nonces\<rparr>\<rparr>"
    using in_session_later [OF session, of ?w6 6 13 0 nonces] by simp
  show ?thesis
    by (rule dispatch_answered [where job_id = "fresh (env w) (6 + tick w)" and elapsed = "ge_waited E" and others = "ge_others E"
          and cfg = cfg, OF later])
      (use c codec node result in \<open>simp_all add: ids_usable_def in_time_def daemon_job_def node_result_def\<close>)
qed


section \<open>Witness\<close>

definition offering_node :: daemon_node_row where
  "offering_node = beaten_node\<lparr>dn_token_hash := hex_bytes [0, 107]\<rparr>"

definition offering_database :: database where
  "offering_database = empty_database\<lparr>daemon_nodes := [offering_node]\<rparr>"

definition offering_turn :: "nat \<Rightarrow> world \<Rightarrow> world" where
  "offering_turn n = node_turn sample_daemon (control_plane marked_crypto one_name_codec hello_codec (\<lambda>_. [])) (lit ''k'')
     loaded_config 0 []"

definition node_gateway :: "(str \<Rightarrow> int option) gateway_env" where
  "node_gateway = sample_gateway\<lparr>ge_json := one_name_codec, ge_chat := hello_codec, ge_others := offering_turn,
     ge_config := (ge_config sample_gateway)\<lparr>cf_limit_concurrency := 0\<rparr>\<rparr>"

definition chosen_node :: eligible_node where
  "chosen_node = \<lparr>en_id = [1], en_provider_family = [111], en_model_id = [109], en_max_concurrency = 2,
     en_last_seen_at = show_nat 1700000100\<rparr>"

definition hello_call :: call where
  "hello_call = node_chat node_gateway sample_admin (\<lambda>_. None) (sample_request ''m'') CHAT_COMPLETIONS_SPEC chosen_node
     (calm_world offering_database)"

lemma hello_offered: "offered node_gateway (lit ''m'') (calm_world offering_database) chosen_node"
proof -
  have m: "lit ''m'' = [109]" by (simp add: lit_def)
  have t: "trim [109] = [109]" by (rule trim_clean) (simp add: is_whitespace_def)
  have le: "str_le (show_nat 1700000013) (show_nat 1700000100)" by (simp add: show_nat.simps)
  have v: "i64_saturating_sub 1700000103 90 = 1700000013" by (simp add: i64_saturating_sub_def i64_max_def)
  have c: "candidate (show_int 1700000013) offering_node"
    using le by (simp add: candidate_def offering_node_def beaten_node_def sample_node_def show_int_def)
  have f: "first_offering one_name_codec calm [109] [node_view offering_node] = Inr (Some chosen_node)"
    by (simp add: node_view_def offering_node_def beaten_node_def sample_node_def parse_json_vec_def one_name_codec_def
        stored_max_concurrency_def u32_try_from_def last_seen_def calm_def chosen_node_def)
  have w: "env (calm_world offering_database) = calm" "tick (calm_world offering_database) = 100"
    "db (calm_world offering_database) = offering_database" "daemon_nodes offering_database = [offering_node]"
    "model_routes offering_database = []"
    by (simp_all add: calm_world_def offering_database_def empty_database_def)
  have clk: "clock calm n = 1700000000 + n" "fault calm n = None" for n by (simp_all add: calm_def)
  have stale: "uint (cf_daemon_stale_seconds (ge_config node_gateway)) = 90" "ge_json node_gateway = one_name_codec"
    by (simp_all add: node_gateway_def sample_gateway_def)
  have "unrouted [109] offering_database" by (simp add: unrouted_def joined_def w)
  then show ?thesis
    using f c unfolding m
    by (simp add: offered_def select_eligible_daemon_node_def t bind_op_def err_op_def exec_def query_stmt_def
        now_utc_epoch_seconds_def w clk v candidate_rows_eq stale)
qed

lemma offering_session: "in_session 19 sample_daemon marked_crypto (lit ''k'') offering_node [1]
    \<lparr>ds_calls = 0, ds_plane = \<lparr>as_world = calm_world offering_database, as_nonces = []\<rparr>\<rparr>"
proof -
  have "live_node marked_crypto (lit ''k'') (calm_world offering_database) offering_node [1]"
    by (simp add: live_node_def offering_database_def offering_node_def beaten_node_def sample_node_def calm_world_def calm_def
        hash_value_def marked_crypto_def lit_def)
  moreover have "inj (de_nonce sample_daemon)"
    by (rule injI) (metis daemon_env.select_convs(3) length_replicate nat.inject sample_daemon_def)
  ultimately show ?thesis
    using plain_k plain_nonce
    by (simp add: in_session_def quiet_def) (simp add: marked_crypto_def sample_daemon_def calm_world_def calm_def)
qed

lemma hello_call_fields:
  "cl_request hello_call = hello" "cl_model hello_call = lit ''m''" "rx_request_id (cl_context hello_call) = [100]"
proof -
  have m: "trim (lit ''m'') = lit ''m''" by (rule trim_clean) (simp add: is_whitespace_def lit_def)
  show "cl_request hello_call = hello" "cl_model hello_call = lit ''m''"
    by (simp_all add: hello_call_def node_chat_def Let_def chosen_node_def sample_request_def hello_def m) (simp add: lit_def)
  show "rx_request_id (cl_context hello_call) = [100]" by (simp add: hello_call_def calm_world_def calm_def)
qed

lemma hello_result: "node_result sample_daemon loaded_config 0 [106] hello_call = Inr reply_to_hello"
  by (simp add: node_result_def hello_call_fields call_local_provider_def bind_op_def of_result_def ask_def sample_daemon_def
      provider_chat_completions_def send_chat_completion_request_def parse_chat_completion_response_def
      is_success_status_def reply_to_hello_def hello_def with_optional_api_key_def loaded_config_def)

lemma hello_job: "deadline_of (daemon_job node_gateway hello_call chosen_node)
    ((calm_world offering_database)\<lparr>tick := 6 + tick (calm_world offering_database)\<rparr>) = 1700000138"
  "ji_timeout_seconds (daemon_job node_gateway hello_call chosen_node) = 30"
  by (simp_all add: deadline_of_def daemon_job_def node_gateway_def sample_gateway_def calm_world_def calm_def
      max_def min_def word_le_nat_alt)

lemma hello_conditions:
  "ids_usable [1] (calm_world offering_database)"
  "in_time node_gateway (daemon_job node_gateway hello_call chosen_node)
    ((calm_world offering_database)\<lparr>tick := 6 + tick (calm_world offering_database)\<rparr>)"
  "admits node_gateway (daemon_scopes sample_admin) hello_call (sample_gateway_state offering_database)"
  "codec_ok hello_codec" "fits (answer_usage hello_call reply_to_hello) 5"
proof -
  show "ids_usable [1] (calm_world offering_database)"
    by (simp add: ids_usable_def idle_node_def uuid_ok_def calm_world_def calm_def offering_database_def empty_database_def)
  show "in_time node_gateway (daemon_job node_gateway hello_call chosen_node)
      ((calm_world offering_database)\<lparr>tick := 6 + tick (calm_world offering_database)\<rparr>)"
    unfolding in_time_def hello_job by (simp add: node_gateway_def sample_gateway_def calm_world_def calm_def)
  show "admits node_gateway (daemon_scopes sample_admin) hello_call (sample_gateway_state offering_database)"
    by (simp add: admits_def node_gateway_def sample_gateway_def runtime_policy_def check_and_acquire_def is_disabled_def ret_def)
  show "codec_ok hello_codec" by (auto simp: codec_ok_def hello_codec_def split: if_splits)
  show "fits (answer_usage hello_call reply_to_hello) 5"
    by (simp add: fits_def answer_usage_def hello_call_fields hello_def reply_to_hello_def estimate_usage_def Let_def
        byte_len_def len_utf8_def lit_def ceil_divide_def u64_saturating_add_def)
qed


end
