(* ===== verification/Process.thy ===== *)
theory Process
  imports Core_Error
begin

text \<open>
  What surrounds the commands of the binaries: the set-up of the log (crates/mizan-core/src/telemetry.rs) and the end
  of a process as its caller sees it (\<open>main\<close> of mizan-daemon and mizan-cli). The filter syntax and the
  subscriber of the tracing crate are parameters; a parsed filter is represented by its text.
\<close>

section \<open>The log\<close>

record tracing_env =
  te_parse_filter :: "str \<Rightarrow> str + str"
  te_install :: "str \<Rightarrow> str + unit"

definition or_else :: "'e + 'a \<Rightarrow> 'e + 'a \<Rightarrow> 'e + 'a" where
  "or_else x y = (case x of Inl _ \<Rightarrow> y | Inr a \<Rightarrow> Inr a)"

definition FALLBACK_FILTER :: str where
  "FALLBACK_FILTER = lit ''mizan=info,tower_http=info''"

definition init_tracing :: "tracing_env \<Rightarrow> str \<Rightarrow> app_error + unit" where
  "init_tracing t default_filter =
     and_then (map_err (Config (lit ''RUST_LOG''))
       (or_else (te_parse_filter t default_filter) (te_parse_filter t FALLBACK_FILTER))) (\<lambda>filter_text.
     map_err Infrastructure (te_install t filter_text))"

text \<open>A filter that cannot be read is replaced: as long as the fallback parses, only a second subscriber is an error.\<close>

lemma init_tracing_installs:
  assumes "te_parse_filter t FALLBACK_FILTER = Inr fallback"
  shows "init_tracing t v = map_err Infrastructure
    (te_install t (case te_parse_filter t v of Inl _ \<Rightarrow> fallback | Inr f \<Rightarrow> f))"
  using assms by (simp add: init_tracing_def or_else_def split: sum.split)

section \<open>The end of a process\<close>

text \<open>A process that still runs, or its exit code with what it printed on the two outputs.\<close>

datatype process_state = Running | Exited nat str str

definition println :: "str \<Rightarrow> str" where
  "println s = s @ [10]"

definition failed_with :: "str \<Rightarrow> str \<Rightarrow> process_state" where
  "failed_with printed message = Exited 1 printed (println (lit ''error: '' @ message))"

end
