(* ===== verification/Daemon_Commands.thy ===== *)
theory Daemon_Commands
  imports Daemon_Client Process
begin

text \<open>
  The commands of the daemon (\<open>main\<close>, \<open>execute\<close>, \<open>run\<close>, \<open>register\<close>, \<open>config_check\<close>, \<open>health\<close> of
  crates/mizan-daemon/src/main.rs) around the client of theory \<open>Daemon_Client\<close>, and the end of the process that
  their caller sees. The parsed arguments, the help text of clap, the builder of the HTTP client
  and the attempt to connect to an address within a bound of milliseconds are parameters.
\<close>

section \<open>Commands\<close>

datatype probe_outcome = Connected | Elapsed | Refused str

record command_env =
  cm_tracing :: tracing_env
  cm_client :: "str + unit"
  cm_probe :: "str \<Rightarrow> u64 \<Rightarrow> probe_outcome"
  cm_print_help :: "str + str"

definition daemon_http_client :: "command_env \<Rightarrow> app_error + unit" where
  "daemon_http_client M = map_err (infra ''daemon http client failed: '') (cm_client M)"

text \<open>\<open>start_daemon\<close> is what \<open>run\<close> and \<open>register\<close> begin with.\<close>

definition start_daemon :: "daemon_env \<Rightarrow> command_env \<Rightarrow> str \<Rightarrow> app_error + daemon_config \<times> str" where
  "start_daemon D M path =
     and_then (load_daemon_config D path) (\<lambda>c.
     and_then (init_tracing (cm_tracing M) (lit ''mizan_daemon=info,mizan_core=info'')) (\<lambda>_.
     and_then (read_daemon_token D c) (\<lambda>token.
     and_then (daemon_http_client M) (\<lambda>_. Inr (c, token)))))"

definition daemon_run_command ::
  "daemon_env \<Rightarrow> command_env \<Rightarrow> 's transport \<Rightarrow> (nat \<Rightarrow> 's \<Rightarrow> 's) \<Rightarrow> str \<Rightarrow> nat \<Rightarrow> ('s, unit) daemon_op" where
  "daemon_run_command D M T others path turns s = (case start_daemon D M path of
      Inl e \<Rightarrow> (Inl e, s)
    | Inr (c, token) \<Rightarrow> (Inr (), run_turns D T others token c turns s))"

definition daemon_register_command :: "daemon_env \<Rightarrow> command_env \<Rightarrow> 's transport \<Rightarrow> str \<Rightarrow> ('s, str) daemon_op" where
  "daemon_register_command D M T path =
     bind_op (of_result (start_daemon D M path)) (\<lambda>(c, token).
     bind_op (daemon_register D T token c) (\<lambda>reply.
     ret (lit ''ok: daemon node '' @ sr_node_id reply @ lit '' registered status='' @ sr_status reply
       @ lit '' last_seen_at='' @ sr_last_seen_at reply)))"

fun join_with :: "str \<Rightarrow> str list \<Rightarrow> str" where
  "join_with sep [] = []"
| "join_with sep [x] = x"
| "join_with sep (x # y # zs) = x @ sep @ join_with sep (y # zs)"

definition config_check :: "daemon_env \<Rightarrow> str \<Rightarrow> app_error + str" where
  "config_check D path = and_then (load_daemon_config D path) (\<lambda>c.
     Inr (lit ''ok: control_plane_url='' @ dc_control_plane_url c
       @ lit '' local_provider_url='' @ dc_local_provider_url c
       @ lit '' advertised_models='' @ join_with (lit '','') (dc_advertised_models c)
       @ lit '' max_concurrency='' @ show_nat (unat (dc_max_concurrency c))
       @ lit '' health_addr='' @ dc_health_addr c))"

definition probe_health_addr :: "(str \<Rightarrow> u64 \<Rightarrow> probe_outcome) \<Rightarrow> str \<Rightarrow> u64 \<Rightarrow> app_error + unit" where
  "probe_health_addr probe addr timeout_ms = (case probe addr (max timeout_ms 1) of
      Connected \<Rightarrow> Inr ()
    | Elapsed \<Rightarrow> Inl (Infrastructure (lit ''health probe timed out for '' @ addr))
    | Refused e \<Rightarrow> Inl (Infrastructure (lit ''health probe failed for '' @ addr @ lit '': '' @ e)))"

definition daemon_health ::
  "daemon_env \<Rightarrow> (str \<Rightarrow> u64 \<Rightarrow> probe_outcome) \<Rightarrow> str option \<Rightarrow> u64 \<Rightarrow> app_error + str" where
  "daemon_health D probe config timeout_ms = (case config of
      Some path \<Rightarrow>
        and_then (load_daemon_config D path) (\<lambda>c.
        and_then (probe_health_addr probe (dc_health_addr c) timeout_ms) (\<lambda>_.
        Inr (lit ''ok: daemon health endpoint reachable at '' @ dc_health_addr c)))
    | None \<Rightarrow> Inr (lit ''ok: mizan-daemon process command is healthy''))"

section \<open>The process\<close>

datatype daemon_command = Run_Command str | Register_Command str | Config_Check_Command str
  | Health_Command "str option" u64

text \<open>\<open>execute\<close>: nothing as long as the loop of \<open>run\<close> goes on, here for its first \<open>turns\<close> turns, else the
  text that is printed.\<close>

definition daemon_execute ::
  "daemon_env \<Rightarrow> command_env \<Rightarrow> 's transport \<Rightarrow> (nat \<Rightarrow> 's \<Rightarrow> 's) \<Rightarrow> nat \<Rightarrow> daemon_command option
     \<Rightarrow> ('s, str option) daemon_op" where
  "daemon_execute D M T others turns command = (case command of
      Some (Run_Command path) \<Rightarrow> bind_op (daemon_run_command D M T others path turns) (\<lambda>_. ret None)
    | Some (Register_Command path) \<Rightarrow> bind_op (daemon_register_command D M T path) (\<lambda>line. ret (Some (println line)))
    | Some (Config_Check_Command path) \<Rightarrow> bind_op (of_result (config_check D path)) (\<lambda>line. ret (Some (println line)))
    | Some (Health_Command config timeout_ms) \<Rightarrow>
        bind_op (of_result (daemon_health D (cm_probe M) config timeout_ms)) (\<lambda>line. ret (Some (println line)))
    | None \<Rightarrow> bind_op (of_result (map_err Io (cm_print_help M))) (\<lambda>help. ret (Some (println help))))"

definition daemon_main ::
  "daemon_env \<Rightarrow> command_env \<Rightarrow> 's transport \<Rightarrow> (nat \<Rightarrow> 's \<Rightarrow> 's) \<Rightarrow> nat \<Rightarrow> daemon_command option
     \<Rightarrow> 's daemon_state \<Rightarrow> process_state \<times> 's daemon_state" where
  "daemon_main D M T others turns command s = (case daemon_execute D M T others turns command s of
      (Inl e, s') \<Rightarrow> (failed_with [] (error_to_string e), s')
    | (Inr None, s') \<Rightarrow> (Running, s')
    | (Inr (Some printed), s') \<Rightarrow> (Exited 0 printed [], s'))"

section \<open>What the caller of a command sees\<close>

lemmas command_defs = daemon_main_def daemon_execute_def daemon_run_command_def daemon_register_command_def
  bind_op_def of_result_def ret_def

text \<open>A daemon that is started either runs, or has ended with code 1 before it sent anything.\<close>

lemma run_command_outcome:
  "daemon_main D M T others turns (Some (Run_Command path)) s = (case start_daemon D M path of
      Inl e \<Rightarrow> (failed_with [] (error_to_string e), s)
    | Inr (c, token) \<Rightarrow> (Running, run_turns D T others token c turns s))"
  by (simp add: command_defs split: sum.split)

text \<open>All other commands end, and only \<open>register\<close> talks to the control plane.\<close>

lemma other_commands_end:
  assumes "\<forall>path. command \<noteq> Some (Run_Command path)"
  shows "fst (daemon_main D M T others turns command s) \<noteq> Running"
  using assms by (auto simp: command_defs failed_with_def split: option.split daemon_command.split sum.split prod.split)

lemma local_commands_send_nothing:
  assumes "\<forall>path. command \<noteq> Some (Run_Command path) \<and> command \<noteq> Some (Register_Command path)"
  shows "snd (daemon_main D M T others turns command s) = s"
  using assms by (auto simp: command_defs split: option.split daemon_command.split sum.split prod.split)

text \<open>A process that ends with code 0 has printed on its standard output only, and one that ends otherwise has
  printed the reason on the other one.\<close>

lemma outcome_is_reported:
  assumes "daemon_main D M T others turns command s = (Exited code out err, s')"
  shows "code = 0 \<and> err = [] \<or> code = 1 \<and> out = [] \<and> starts_with err (lit ''error: '')"
  using assms by (auto simp: daemon_main_def failed_with_def println_def starts_with_iff lit_def split: sum.splits option.splits prod.splits)

end
