(* ===== verification/Cli_Proxy.thy ===== *)
theory Cli_Proxy
  imports Upstream Rtk_Filter Process
begin

text \<open>
  The command line tool: \<open>filter\<close> and \<open>proxy\<close> (crates/mizan-cli/src/main.rs) over the client of
  crates/mizan-rtk/src/proxy.rs. A command returns the text of its error, if any, and
  what it wrote to standard output. \<open>flush_error\<close> says whether flushing the output fails once a given text was written;
  \<open>to_pretty\<close> is \<open>serde_json::to_string_pretty\<close>.
\<close>

section \<open>The client\<close>

record chat_proxy_config =
  pc_base_url :: str
  pc_api_key :: str
  pc_provider_name :: "str option"

definition with_provider_name :: "str \<Rightarrow> chat_proxy_config \<Rightarrow> chat_proxy_config" where
  "with_provider_name provider_name c = c\<lparr>pc_provider_name := Some provider_name\<rparr>"

definition chat_completion_request :: "str \<Rightarrow> str \<Rightarrow> chat_request" where
  "chat_completion_request model prompt = \<lparr>cr_model = model,
     cr_messages = [\<lparr>cm_role = lit ''user'', cm_content = prompt\<rparr>], cr_stream = False, cr_max_tokens = None\<rparr>"

definition chat_completion_request_with_messages ::
  "str \<Rightarrow> chat_message list \<Rightarrow> bool \<Rightarrow> u64 option \<Rightarrow> chat_request" where
  "chat_completion_request_with_messages model messages stream max_tokens =
     \<lparr>cr_model = model, cr_messages = messages, cr_stream = stream, cr_max_tokens = max_tokens\<rparr>"

definition provider_name_for :: "str \<Rightarrow> str option \<Rightarrow> str" where
  "provider_name_for base_url provider_name = (case provider_name of
      Some n \<Rightarrow> n
    | None \<Rightarrow> if str_contains (to_ascii_lowercase base_url) (lit ''openai'') then lit ''openai''
        else lit ''openai-compatible'')"

record cli_env =
  ce_upstream :: upstream
  ce_codec :: stream_codec
  ce_fresh :: "nat \<Rightarrow> uuid"
  ce_flush_error :: "str \<Rightarrow> str option"
  ce_to_pretty :: "json \<Rightarrow> str + str"

definition proxy_provider :: "chat_proxy_config \<Rightarrow> openai_provider" where
  "proxy_provider c = new_provider (provider_name_for (pc_base_url c) (pc_provider_name c)) (pc_base_url c) (pc_api_key c)"

text \<open>The identifier of the request is drawn first, the one the builder starts from second.\<close>

definition proxy_context :: "cli_env \<Rightarrow> chat_request \<Rightarrow> request_context" where
  "proxy_context C request = set_streaming (cr_stream request)
     (set_trace_id (ce_fresh C 0) (set_request_id (ce_fresh C 0) (new_context (ce_fresh C 1))))"

definition send_chat_completion :: "cli_env \<Rightarrow> chat_proxy_config \<Rightarrow> chat_request \<Rightarrow> app_error + chat_response" where
  "send_chat_completion C c request =
     provider_chat_completions (ce_upstream C) 0 (proxy_provider c) (proxy_context C request) request"

definition send_chat_completion_stream :: "cli_env \<Rightarrow> chat_proxy_config \<Rightarrow> chat_request \<Rightarrow> app_error + sse_state" where
  "send_chat_completion_stream C c request =
     provider_chat_completions_stream (ce_upstream C) 0 (proxy_provider c) (proxy_context C request) request"

section \<open>The commands\<close>

type_synonym command_result = "(str + unit) \<times> str"

fun join_space :: "str list \<Rightarrow> str" where
  "join_space [] = []"
| "join_space [x] = x"
| "join_space (x # y # zs) = x @ [32] @ join_space (y # zs)"

definition run_filter :: "str list \<Rightarrow> command_result" where
  "run_filter input = (Inr (), println (body (passthrough_filter (join_space input))))"

definition usage_json :: "token_usage \<Rightarrow> json" where
  "usage_json u = JObject [(lit ''prompt_tokens'', JInt (uint (prompt_tokens u))),
     (lit ''completion_tokens'', JInt (uint (completion_tokens u))),
     (lit ''total_tokens'', JInt (uint (total_tokens u))), (lit ''estimated'', JBool (estimated u))]"

definition filter_json :: "rtk_filter_result \<Rightarrow> json" where
  "filter_json r = JObject [(lit ''filtered'', JBool (filtered r)),
     (lit ''original_chars'', JInt (int (original_chars r))), (lit ''output_chars'', JInt (int (output_chars r)))]"

definition optional_json :: "json option \<Rightarrow> json" where
  "optional_json v = (case v of None \<Rightarrow> JNull | Some j \<Rightarrow> j)"

definition response_payload :: "chat_response \<Rightarrow> rtk_filter_result \<Rightarrow> json" where
  "response_payload response r =
     JObject [(lit ''provider'', JString (cs_provider response)), (lit ''model'', JString (cs_model response)),
       (lit ''content'', JString (body r)), (lit ''usage'', optional_json (map_option usage_json (cs_usage response))),
       (lit ''filter'', filter_json r)]"

definition provider_fallback_name :: "str \<Rightarrow> str" where
  "provider_fallback_name base_url =
     (if str_contains (to_ascii_lowercase base_url) (lit ''openai'') then lit ''openai'' else lit ''openai-compatible'')"

definition stream_response_payload :: "chat_proxy_config \<Rightarrow> str \<Rightarrow> json option \<Rightarrow> rtk_filter_result \<Rightarrow> json" where
  "stream_response_payload c model usage r =
     JObject [(lit ''provider'', JString (case pc_provider_name c of Some n \<Rightarrow> n
         | None \<Rightarrow> provider_fallback_name (pc_base_url c))),
       (lit ''model'', JString model), (lit ''content'', JString (body r)), (lit ''usage'', optional_json usage),
       (lit ''filter'', filter_json r)]"

record stream_totals =
  st_content :: str
  st_usage :: "json option"
  st_emitted :: bool
  st_printed :: str

text \<open>The body of the loop: one element of the stream.\<close>

definition take_chunk ::
  "cli_env \<Rightarrow> bool \<Rightarrow> bool \<Rightarrow> app_error + chat_stream_chunk \<Rightarrow> stream_totals \<Rightarrow> (str + unit) \<times> stream_totals" where
  "take_chunk C compact_output json_output element t = (case element of
      Inl e \<Rightarrow> (Inl (error_to_string e), t)
    | Inr chunk \<Rightarrow>
        let t = t\<lparr>st_content := st_content t @ ck_delta chunk\<rparr>;
            t = (case ck_usage chunk of Some u \<Rightarrow> t\<lparr>st_usage := Some (usage_json u)\<rparr> | None \<Rightarrow> t) in
        if \<not> json_output \<and> \<not> compact_output then
          let t = t\<lparr>st_printed := st_printed t @ ck_delta chunk\<rparr> in
          (case ce_flush_error C (st_printed t) of
             Some e \<Rightarrow> (Inl e, t)
           | None \<Rightarrow> (Inr (), t\<lparr>st_emitted := True\<rparr>))
        else (Inr (), t))"

text \<open>The loop: \<open>None\<close> would be a loop that never ends.\<close>

partial_function (option) drain ::
  "cli_env \<Rightarrow> bool \<Rightarrow> bool \<Rightarrow> sse_state \<Rightarrow> stream_totals \<Rightarrow> ((str + unit) \<times> stream_totals) option" where
  "drain C compact_output json_output s t =
     (case sse_next (ce_codec C) s of
        (None, s') \<Rightarrow> Some (Inr (), t)
      | (Some element, s') \<Rightarrow>
          (case take_chunk C compact_output json_output element t of
             (Inl e, t') \<Rightarrow> Some (Inl e, t')
           | (Inr _, t') \<Rightarrow> drain C compact_output json_output s' t'))"

definition filter_for :: "bool \<Rightarrow> str \<Rightarrow> rtk_filter_result" where
  "filter_for compact content = (if compact then filter_output content default_policy else passthrough_filter content)"

definition print_json :: "cli_env \<Rightarrow> json \<Rightarrow> str \<Rightarrow> command_result" where
  "print_json C payload printed = (case ce_to_pretty C payload of
      Inl e \<Rightarrow> (Inl e, printed)
    | Inr encoded \<Rightarrow> (Inr (), printed @ println encoded))"

definition run_streaming_proxy ::
  "cli_env \<Rightarrow> chat_proxy_config \<Rightarrow> chat_request \<Rightarrow> str \<Rightarrow> bool \<Rightarrow> bool \<Rightarrow> command_result option" where
  "run_streaming_proxy C c request model compact_output json_output =
     (case send_chat_completion_stream C c request of
        Inl e \<Rightarrow> Some (Inl (error_to_string e), [])
      | Inr stream \<Rightarrow>
          (case drain C compact_output json_output stream
              \<lparr>st_content = [], st_usage = None, st_emitted = False, st_printed = []\<rparr> of
             None \<Rightarrow> None
           | Some (Inl e, t) \<Rightarrow> Some (Inl e, st_printed t)
           | Some (Inr _, t) \<Rightarrow>
               let r = filter_for compact_output (st_content t) in
               if json_output then
                 Some (print_json C (stream_response_payload c model (st_usage t) r) (st_printed t))
               else if compact_output then Some (Inr (), st_printed t @ println (body r))
               else if st_emitted t then Some (Inr (), st_printed t @ println [])
               else Some (Inr (), st_printed t)))"

record proxy_args =
  px_base_url :: str
  px_api_key :: str
  px_provider_name :: "str option"
  px_model :: str
  px_message :: "str list"
  px_stream :: bool
  px_compact :: bool
  px_max_tokens :: "u64 option"
  px_json :: bool

definition run_proxy :: "cli_env \<Rightarrow> proxy_args \<Rightarrow> command_result option" where
  "run_proxy C a =
     (let request_messages = map (\<lambda>content. \<lparr>cm_role = lit ''user'', cm_content = content\<rparr>) (px_message a) in
      if request_messages = [] then Some (Inl (lit ''--message is required''), [])
      else
        let config = \<lparr>pc_base_url = px_base_url a, pc_api_key = px_api_key a, pc_provider_name = px_provider_name a\<rparr>;
            request = chat_completion_request_with_messages (px_model a) request_messages (px_stream a) (px_max_tokens a) in
        if px_stream a then run_streaming_proxy C config request (px_model a) (px_compact a) (px_json a)
        else (case send_chat_completion C config request of
            Inl e \<Rightarrow> Some (Inl (error_to_string e), [])
          | Inr response \<Rightarrow>
              let r = filter_for (px_compact a) (cs_content response) in
              Some (if px_json a then print_json C (response_payload response r) []
                else (Inr (), println (if px_compact a then body r else cs_content response)))))"

section \<open>The process\<close>

text \<open>\<open>main\<close> and \<open>execute\<close>; clap parses the arguments and prints the help.\<close>

datatype cli_command = Filter_Command "str list" | Proxy_Command proxy_args

definition cli_execute :: "cli_env \<Rightarrow> str + str \<Rightarrow> cli_command option \<Rightarrow> command_result option" where
  "cli_execute C print_help command = (case command of
      Some (Filter_Command input) \<Rightarrow> Some (run_filter input)
    | Some (Proxy_Command a) \<Rightarrow> run_proxy C a
    | None \<Rightarrow> Some (case print_help of Inl e \<Rightarrow> (Inl e, []) | Inr help \<Rightarrow> (Inr (), println help)))"

definition cli_main :: "cli_env \<Rightarrow> str + str \<Rightarrow> cli_command option \<Rightarrow> process_state option" where
  "cli_main C print_help command = map_option (\<lambda>(r, printed). case r of
      Inl e \<Rightarrow> failed_with printed e
    | Inr _ \<Rightarrow> Exited 0 printed []) (cli_execute C print_help command)"

section \<open>What a streamed answer comes to\<close>

text \<open>The elements before the first error, and the error.\<close>

fun good_part :: "(app_error + chat_stream_chunk) list \<Rightarrow> chat_stream_chunk list \<times> app_error option" where
  "good_part [] = ([], None)"
| "good_part (Inl e # xs) = ([], Some e)"
| "good_part (Inr c # xs) = (c # fst (good_part xs), snd (good_part xs))"

definition reported_usage :: "chat_stream_chunk list \<Rightarrow> token_usage option" where
  "reported_usage cs = (case List.map_filter ck_usage cs of [] \<Rightarrow> None | us \<Rightarrow> Some (last us))"

fun run_elements ::
  "cli_env \<Rightarrow> bool \<Rightarrow> bool \<Rightarrow> (app_error + chat_stream_chunk) list \<Rightarrow> stream_totals \<Rightarrow> (str + unit) \<times> stream_totals" where
  "run_elements C compact json [] t = (Inr (), t)"
| "run_elements C compact json (x # xs) t = (case take_chunk C compact json x t of
      (Inl e, t') \<Rightarrow> (Inl e, t')
    | (Inr _, t') \<Rightarrow> run_elements C compact json xs t')"

lemma drain_elements:
  "sse_polls k s outs \<Longrightarrow> k = ce_codec C \<Longrightarrow> drain C compact json s t = Some (run_elements C compact json outs t)"
proof (induction arbitrary: t rule: sse_polls.induct)
  case (ended k s s')
  then show ?case by (simp add: drain.simps)
next
  case (element k s x s' xs)
  then show ?case by (subst drain.simps) (auto split: prod.split sum.split)
qed

lemma run_elements_good:
  assumes "\<And>p. ce_flush_error C p = None"
  shows "run_elements C compact json xs t = (case good_part xs of (cs, err) \<Rightarrow>
    ((case err of None \<Rightarrow> Inr () | Some e \<Rightarrow> Inl (error_to_string e)),
     \<lparr>st_content = st_content t @ concat (map ck_delta cs),
      st_usage = (case reported_usage cs of None \<Rightarrow> st_usage t | Some u \<Rightarrow> Some (usage_json u)),
      st_emitted = (st_emitted t \<or> \<not> compact \<and> \<not> json \<and> cs \<noteq> []),
      st_printed = st_printed t @ (if compact \<or> json then [] else concat (map ck_delta cs))\<rparr>))"
proof (induction xs arbitrary: t)
  case Nil
  then show ?case by (simp add: reported_usage_def List.map_filter_simps)
next
  case (Cons x xs)
  show ?case
  proof (cases x)
    case (Inl e)
    then show ?thesis by (simp add: Inl take_chunk_def reported_usage_def List.map_filter_simps)
  next
    case (Inr c)
    have "reported_usage (c # cs) = (case reported_usage cs of None \<Rightarrow> ck_usage c | Some u \<Rightarrow> Some u)" for cs
      by (cases "ck_usage c") (auto simp: reported_usage_def List.map_filter_simps split: list.split option.split)
    then show ?thesis
      using assms Cons.IH
      by (cases "good_part xs"; cases compact; cases json; cases "ck_usage c")
        (simp_all add: Inr take_chunk_def Let_def split: option.split)
  qed
qed

lemma good_part_empty: "good_part xs = ([], None) \<Longrightarrow> xs = []"
  by (cases xs rule: good_part.cases) auto

lemma stream_outputs_not_empty: "text_outputs k False [] text ending \<noteq> []"
  by (auto simp: text_outputs_def finish_text_def split: prod.splits sum.splits option.splits if_splits)

lemma drain_ends: "\<exists>r. drain C compact json (new_sse_state items) t = Some r"
proof -
  have "sse_polls (ce_codec C) (new_sse_state items)
      (text_outputs (ce_codec C) False [] (fst (pieces items)) (snd (pieces items)))"
    using polls_text [of "new_sse_state items" "ce_codec C"] by (simp add: new_sse_state_def outputs_of_def)
  from drain_elements [OF this refl] show ?thesis by blast
qed

text \<open>Every invocation of the tool ends, with code 0 or with code 1 and the reason on the standard error.\<close>

lemma cli_ends: "\<exists>printed. cli_main C print_help command = Some (Exited 0 printed [])
    \<or> (\<exists>e. cli_main C print_help command = Some (failed_with printed e))"
proof -
  have "\<exists>r. run_streaming_proxy C c request model compact json = Some r" for c request model compact json
  proof (cases "send_chat_completion_stream C c request")
    case (Inr stream)
    then obtain items where "stream = new_sse_state items"
      by (auto simp: send_chat_completion_stream_def provider_chat_completions_stream_def and_then_Inr)
    then obtain e t where "drain C compact json stream \<lparr>st_content = [], st_usage = None, st_emitted = False, st_printed = []\<rparr>
        = Some (e, t)"
      using drain_ends by (metis surj_pair)
    then show ?thesis by (auto simp: run_streaming_proxy_def Inr Let_def split: sum.split)
  qed (simp add: run_streaming_proxy_def)
  then have "\<exists>r. cli_execute C print_help command = Some r"
    by (auto simp: cli_execute_def run_proxy_def Let_def split: option.split cli_command.split sum.split)
  then obtain r printed where "cli_execute C print_help command = Some (r, printed)" by auto
  then show ?thesis by (cases r) (auto simp: cli_main_def)
qed

text \<open>C37. The streamed command always ends, and its output depends on the bytes of the answer alone, not on how they
  arrive: without options it prints every delta up to the first error, in order, and a line end if there was
  none; with \<open>--compact\<close> or \<open>--json\<close> it prints nothing unless the whole answer came, and then the filtered content
  or the object with the last usage that was reported. An error is the error of the command.\<close>

theorem streamed_command_prints_the_answer:
  assumes "send_chat_completion_stream C c request = Inr (new_sse_state items)" "\<forall>p. ce_flush_error C p = None"
  shows "run_streaming_proxy C c request model compact json = Some
    (case good_part (text_outputs (ce_codec C) False [] (fst (pieces items)) (snd (pieces items))) of
       (cs, err) \<Rightarrow> let content = concat (map ck_delta cs) in
       (case err of
          Some e \<Rightarrow> (Inl (error_to_string e), if compact \<or> json then [] else content)
        | None \<Rightarrow>
            if json then print_json C (stream_response_payload c model (map_option usage_json (reported_usage cs))
              (if compact then filter_output content default_policy else passthrough_filter content)) []
            else (Inr (), (if compact then body (filter_output content default_policy) else content) @ [10])))"
proof -
  let ?outs = "text_outputs (ce_codec C) False [] (fst (pieces items)) (snd (pieces items))"
  have "sse_polls (ce_codec C) (new_sse_state items) ?outs"
    using polls_text [of "new_sse_state items" "ce_codec C"] by (simp add: new_sse_state_def outputs_of_def)
  note run = drain_elements [OF this refl, unfolded run_elements_good [OF assms(2) [rule_format]]]
  have "good_part ?outs \<noteq> ([], None)" using good_part_empty stream_outputs_not_empty by blast
  then show ?thesis
    by (cases "good_part ?outs") (auto simp: run_streaming_proxy_def assms(1) run Let_def filter_for_def println_def
        map_option_case split: option.splits)
qed

section \<open>Witness\<close>

text \<open>Two pieces of one event \<open>data:z\<close>, cut in the middle.\<close>

definition echo_codec :: stream_codec where
  "echo_codec = \<lparr>decode_chunk = (\<lambda>s. Inr \<lparr>ok_choices =
     [\<lparr>oc_index = 0, oc_content = Some s, oc_finish_reason = None\<rparr>], ok_usage = None\<rparr>), utf8_error = (\<lambda>_. [])\<rparr>"

definition echo_pieces :: "(str + u8 list) list" where
  "echo_pieces = [Inr [100, 97, 116], Inr [97, 58, 122, 10, 10]]"

definition echo_cli :: cli_env where
  "echo_cli = \<lparr>ce_upstream = \<lparr>up_send = (\<lambda>_ _. Inr \<lparr>hp_status = 200, hp_status_text = [], hp_text = Inr [],
        hp_pieces = echo_pieces\<rparr>), up_decode = (\<lambda>_. Inl [])\<rparr>,
     ce_codec = echo_codec, ce_fresh = (\<lambda>n. [n]), ce_flush_error = (\<lambda>_. None), ce_to_pretty = (\<lambda>_. Inr [])\<rparr>"

definition plain_config :: chat_proxy_config where
  "plain_config = \<lparr>pc_base_url = [], pc_api_key = [], pc_provider_name = None\<rparr>"

lemma echo_sent: "send_chat_completion_stream echo_cli plain_config request = Inr (new_sse_state echo_pieces)"
  by (simp add: send_chat_completion_stream_def provider_chat_completions_stream_def send_chat_completion_request_def
      is_success_status_def echo_cli_def)

lemma echo_outputs: "text_outputs echo_codec False [] (fst (pieces echo_pieces)) (snd (pieces echo_pieces))
    = [Inr \<lparr>ck_index = 0, ck_delta = [122], ck_finish_reason = None, ck_usage = None\<rparr>]"
proof -
  have s: "split_lines [100, 97, 116, 97, 58, 122, 10, 10] = ([[100, 97, 116, 97, 58, 122], []], [])"
    by (simp add: split_lines.simps take_line_def strip_cr_def NEWLINE_def CARRIAGE_RETURN_def)
  have u: "utf8_decode [100, 97, 116, 97, 58, 122] = Some [100, 97, 116, 97, 58, 122]" "utf8_decode [] = Some []"
    by simp_all
  have t: "trim_start [100, 97, 116, 97, 58, 122] = [100, 97, 116, 97, 58, 122]" "trim_start [122] = [122]" "trim [122] = [122]"
    "\<not> starts_with [100, 97, 116, 97, 58, 122] (lit '':'')" "strip_prefix [100, 97, 116, 97, 58, 122] (lit ''data:'') = Some [122]"
    "[122] \<noteq> lit ''[DONE]''" "trim_start [] = []"
    by (simp_all add: trim_def trim_start_def trim_end_def lit_def starts_with_def strip_prefix_def is_whitespace_def)
  show ?thesis
    by (simp add: text_outputs_def echo_pieces_def s u t echo_codec_def line_effect_def from_utf8_def event_effect_def
        parse_stream_event_def chunk_of_choice_def finish_text_def Let_def)
qed

theorem streamed_command_prints_the_answer_witness:
  "run_streaming_proxy echo_cli plain_config (chat_completion_request [109] [104]) [109] False False
     = Some (Inr (), [122, 10])"
  using streamed_command_prints_the_answer [OF echo_sent, of "chat_completion_request [109] [104]" "[109]" False False]
  by (simp add: echo_cli_def echo_outputs)

end
