(* ===== verification/Router.thy ===== *)
theory Router
  imports Providers Daemon_Auth Metrics Config Process
begin

text \<open>
  The service around the handlers (crates/mizan-api/src/lib.rs, storage.rs): the state it starts
  with, the route table with the middleware in front of each group, the health endpoints and the
  answer to an unknown path. The file system, the database driver, the Redis client and the process
  are parameters.
\<close>

section \<open>Opening the database\<close>

text \<open>\<open>Path::parent\<close>: without the last component; none for the root and the empty path.\<close>

definition path_parent :: "str \<Rightarrow> str option" where
  "path_parent path =
     (let p = rev (dropWhile (\<lambda>c. c = 47) (rev path)) in
      if p = [] then None
      else let above = rev (dropWhile (\<lambda>c. c \<noteq> 47) (rev p)); trimmed = rev (dropWhile (\<lambda>c. c = 47) (rev above)) in
        Some (if above \<noteq> [] \<and> trimmed = [] then [47] else trimmed))"

definition ensure_sqlite_parent_directory :: "(str \<Rightarrow> str + unit) \<Rightarrow> str \<Rightarrow> app_error + unit" where
  "ensure_sqlite_parent_directory create_dir_all database_url =
     (if \<not> is_sqlite_url database_url then Inr ()
      else if url_path database_url = lit '':memory:'' \<or> url_path database_url = [] then Inr ()
      else case (case path_parent (url_path database_url) of None \<Rightarrow> None | Some parent \<Rightarrow>
          if parent = [] then None else Some parent) of
        Some parent \<Rightarrow> map_err (infra ''cannot create sqlite data directory: '') (create_dir_all parent)
      | None \<Rightarrow> Inr ())"

record 'pool storage_env =
  se_create_dir_all :: "str \<Rightarrow> str + unit"
  se_connect :: "str \<Rightarrow> u32 \<Rightarrow> str + 'pool"
  se_migrate :: "'pool \<Rightarrow> str + 'pool"

definition connect_and_migrate :: "'pool storage_env \<Rightarrow> str \<Rightarrow> bool \<Rightarrow> u32 \<Rightarrow> app_error + 'pool" where
  "connect_and_migrate S database_url run_migrations max_connections =
     and_then (ensure_sqlite_parent_directory (se_create_dir_all S) database_url) (\<lambda>_.
     and_then (map_err Infrastructure (se_connect S database_url (pool_connections database_url max_connections))) (\<lambda>pool.
     if run_migrations then map_err Infrastructure (se_migrate S pool) else Inr pool))"

section \<open>The state\<close>

text \<open>\<open>AppState::new\<close>: the pool is the database of the world; the metrics and the nonces start empty.\<close>

definition app_state_new ::
  "auth_env \<Rightarrow> world storage_env \<Rightarrow> (str \<Rightarrow> str + unit) \<Rightarrow> app_config \<Rightarrow> app_error + app_state \<times> metrics_registry" where
  "app_state_new a S open_redis c =
     and_then (connect_and_migrate S (cf_database_url c) (cf_run_migrations c) (cf_database_max_connections c)) (\<lambda>w.
     and_then (map_err Infrastructure (open_redis (cf_redis_url c))) (\<lambda>_.
     case (cf_admin_seed_email c, cf_admin_seed_password c) of
       (Some email, Some password) \<Rightarrow>
         (case ensure_admin_seed a email password (cf_admin_seed_role c) w of
            (Inl e, _) \<Rightarrow> Inl e
          | (Inr _, w') \<Rightarrow> Inr (\<lparr>as_world = w', as_nonces = []\<rparr>, default_registry))
     | _ \<Rightarrow> Inr (\<lparr>as_world = w, as_nonces = []\<rparr>, default_registry)))"

text \<open>\<open>run_from_env\<close> until the first request: configuration, tracing, listener, state.\<close>

definition run_from_env ::
  "process_env \<Rightarrow> tracing_env \<Rightarrow> (str \<Rightarrow> app_error + unit) \<Rightarrow> auth_env \<Rightarrow> world storage_env
     \<Rightarrow> (str \<Rightarrow> str + unit) \<Rightarrow> app_error + app_state \<times> metrics_registry" where
  "run_from_env e t bind_listener a S open_redis =
     and_then (from_env e) (\<lambda>config.
     and_then (init_tracing t (cf_log_level config)) (\<lambda>_.
     and_then (bind_listener (cf_http_addr config)) (\<lambda>_.
     app_state_new a S open_redis config)))"

section \<open>Health\<close>

definition check_database :: "world \<Rightarrow> bool \<times> world" where
  "check_database w = (case exec (query_stmt (\<lambda>_. 1 :: int)) w of (r, w') \<Rightarrow> (r = Inr 1, w'))"

text \<open>The blocking task: it may be lost, the client may fail, or answer.\<close>

datatype redis_ping = Ping_Task_Lost | Ping_Failed app_error | Ping_Reply str

definition check_redis :: "redis_ping \<Rightarrow> bool" where
  "check_redis p = (case p of Ping_Reply response \<Rightarrow> response = lit ''PONG'' | _ \<Rightarrow> False)"

definition backend_as_str :: "database_backend \<Rightarrow> string" where
  "backend_as_str b = (case b of Sqlite \<Rightarrow> ''sqlite'' | Postgres \<Rightarrow> ''postgresql'')"

record health_response =
  hl_status :: string
  hl_service :: string
  hl_version :: str
  hl_database_backend :: string
  hl_database :: string
  hl_redis :: string

definition healthz :: "str \<Rightarrow> health_response" where
  "healthz version = \<lparr>hl_status = ''ok'', hl_service = ''mizan-api'', hl_version = version,
     hl_database_backend = ''not_checked'', hl_database = ''not_checked'', hl_redis = ''not_checked''\<rparr>"

definition readyz :: "str \<Rightarrow> database_backend \<Rightarrow> redis_ping \<Rightarrow> world \<Rightarrow> (status \<times> health_response) \<times> world" where
  "readyz version backend ping w =
     (case check_database w of (database_ok, w') \<Rightarrow>
      let redis_ok = check_redis ping; ready = (database_ok \<and> redis_ok);
          response = \<lparr>hl_status = (if ready then ''ready'' else ''not_ready''), hl_service = ''mizan-api'',
            hl_version = version, hl_database_backend = backend_as_str backend,
            hl_database = (if database_ok then ''ok'' else ''not_ready''),
            hl_redis = (if redis_ok then ''ok'' else ''not_ready'')\<rparr> in
      ((if ready then 200 else 503, response), w'))"

definition metrics_endpoint :: "metrics_registry \<Rightarrow> string \<times> str" where
  "metrics_endpoint r = (''text/plain; version=0.0.4'', render_prometheus r)"

definition not_found :: "status \<times> error_envelope" where
  "not_found = (404, envelope_of (NotFound (lit ''not found'')))"

section \<open>Routes\<close>

datatype guard = Api_Key_Auth | Require_Admin_Role | Daemon_Node_Auth

datatype endpoint =
    Healthz | Readyz | Metrics_Endpoint
  | Register | Login | Me | Logout | Create_Api_Key | List_Api_Keys | Revoke_Api_Key
  | Api_Key_Ping | Chat_Completions | Responses | List_Models
  | List_Provider_Connections | Create_Provider_Connection | Delete_Provider_Connection
  | List_Model_Routes | Create_Model_Route | Delete_Model_Route
  | Get_Wallet | List_Usage | Grant_Credits | List_Usage_Admin
  | List_Daemon_Nodes | Create_Daemon_Node | Revoke_Daemon_Node
  | Register_Daemon_Node | Daemon_Heartbeat | Daemon_Ping | Lease_Next_Dispatch_Job | Complete_Dispatch_Job

datatype http_method = GET | POST | DELETE | HEAD | Other str

record route =
  ro_path :: string
  ro_methods :: "(http_method \<times> endpoint) list"
  ro_guards :: "guard list"

definition routes :: "guard list \<Rightarrow> (string \<times> (http_method \<times> endpoint) list) list \<Rightarrow> route list" where
  "routes guards table = map (\<lambda>(path, methods). \<lparr>ro_path = path, ro_methods = methods, ro_guards = guards\<rparr>) table"

text \<open>The guards of a group, outermost first: the layer that was added last.\<close>

definition router :: "route list" where
  "router =
     routes [] [(''/healthz'', [(GET, Healthz)]), (''/readyz'', [(GET, Readyz)]), (''/metrics'', [(GET, Metrics_Endpoint)])]
     @ routes [] [(''/auth/register'', [(POST, Register)]), (''/auth/login'', [(POST, Login)])]
     @ routes [] [(''/me'', [(GET, Me)]), (''/auth/logout'', [(POST, Logout)]),
         (''/api-keys'', [(POST, Create_Api_Key), (GET, List_Api_Keys)]), (''/api-keys/{id}'', [(DELETE, Revoke_Api_Key)])]
     @ routes [Api_Key_Auth] [(''/v1/ping'', [(GET, Api_Key_Ping)]), (''/v1/chat/completions'', [(POST, Chat_Completions)]),
         (''/v1/responses'', [(POST, Responses)])]
     @ routes [Api_Key_Auth] [(''/v1/credits'', [(GET, Get_Wallet)]), (''/v1/usage'', [(GET, List_Usage)])]
     @ routes [Api_Key_Auth] [(''/v1/models'', [(GET, List_Models)])]
     @ routes [Api_Key_Auth, Require_Admin_Role]
         [(''/admin/provider-connections'', [(GET, List_Provider_Connections), (POST, Create_Provider_Connection)]),
          (''/admin/provider-connections/{id}'', [(DELETE, Delete_Provider_Connection)]),
          (''/admin/model-routes'', [(GET, List_Model_Routes), (POST, Create_Model_Route)]),
          (''/admin/model-routes/{id}'', [(DELETE, Delete_Model_Route)])]
     @ routes [Api_Key_Auth, Require_Admin_Role]
         [(''/admin/users/{id}/credits/grant'', [(POST, Grant_Credits)]), (''/admin/usage'', [(GET, List_Usage_Admin)])]
     @ routes [Api_Key_Auth, Require_Admin_Role]
         [(''/admin/daemon-nodes'', [(GET, List_Daemon_Nodes), (POST, Create_Daemon_Node)]),
          (''/admin/daemon-nodes/{id}'', [(DELETE, Revoke_Daemon_Node)])]
     @ routes [Daemon_Node_Auth]
         [(''/daemon/register'', [(POST, Register_Daemon_Node)]), (''/daemon/heartbeat'', [(POST, Daemon_Heartbeat)]),
          (''/daemon/ping'', [(GET, Daemon_Ping)]), (''/daemon/jobs/lease'', [(POST, Lease_Next_Dispatch_Job)]),
          (''/daemon/jobs/{id}/complete'', [(POST, Complete_Dispatch_Job)])]"

text \<open>\<open>matchit\<close>: a parameter stands for one segment that is not empty; everything else is literal.\<close>

fun segments :: "str \<Rightarrow> str list" where
  "segments [] = [[]]"
| "segments (c # cs) = (if c = 47 then [] # segments cs
     else (case segments cs of s # ss \<Rightarrow> (c # s) # ss | [] \<Rightarrow> [[c]]))"

fun match_segments :: "str list \<Rightarrow> str list \<Rightarrow> str list option" where
  "match_segments [] [] = Some []"
| "match_segments (p # ps) (s # ss) =
     (if p = lit ''{id}'' then (if s = [] then None else map_option ((#) s) (match_segments ps ss))
      else if p = s then match_segments ps ss else None)"
| "match_segments _ _ = None"

definition match_path :: "string \<Rightarrow> str \<Rightarrow> str list option" where
  "match_path pattern path = match_segments (segments (lit pattern)) (segments path)"

datatype routed =
    Unknown_Path
  | Method_Not_Allowed
  | Endpoint "guard list" endpoint "str list"

text \<open>\<open>get\<close> also answers \<open>HEAD\<close>.\<close>

definition method_endpoint :: "(http_method \<times> endpoint) list \<Rightarrow> http_method \<Rightarrow> endpoint option" where
  "method_endpoint methods m = (case map_of methods m of
      Some e \<Rightarrow> Some e
    | None \<Rightarrow> if m = HEAD then map_of methods GET else None)"

definition route_request :: "http_method \<Rightarrow> str \<Rightarrow> routed" where
  "route_request m path = (case find (\<lambda>r. match_path (ro_path r) path \<noteq> None) router of
      None \<Rightarrow> Unknown_Path
    | Some r \<Rightarrow> (case method_endpoint (ro_methods r) m of
        None \<Rightarrow> Method_Not_Allowed
      | Some e \<Rightarrow> Endpoint (ro_guards r) e (the (match_path (ro_path r) path))))"

section \<open>Through the layers\<close>

text \<open>What the layers put into the extensions of a request.\<close>

record extensions =
  ex_api_key :: "api_key_identity option"
  ex_node :: "daemon_identity option"

fun through :: "auth_env \<Rightarrow> 'b daemon_request \<Rightarrow> guard list \<Rightarrow> extensions \<Rightarrow> (extensions \<Rightarrow> 'a app_handler) \<Rightarrow> 'a app_handler" where
  "through a req [] ext h = h ext"
| "through a req (Api_Key_Auth # gs) ext h =
     bind_op (on_world (api_key_auth a (dq_headers req) (\<lambda>ident. ret ident))) (\<lambda>ident.
     through a req gs (ext\<lparr>ex_api_key := Some ident\<rparr>) h)"
| "through a req (Require_Admin_Role # gs) ext h =
     bind_op (on_world (require_admin_role (ex_api_key ext) () (\<lambda>_. ret ()))) (\<lambda>_. through a req gs ext h)"
| "through a req (Daemon_Node_Auth # gs) ext h =
     daemon_node_auth a req (\<lambda>who _. through a req gs (ext\<lparr>ex_node := Some who\<rparr>) h)"

datatype 'a served = Answered "(status \<times> error_envelope) + 'a" | Refused_Method

definition method_of :: "str \<Rightarrow> http_method" where
  "method_of m = (if m = lit ''GET'' then GET else if m = lit ''POST'' then POST else if m = lit ''DELETE'' then DELETE
     else if m = lit ''HEAD'' then HEAD else Other m)"

definition answer_request ::
  "auth_env \<Rightarrow> (endpoint \<Rightarrow> str list \<Rightarrow> extensions \<Rightarrow> 'a app_handler) \<Rightarrow> 'b daemon_request
     \<Rightarrow> app_state \<Rightarrow> 'a served \<times> app_state" where
  "answer_request a handlers req s = (case route_request (method_of (dq_method req)) (dq_path req) of
      Unknown_Path \<Rightarrow> (Answered (Inl not_found), s)
    | Method_Not_Allowed \<Rightarrow> (Refused_Method, s)
    | Endpoint guards e params \<Rightarrow>
        (case through a req guards \<lparr>ex_api_key = None, ex_node = None\<rparr> (handlers e params) s of
           (r, s') \<Rightarrow> (Answered r, s')))"

section \<open>Which guards a path has\<close>

definition guards_for :: "str \<Rightarrow> guard list" where
  "guards_for path = (case segments path of
      _ # s # _ # _ \<Rightarrow>
        if s = lit ''admin'' then [Api_Key_Auth, Require_Admin_Role]
        else if s = lit ''v1'' then [Api_Key_Auth]
        else if s = lit ''daemon'' then [Daemon_Node_Auth]
        else []
    | _ \<Rightarrow> [])"

lemma match_Some_Cons: "match_segments (p # ps) ss = Some xs \<Longrightarrow>
    \<exists>s ss' xs'. ss = s # ss' \<and> match_segments ps ss' = Some xs' \<and> (p = lit ''{id}'' \<or> s = p)"
  by (cases ss) (auto split: if_splits)

lemma match_Some_Nil: "match_segments [] ss = Some xs \<Longrightarrow> ss = []"
  by (cases ss) auto

definition route_ok :: "route \<Rightarrow> bool" where
  "route_ok r \<longleftrightarrow> (\<exists>a b rest. segments (lit (ro_path r)) = a # b # rest \<and> a \<noteq> lit ''{id}'' \<and> b \<noteq> lit ''{id}''
     \<and> ro_guards r = (if rest = [] then [] else if b = lit ''admin'' then [Api_Key_Auth, Require_Admin_Role]
        else if b = lit ''v1'' then [Api_Key_Auth] else if b = lit ''daemon'' then [Daemon_Node_Auth] else []))"

lemma routes_ok: "list_all route_ok router"
  by (simp add: router_def routes_def route_ok_def lit_def)

lemma route_ok_guards:
  assumes "route_ok r" "match_path (ro_path r) path = Some ps"
  shows "ro_guards r = guards_for path"
proof -
  obtain a b rest where r: "segments (lit (ro_path r)) = a # b # rest" "a \<noteq> lit ''{id}''" "b \<noteq> lit ''{id}''"
    "ro_guards r = (if rest = [] then [] else if b = lit ''admin'' then [Api_Key_Auth, Require_Admin_Role]
        else if b = lit ''v1'' then [Api_Key_Auth] else if b = lit ''daemon'' then [Daemon_Node_Auth] else [])"
    using assms(1) unfolding route_ok_def by blast
  have m: "match_segments (a # b # rest) (segments path) = Some ps" using assms(2) r(1) by (simp add: match_path_def)
  obtain s ss xs where s: "segments path = s # ss" "match_segments (b # rest) ss = Some xs"
    using match_Some_Cons [OF m] by blast
  obtain ss' xs' where t: "ss = b # ss'" "match_segments rest ss' = Some xs'"
    using match_Some_Cons [OF s(2)] r(3) by blast
  have "rest = [] \<longleftrightarrow> ss' = []"
    using t(2) match_Some_Nil match_Some_Cons by (metis list.exhaust list.distinct(1))
  then show ?thesis using r(4) s(1) t(1) by (auto simp: guards_for_def split: list.split)
qed

lemma route_request_guards: "route_request m path = Endpoint gs e ps \<Longrightarrow> gs = guards_for path"
  using routes_ok route_ok_guards
  by (fastforce simp: route_request_def list_all_iff split: option.splits dest: find_SomeD)

section \<open>What a guard lets through\<close>

lemma resolve_key_frame: "resolve_api_key_identity a authz w = (r, w') \<Longrightarrow> db w' = db w"
  by (auto simp: resolve_api_key_identity_def run_simps tick_world_def split: sum.splits option.splits prod.splits)

lemma resolve_node_frame: "resolve_daemon_node_identity a authz w = (r, w') \<Longrightarrow> db w' = db w"
  by (auto simp: resolve_daemon_node_identity_def run_simps tick_world_def split: sum.splits option.splits prod.splits)

lemma guards_cases:
  "guards_for path = [] \<or> guards_for path = [Api_Key_Auth] \<or> guards_for path = [Api_Key_Auth, Require_Admin_Role]
    \<or> guards_for path = [Daemon_Node_Auth]"
  by (simp add: guards_for_def split: list.split)

text \<open>What the layers rely on: whoever resolves a token to an identity leaves the database alone. Then
  a request without a valid token changes nothing, and one with a valid token goes on unchanged.\<close>

locale authenticator =
  fixes resolve :: "auth_env \<Rightarrow> str \<Rightarrow> 'i handler"
  assumes frame: "resolve a authz w = (r, w') \<Longrightarrow> db w' = db w"
begin

lemma behind_the_header:
  assumes "bind_op (of_result (ok_or err (header_text h ''authorization'')))
      (\<lambda>authz. bind_op (on_world (resolve a authz)) k) s = (r, s')"
  shows "(\<exists>e. r = Inl e) \<and> db (as_world s') = db (as_world s)
    \<or> (\<exists>authz who s1. header_text h ''authorization'' = Some authz
        \<and> fst (resolve a authz (as_world s)) = Inr who \<and> db (as_world s1) = db (as_world s) \<and> k who s1 = (r, s'))"
proof (cases "header_text h ''authorization''")
  case None
  then show ?thesis using assms by (auto simp: bind_op_def of_result_def)
next
  case (Some authz)
  obtain x w where x: "resolve a authz (as_world s) = (x, w)" by force
  show ?thesis
  proof (cases x)
    case (Inl e)
    then show ?thesis using assms frame [OF x] x by (auto simp: bind_op_def of_result_def on_world_def Some)
  next
    case (Inr who)
    then have "k who (s\<lparr>as_world := w\<rparr>) = (r, s')"
      using assms x by (auto simp: bind_op_def of_result_def on_world_def Some)
    moreover have "db (as_world (s\<lparr>as_world := w\<rparr>)) = db (as_world s)" using frame [OF x] by simp
    ultimately show ?thesis using Some x Inr by (metis fst_conv)
  qed
qed

end

interpretation api_key: authenticator resolve_api_key_identity
  by unfold_locales (rule resolve_key_frame)

interpretation node_token_holder: authenticator resolve_daemon_node_identity
  by unfold_locales (rule resolve_node_frame)

definition passed :: "auth_env \<Rightarrow> 'b daemon_request \<Rightarrow> world \<Rightarrow> extensions \<Rightarrow> guard \<Rightarrow> bool" where
  "passed a req w ext g = (case g of
      Api_Key_Auth \<Rightarrow> \<exists>authz ident. header_text (dq_headers req) ''authorization'' = Some authz
        \<and> fst (resolve_api_key_identity a authz w) = Inr ident \<and> ex_api_key ext = Some ident
    | Require_Admin_Role \<Rightarrow> \<exists>ident. ex_api_key ext = Some ident \<and> id_user_role ident = lit ''admin''
    | Daemon_Node_Auth \<Rightarrow> \<exists>authz who now claim. header_text (dq_headers req) ''authorization'' = Some authz
        \<and> fst (resolve_daemon_node_identity a authz w) = Inr who \<and> ex_node ext = Some who
        \<and> check_claim a (dq_method req) (dq_path req) (dq_headers req) who now = Inr claim)"

lemma key_guard:
  assumes "on_world (api_key_auth a h (\<lambda>ident. ret ident)) s = (r, s1)"
  shows "db (as_world s1) = db (as_world s) \<and> (\<forall>i. r = Inr i \<longrightarrow> (\<exists>authz. header_text h ''authorization'' = Some authz
    \<and> fst (resolve_api_key_identity a authz (as_world s)) = Inr i))"
proof -
  have "bind_op (of_result (ok_or (map_error 401 Unauthorized) (header_text h ''authorization'')))
      (\<lambda>authz. bind_op (on_world (resolve_api_key_identity a authz)) ret) s = (r, s1)"
    using assms by (auto simp: on_world_def api_key_auth_def bind_op_def of_result_def ret_def split: sum.splits prod.splits)
  from api_key.behind_the_header [OF this] show ?thesis by auto
qed

lemma admin_guard:
  "on_world (require_admin_role who () (\<lambda>_. ret ())) s = (r, s1) \<Longrightarrow> s1 = s \<and>
     (\<forall>u. r = Inr u \<longrightarrow> (\<exists>ident. who = Some ident \<and> id_user_role ident = lit ''admin''))"
  by (cases who) (auto simp: on_world_def require_admin_role_def bind_op_def of_result_def throw_def ret_def
      split: if_splits)

lemma signature_guard:
  assumes "bind_op (validate_daemon_request_signature a m p h who) k s = (r, s')"
  shows "(\<exists>e. r = Inl e) \<and> db (as_world s') = db (as_world s)
    \<or> (\<exists>now claim s1. check_claim a m p h who now = Inr claim \<and> db (as_world s1) = db (as_world s) \<and> k () s1 = (r, s'))"
proof -
  let ?w = "as_world s" and ?now = "int (clock (env (as_world s)) (tick (as_world s)))"
  show ?thesis
  proof (cases "check_claim a m p h who ?now")
    case (Inl e)
    then show ?thesis
      using assms by (auto simp: validate_daemon_request_signature_def bind_op_def of_result_def on_world_def
          now_utc_epoch_seconds_def tick_world_def)
  next
    case claim: (Inr claim)
    obtain y c where y: "admit_nonce ?now claim (as_nonces s) = (y, c)" by force
    have "(\<exists>e. r = Inl e) \<and> db (as_world s') = db ?w \<or> k () \<lparr>as_world = tick_world ?w, as_nonces = c\<rparr> = (r, s')"
      using assms claim y by (cases s; cases y) (auto simp: validate_daemon_request_signature_def bind_op_def of_result_def
          on_world_def on_nonces_def now_utc_epoch_seconds_def tick_world_def)
    moreover have "db (as_world \<lparr>as_world = tick_world ?w, as_nonces = c\<rparr>) = db ?w" by (simp add: tick_world_def)
    ultimately show ?thesis using claim by metis
  qed
qed

lemma daemon_guard:
  assumes "daemon_node_auth a req h s = (r, s')"
  shows "(\<exists>e. r = Inl e) \<and> db (as_world s') = db (as_world s)
    \<or> (\<exists>authz who s1 now claim. header_text (dq_headers req) ''authorization'' = Some authz
        \<and> fst (resolve_daemon_node_identity a authz (as_world s)) = Inr who
        \<and> check_claim a (dq_method req) (dq_path req) (dq_headers req) who now = Inr claim
        \<and> db (as_world s1) = db (as_world s) \<and> h who (dq_body req) s1 = (r, s'))"
  using node_token_holder.behind_the_header [OF assms [unfolded daemon_node_auth_def]]
proof (elim disjE exE conjE)
  fix authz who s1
  assume who: "header_text (dq_headers req) ''authorization'' = Some authz"
      "fst (resolve_daemon_node_identity a authz (as_world s)) = Inr who" "db (as_world s1) = db (as_world s)"
    and go: "bind_op (validate_daemon_request_signature a (dq_method req) (dq_path req) (dq_headers req) who)
      (\<lambda>_. h who (dq_body req)) s1 = (r, s')"
  from signature_guard [OF go] who show ?thesis by (elim disjE exE conjE) (simp, metis)
qed simp

text \<open>Every chain of guards that occurs.\<close>

lemma through_cases:
  assumes "gs \<in> {[], [Api_Key_Auth], [Api_Key_Auth, Require_Admin_Role], [Daemon_Node_Auth]}"
    and run: "through a req gs \<lparr>ex_api_key = None, ex_node = None\<rparr> h s = (x, s')"
  shows "(\<exists>e. x = Inl e) \<and> db (as_world s') = db (as_world s)
    \<or> (\<exists>ext s1. list_all (passed a req (as_world s) ext) gs \<and> db (as_world s1) = db (as_world s) \<and> h ext s1 = (x, s'))"
proof -
  obtain i s1 where key: "on_world (api_key_auth a (dq_headers req) (\<lambda>ident. ret ident)) s = (i, s1)" by force
  note k = key_guard [OF key]
  consider "gs = []" | "gs = [Api_Key_Auth]" | "gs = [Api_Key_Auth, Require_Admin_Role]" | "gs = [Daemon_Node_Auth]"
    using assms(1) by blast
  then show ?thesis
  proof cases
    case 1
    then show ?thesis using run by auto
  next
    case 2
    then show ?thesis using run key k by (cases i) (auto simp: bind_op_def passed_def)
  next
    case 3
    show ?thesis
    proof (cases i)
      case (Inl e)
      then show ?thesis using run key k 3 by (auto simp: bind_op_def)
    next
      case (Inr ident)
      obtain u s2 where "on_world (require_admin_role (Some ident) () (\<lambda>_. ret ())) s1 = (u, s2)" by force
      then show ?thesis
        using run key k 3 Inr admin_guard [of "Some ident" s1 u s2] by (cases u) (auto simp: bind_op_def passed_def)
    qed
  next
    case 4
    then have "daemon_node_auth a req (\<lambda>who _. h \<lparr>ex_api_key = None, ex_node = Some who\<rparr>) s = (x, s')"
      using run by simp
    from daemon_guard [OF this] show ?thesis
    proof (elim disjE exE conjE)
      fix authz who s2 now claim
      assume "header_text (dq_headers req) ''authorization'' = Some authz"
        "fst (resolve_daemon_node_identity a authz (as_world s)) = Inr who"
        "check_claim a (dq_method req) (dq_path req) (dq_headers req) who now = Inr claim"
        and s2: "db (as_world s2) = db (as_world s)" "h \<lparr>ex_api_key = None, ex_node = Some who\<rparr> s2 = (x, s')"
      then have "passed a req (as_world s) \<lparr>ex_api_key = None, ex_node = Some who\<rparr> Daemon_Node_Auth"
        by (auto simp: passed_def)
      then show ?thesis using 4 s2 by auto
    qed simp
  qed
qed
text \<open>C6. No request reaches a handler around its guards: either it is refused and the database is as before, or
  the handler of its route runs, on an unchanged database, after the guards of the path have passed: a live API key
  under \<open>/v1/\<close>, moreover one of an administrator under \<open>/admin/\<close>, and a live node's valid signature under
  \<open>/daemon/\<close>. The handler finds in the extensions exactly the identities that were proved.\<close>

theorem handlers_run_behind_their_guards:
  "(case answer_request a handlers req s of (r, s') \<Rightarrow>
      (r = Refused_Method \<or> (\<exists>e. r = Answered (Inl e))) \<and> db (as_world s') = db (as_world s)
    \<or> (\<exists>e ps ext s1 x. route_request (method_of (dq_method req)) (dq_path req) = Endpoint (guards_for (dq_path req)) e ps
        \<and> list_all (passed a req (as_world s) ext) (guards_for (dq_path req))
        \<and> db (as_world s1) = db (as_world s) \<and> handlers e ps ext s1 = (x, s') \<and> r = Answered x))"
proof (cases "route_request (method_of (dq_method req)) (dq_path req)")
  case (Endpoint gs e ps)
  let ?ext = "\<lparr>ex_api_key = None, ex_node = None\<rparr>"
  note gs = route_request_guards [OF Endpoint]
  obtain x s' where run: "through a req gs ?ext (handlers e ps) s = (x, s')" by force
  have "(\<exists>e. x = Inl e) \<and> db (as_world s') = db (as_world s)
    \<or> (\<exists>ext s1. list_all (passed a req (as_world s) ext) gs \<and> db (as_world s1) = db (as_world s)
        \<and> handlers e ps ext s1 = (x, s'))"
    using through_cases [OF _ run] guards_cases [of "dq_path req", folded gs] by blast
  then show ?thesis using run Endpoint gs by (auto simp: answer_request_def)
qed (simp_all add: answer_request_def)

end
