(* ===== verification/Schema.thy ===== *)
theory Schema
  imports Database
begin

text \<open>
  The row records of crates/mizan-core/src/schema.rs: the names of the tables, the flags of integer columns read
  as booleans, and one record per table. The handlers read their rows with tuples of their own (the
  records of theory \<open>Database\<close>, whose flags are the integers of the columns), so that these records are the
  public view of the rows that the crate exports.
\<close>

section \<open>Names of the tables\<close>

definition TABLE_USERS :: str where "TABLE_USERS = lit ''users''"
definition TABLE_SESSIONS :: str where "TABLE_SESSIONS = lit ''sessions''"
definition TABLE_API_KEYS :: str where "TABLE_API_KEYS = lit ''api_keys''"
definition TABLE_PROVIDER_CONNECTIONS :: str where "TABLE_PROVIDER_CONNECTIONS = lit ''provider_connections''"
definition TABLE_MODEL_ROUTES :: str where "TABLE_MODEL_ROUTES = lit ''model_routes''"
definition TABLE_WALLETS :: str where "TABLE_WALLETS = lit ''wallets''"
definition TABLE_CREDIT_LEDGER :: str where "TABLE_CREDIT_LEDGER = lit ''credit_ledger''"
definition TABLE_USAGE_EVENTS :: str where "TABLE_USAGE_EVENTS = lit ''usage_events''"
definition TABLE_REQUEST_LOGS :: str where "TABLE_REQUEST_LOGS = lit ''request_logs''"
definition TABLE_ADMIN_AUDIT_LOGS :: str where "TABLE_ADMIN_AUDIT_LOGS = lit ''admin_audit_logs''"
definition TABLE_DAEMON_NODES :: str where "TABLE_DAEMON_NODES = lit ''daemon_nodes''"

definition tables :: "str list" where
  "tables = [TABLE_USERS, TABLE_SESSIONS, TABLE_API_KEYS, TABLE_PROVIDER_CONNECTIONS, TABLE_MODEL_ROUTES,
    TABLE_WALLETS, TABLE_CREDIT_LEDGER, TABLE_USAGE_EVENTS, TABLE_REQUEST_LOGS, TABLE_ADMIN_AUDIT_LOGS,
    TABLE_DAEMON_NODES]"

lemma tables_distinct: "distinct tables"
  by (simp add: tables_def lit_def TABLE_USERS_def TABLE_SESSIONS_def TABLE_API_KEYS_def
    TABLE_PROVIDER_CONNECTIONS_def TABLE_MODEL_ROUTES_def TABLE_WALLETS_def TABLE_CREDIT_LEDGER_def
    TABLE_USAGE_EVENTS_def TABLE_REQUEST_LOGS_def TABLE_ADMIN_AUDIT_LOGS_def TABLE_DAEMON_NODES_def)

section \<open>Flags\<close>

definition bool_to_i64 :: "bool \<Rightarrow> i64" where
  "bool_to_i64 v = (if v then 1 else 0)"

definition i64_to_bool :: "i64 \<Rightarrow> bool" where
  "i64_to_bool v \<longleftrightarrow> v \<noteq> 0"

definition i8_to_bool :: "8 word \<Rightarrow> bool" where
  "i8_to_bool v \<longleftrightarrow> v \<noteq> 0"

lemma flag_of_bool [simp]: "i64_to_bool (bool_to_i64 b) = b"
  by (simp add: i64_to_bool_def bool_to_i64_def)

text \<open>The statements write only the flags 0 and 1; on those the reading and the comparison with 1 in a query agree.\<close>

lemma bool_of_flag: "bool_to_i64 (i64_to_bool v) = v \<longleftrightarrow> v \<in> {0, 1}"
  by (auto simp: i64_to_bool_def bool_to_i64_def)

lemma flags_agree: "i8_to_bool v \<longleftrightarrow> i64_to_bool (sint v)"
  by (simp add: i8_to_bool_def i64_to_bool_def signed_eq_0_iff)

section \<open>Rows\<close>

record user_record =
  usr_id :: uuid
  usr_email :: str
  usr_password_hash :: str
  usr_role :: str
  usr_created_at :: str
  usr_updated_at :: str

record session_record =
  ssr_id :: uuid
  ssr_user_id :: uuid
  ssr_session_token_hash :: str
  ssr_expires_at :: "str option"
  ssr_revoked :: bool
  ssr_created_at :: str
  ssr_updated_at :: str

record api_key_record =
  akr_id :: uuid
  akr_user_id :: uuid
  akr_key_hash :: str
  akr_label :: "str option"
  akr_revoked :: bool
  akr_created_at :: str
  akr_updated_at :: str

record provider_connection_record =
  pcr_id :: uuid
  pcr_name :: str
  pcr_provider_type :: str
  pcr_auth_mode :: str
  pcr_auth_config_json :: "str option"
  pcr_base_url :: str
  pcr_api_key_encrypted :: str
  pcr_enabled :: bool
  pcr_created_at :: str
  pcr_updated_at :: str

record model_route_record =
  mrr_id :: uuid
  mrr_provider_connection_id :: uuid
  mrr_public_model :: str
  mrr_upstream_model :: str
  mrr_max_tokens :: "i64 option"
  mrr_pricing_input_per_1m_tokens :: i64
  mrr_pricing_output_per_1m_tokens :: i64
  mrr_enabled :: bool
  mrr_created_at :: str
  mrr_updated_at :: str

record wallet_record =
  wlr_id :: uuid
  wlr_owner_user_id :: uuid
  wlr_balance_microcredits :: i64
  wlr_created_at :: str
  wlr_updated_at :: str

record credit_ledger_record =
  clr_id :: uuid
  clr_wallet_id :: uuid
  clr_request_id :: "uuid option"
  clr_request_delta_microcredits :: i64
  clr_balance_after_microcredits :: i64
  clr_reason :: str
  clr_created_at :: str

record usage_event_record =
  uer_id :: uuid
  uer_request_id :: str
  uer_user_id :: "uuid option"
  uer_api_key_id :: "uuid option"
  uer_provider_id :: "uuid option"
  uer_route_id :: "uuid option"
  uer_daemon_node_id :: "uuid option"
  uer_model :: str
  uer_usage_prompt_tokens :: i64
  uer_usage_completion_tokens :: i64
  uer_usage_total_tokens :: i64
  uer_usage_estimated :: bool
  uer_status_code :: i64
  uer_latency_ms :: i64
  uer_created_at :: str

record request_log_record =
  rlr_id :: uuid
  rlr_request_id :: str
  rlr_user_id :: "uuid option"
  rlr_api_key_id :: "uuid option"
  rlr_provider_id :: "uuid option"
  rlr_route_id :: "uuid option"
  rlr_daemon_node_id :: "uuid option"
  rlr_method :: str
  rlr_path :: str
  rlr_route :: "str option"
  rlr_provider :: "str option"
  rlr_status_code :: i64
  rlr_latency_ms :: i64
  rlr_error_code :: "str option"
  rlr_created_at :: str

record admin_audit_log_record =
  aar_id :: uuid
  aar_actor_user_id :: "uuid option"
  aar_action :: str
  aar_entity_type :: str
  aar_entity_id :: "str option"
  aar_payload_json :: "str option"
  aar_created_at :: str

record daemon_node_record =
  dnr_id :: uuid
  dnr_host_user_id :: "uuid option"
  dnr_label :: "str option"
  dnr_hostname :: "str option"
  dnr_public_key :: "str option"
  dnr_token_hash :: str
  dnr_status :: str
  dnr_revoked :: bool
  dnr_last_seen_at :: "str option"
  dnr_created_at :: str
  dnr_updated_at :: str

end
