(* ===== verification/Spec2Isabelle.thy ===== *)
theory Spec2Isabelle
  imports Core_Error Wallet Redaction Rtk_Filter Sql_Params Billing Limits Dispatch Auth Daemon_Auth Daemon_Nodes Sse Providers Metrics Config Gateway_Money
    Gateway_Routed Daemon_Session Daemon_Chat Daemon_Commands Cli_Proxy Router Schema
begin

text \<open>
  Verification library of mizan, a gateway in front of OpenAI-compatible providers that keeps accounts of
  credit, limits its callers and can hand requests to daemons on other machines.

  \<^bold>\<open>The program and its theories.\<close> A request comes in through the route table and its layers
  (\<open>Router\<close>: crates/mizan-api/src/lib.rs, storage.rs), is authenticated (\<open>Auth\<close>: auth.rs for API
  keys and sessions; \<open>Daemon_Auth\<close>: daemon_nodes.rs for the signed requests of daemons) and reaches a
  handler. The chat handlers (\<open>Gateway_Core\<close>, \<open>Gateway_Stream\<close>, \<open>Gateway\<close>, with their theorems
  about money in \<open>Gateway_Money\<close> and \<open>Gateway_Routed\<close>: gateway.rs) resolve
  a model to a route (\<open>Providers\<close>: providers.rs, with the keys of \<open>Secrets\<close>: utils.rs) or to a node
  (\<open>Daemon_Nodes\<close>: daemon_nodes.rs), check credit (\<open>Billing\<close>: billing.rs, on the arithmetic of
  \<open>Wallet\<close>: mizan-wallet, mizan-metering), take leases (\<open>Limits\<close>: mizan-limits), call the provider
  (\<open>Upstream\<close>, \<open>Sse\<close>: mizan-providers, mizan-gateway, context.rs) or dispatch a job to a node and wait
  (\<open>Dispatch\<close>: dispatch.rs), record usage, log the request (\<open>Database\<close>: logging.rs) with redacted texts
  (\<open>Redaction\<close>: redaction.rs), count it (\<open>Metrics\<close>: metrics.rs) and release the leases. The errors and
  their statuses are \<open>Core_Error\<close> (error.rs, utils.rs), the configuration is \<open>Config\<close> (config.rs).
  The other side of a dispatch is the daemon (\<open>Daemon_Client\<close>, with its commands in \<open>Daemon_Commands\<close>:
  crates/mizan-daemon/src/main.rs), and \<open>Daemon_Session\<close> and \<open>Daemon_Chat\<close> let daemon, control plane and gateway
  talk to each other. \<open>Rtk_Filter\<close> and \<open>Cli_Proxy\<close> are the command line tool (mizan-rtk, mizan-cli),
  \<open>Process\<close> the set-up of the log (telemetry.rs) and the end of a process, \<open>Sql_Params\<close> the rewriting of
  placeholders (utils.rs), \<open>Chat_Types\<close> and \<open>Utf8\<close> the data of chats and texts. \<open>Prelude\<close> holds the
  types of numbers and texts and what the theories share about lists, options and results; \<open>Schema\<close> has the
  names and row records that mizan-core exports (schema.rs), which no handler uses.

  \<^bold>\<open>State.\<close> The tables are lists of rows in a record \<open>database\<close>; a statement is a partial function on it that
  fails on a unique column, and a transaction a copy that is committed. A handler is a function from a \<open>world\<close>
  (tables, open transaction, clock and identifiers numbered by a counter, and a schedule of faults that
  can hit any statement) to a result and a world; errors are the left side of a sum, in the order in
  which the code returns them. Redis is a state of its own behind an interface with the laws it documents; the
  gateway runs in a state monad over tables, Redis, metrics and numbered calls to the outside. A machine integer is a
  word, or an \<open>int\<close> with its range and every cast and saturation written out. Texts are lists
  of code points.

  \<^bold>\<open>What is shown.\<close> For money: usage is charged once and never below zero, a grant posts its amount, a
  usage that the credit check admitted can be charged, errors cost nothing, the charge is rounded up
  (\<open>Billing\<close>, \<open>Wallet\<close>, \<open>Gateway_Money\<close>), and a request for a model with a route is answered with what
  the provider answers and pays exactly its charge (\<open>Gateway_Routed\<close>). For requests: every chat request is answered, logged and
  counted once with the status its caller sees, and its leases are released or held by the stream, which is settled or
  abandoned (\<open>Gateway\<close>, \<open>Gateway_Stream\<close>); leases stay within the limit and the windows are exact
  (\<open>Limits\<close>). For access: handlers run behind their guards (\<open>Router\<close>), revoked keys, expired sessions, revoked
  nodes and replayed requests stay out (\<open>Auth\<close>, \<open>Daemon_Auth\<close>, \<open>Daemon_Nodes\<close>), and stored provider keys are
  recovered only with their secret (\<open>Providers\<close>). For jobs and nodes: the handlers refine step relations
  whose finished rows never change (locale \<open>row_lifecycle\<close>, interpreted on jobs, keys, sessions and
  nodes; locale \<open>ledger_book\<close> on the wallets; locale \<open>sharding\<close> on the metrics; locale \<open>authenticator\<close>
  on the guards of the routes; locale \<open>job_board\<close> on the control plane as a daemon sees it), a job goes to one node and is
  completed by it, the gateway's wait returns, and a chat request for a model of a node is answered by the provider
  on the node (\<open>Dispatch\<close>, \<open>Daemon_Session\<close>, \<open>Daemon_Chat\<close>). For texts: the event stream does not depend on the pieces in which it
  arrives (\<open>Sse\<close>, \<open>Cli_Proxy\<close>), redaction leaves no credential prefix, the filter keeps to its bounds. For processes: a command ends
  with code 0, or with code 1 and its reason, and only a started daemon goes on (\<open>Daemon_Commands\<close>, \<open>Cli_Proxy\<close>).

  \<^bold>\<open>Bounds and fuel.\<close> The wait of the gateway polls every 100 ms, so that
  \<open>wait_fuel timeout = timeout div 100 + 2\<close> turns are enough for a clock that advances with the polls; this is part
  of what is proved. The parser of events and the scanner of redaction recurse on what is left to read. The loop of the
  daemon has no end: \<open>run_turns\<close> is its first \<open>n\<close> turns.

  \<^bold>\<open>Parameters.\<close> bcrypt, SHA-256, AES-GCM, base64, \<open>serde_json\<close>, \<open>toml\<close>, UUIDs, Redis, the HTTP
  client, the file system and the clock are arguments of the definitions; where a theorem needs what they document
  (a decoder inverts its encoder, Redis increments and expires, identifiers are fresh) this is
  a named hypothesis with a concrete instance in its witness.

  \<^bold>\<open>Not modelled.\<close> The SQL texts and the migrations (sqlx runs them; the statements are
  translated to functions on rows), the filters and the subscriber of the tracing crate, the argument parsers of the
  command line tools (clap), the HTTP server, its graceful shutdown and the trace layer (axum, tokio).
  Concurrency is the interleaving of whole statements: between two polls of the gateway the rest of the system is an arbitrary function on the world.
\<close>

end
